(* ===== verification/Prelude.thy ===== *)
theory Prelude imports Main "HOL-Library.Word" "HOL-Library.Sublist" begin

text \<open>
  The vocabulary every other theory of the development shares: the Windows scalar types at
  their width, the status codes the drivers compare against, the model of calls that leave the
  repository, and the generic lemmas and theorem collections that carry the component proofs.
\<close>

section \<open>Scalar types\<close>

type_synonym UCHAR = "8 word"
type_synonym USHORT = "16 word"
type_synonym ULONG = "32 word"
type_synonym UINT32 = "32 word"
type_synonym UINT16 = "16 word"
type_synonym DWORD = "32 word"
type_synonym NTSTATUS = "32 word"
type_synonym NDIS_STATUS = "32 word"

text \<open>
  Addresses, handles and object pointers are natural numbers with 0 for NULL. Pointer
  arithmetic in the sources stays inside one allocation, so it never wraps. A GUID has the four
  fields of its structure.
\<close>

type_synonym addr = nat
type_synonym handle = nat

datatype GUID = GUID "32 word" "16 word" "16 word" "8 word list"

abbreviation (input) NULL :: nat where "NULL \<equiv> 0"

text \<open>A counted string of the kernel: its length and capacity in bytes and its buffer.\<close>

record UNICODE_STRING =
  Length :: USHORT
  MaximumLength :: USHORT
  Buffer :: addr

section \<open>Status codes\<close>

text \<open>The numbers are those of the published status tables (ntstatus.h and ndis.h).\<close>

abbreviation STATUS_SUCCESS :: NTSTATUS where "STATUS_SUCCESS \<equiv> 0"
abbreviation STATUS_UNSUCCESSFUL :: NTSTATUS where "STATUS_UNSUCCESSFUL \<equiv> 0xC0000001"
abbreviation STATUS_INVALID_HANDLE :: NTSTATUS where "STATUS_INVALID_HANDLE \<equiv> 0xC0000008"
abbreviation STATUS_INVALID_PARAMETER :: NTSTATUS where "STATUS_INVALID_PARAMETER \<equiv> 0xC000000D"
abbreviation STATUS_INVALID_DEVICE_REQUEST :: NTSTATUS
  where "STATUS_INVALID_DEVICE_REQUEST \<equiv> 0xC0000010"
abbreviation STATUS_BUFFER_TOO_SMALL :: NTSTATUS where "STATUS_BUFFER_TOO_SMALL \<equiv> 0xC0000023"
abbreviation STATUS_INSUFFICIENT_RESOURCES :: NTSTATUS
  where "STATUS_INSUFFICIENT_RESOURCES \<equiv> 0xC000009A"
abbreviation STATUS_NOT_FOUND :: NTSTATUS where "STATUS_NOT_FOUND \<equiv> 0xC0000225"
abbreviation STATUS_FAILED_DRIVER_ENTRY :: NTSTATUS
  where "STATUS_FAILED_DRIVER_ENTRY \<equiv> 0xC0000365"
abbreviation STATUS_NOT_SAFE_MODE_DRIVER :: NTSTATUS
  where "STATUS_NOT_SAFE_MODE_DRIVER \<equiv> 0xC000035F"

abbreviation NDIS_STATUS_SUCCESS :: NDIS_STATUS where "NDIS_STATUS_SUCCESS \<equiv> 0"
abbreviation NDIS_STATUS_RESOURCES :: NDIS_STATUS where "NDIS_STATUS_RESOURCES \<equiv> 0xC000009A"
abbreviation NDIS_STATUS_INVALID_PARAMETER :: NDIS_STATUS
  where "NDIS_STATUS_INVALID_PARAMETER \<equiv> 0xC000000D"
abbreviation NDIS_STATUS_PAUSED :: NDIS_STATUS where "NDIS_STATUS_PAUSED \<equiv> 0xC023002A"

section \<open>Calls that leave the repository\<close>

text \<open>
  The kernel, NDIS, the filtering platform and the C runtime are not part of the repository.
  A component names the calls it makes in a datatype \<open>'c\<close> and appends each one with its answer,
  in order, to a trace. What a call answers is up to a world: any function of the trace so far
  and of the call. Every theorem is for an arbitrary world unless it names a hypothesis about
  it.
\<close>

type_synonym ('c, 'r) trace = "('c \<times> 'r) list"
type_synonym ('c, 'r) world = "('c, 'r) trace \<Rightarrow> 'c \<Rightarrow> 'r"

definition ask :: "('c, 'r) world \<Rightarrow> 'c \<Rightarrow> ('c, 'r) trace \<Rightarrow> 'r \<times> ('c, 'r) trace" where
  "ask w c tr = (let r = w tr c in (r, tr @ [(c, r)]))"

lemma fst_ask [simp]: "fst (ask w c tr) = w tr c"
  by (simp add: ask_def Let_def)

lemma snd_ask [simp]: "snd (ask w c tr) = tr @ [(c, w tr c)]"
  by (simp add: ask_def Let_def)

text \<open>What most kernel calls answer: a status and the value written to the out parameter.\<close>

record os_ret =
  ret_status :: "32 word"
  ret_out :: nat

text \<open>How often an event satisfying \<open>P\<close> occurs in a trace.\<close>

definition occurrences :: "('e \<Rightarrow> bool) \<Rightarrow> 'e list \<Rightarrow> nat" where
  "occurrences P tr = length (filter P tr)"

lemma occurrences_Nil [simp]: "occurrences P [] = 0"
  by (simp add: occurrences_def)

lemma occurrences_Cons [simp]:
  "occurrences P (c # tr) = (if P c then Suc (occurrences P tr) else occurrences P tr)"
  by (simp add: occurrences_def)

lemma occurrences_append [simp]:
  "occurrences P (xs @ ys) = occurrences P xs + occurrences P ys"
  by (simp add: occurrences_def)

lemma occurrences_0_iff: "occurrences P tr = 0 \<longleftrightarrow> (\<forall>c \<in> set tr. \<not> P c)"
  by (auto simp: occurrences_def filter_empty_conv)

text \<open>
  A monitor reads a trace from its start, one call with its answer after the other. What it says
  of a trace extended by a call depends only on what it said before and on that call.
\<close>

named_theorems monitor_simps

locale trace_monitor =
  fixes run :: "('c, 'r) trace \<Rightarrow> 's"
    and step :: "'s \<Rightarrow> 'c \<times> 'r \<Rightarrow> 's"
    and start :: 's
  assumes run_Nil: "run [] = start"
    and run_snoc: "run (tr @ [e]) = step (run tr) e"
begin

lemma run_ask: "run (snd (ask w c tr)) = step (run tr) (c, w tr c)"
  by (simp add: run_snoc)

lemma run_foldl: "run tr = foldl step start tr"
  by (induction tr rule: rev_induct) (simp_all add: run_Nil run_snoc)

lemma run_append: "run (tr @ tr') = foldl step (run tr) tr'"
  by (simp add: run_foldl)

text \<open>What every step keeps holds after every trace that starts where it holds.\<close>

lemma run_invariant:
  assumes "Q (run tr)" "\<And>s e. e \<in> set tr' \<Longrightarrow> Q s \<Longrightarrow> Q (step s e)"
  shows "Q (run (tr @ tr'))"
  using assms
proof (induction tr' rule: rev_induct)
  case (snoc e es)
  then have "Q (run (tr @ es))" by simp
  with snoc.prems(2) [of e] show ?case
    by (simp add: run_snoc flip: append_assoc)
qed simp

end

section \<open>Words\<close>

lemma word_of_nat_Suc: "(of_nat (Suc n) :: 'a::len word) = of_nat n + 1"
  by simp

lemma unat_of_nat_small: "n < 2 ^ LENGTH('a) \<Longrightarrow> unat (of_nat n :: 'a::len word) = n"
  by (simp add: unat_of_nat take_bit_nat_eq_self)

lemma of_nat_diff_word: "m \<le> n \<Longrightarrow> (of_nat (n - m) :: 'a::len word) = of_nat n - of_nat m"
  by (simp add: of_nat_diff)

end
