(* ===== verification/Kmdf_Drivers.thy ===== *)
theory Kmdf_Drivers imports Prelude begin

text \<open>
  The three drivers built on the kernel-mode driver framework alone: \<^verbatim>\<open>src/EmptyKMDFDriver\<close>,
  \<^verbatim>\<open>src/KmdfHelloWorld\<close> and \<^verbatim>\<open>src/WDFTestDriver\<close>. Each is its entry routine and the callbacks it hands to the
  framework. Names are given the driver's prefix where the sources repeat them.
\<close>

section \<open>What the drivers hand to the framework\<close>

datatype callback =
    Empty_DriverUnload | Empty_DeviceAdd | Empty_FileCreate | Empty_Read | Empty_Write | Empty_Default | Empty_Control
  | Hello_DeviceAdd
  | Test_DeviceAdd | Test_ContextCleanup | Test_Control | Test_IoStop

record driver_config =
  EvtDriverDeviceAdd :: callback
  EvtDriverUnload :: "callback option"
  NonPnpDriver :: bool

datatype queue_dispatch = WdfIoQueueDispatchSequential | WdfIoQueueDispatchParallel

text \<open>A default queue; a callback that is not set is \<open>None\<close>.\<close>

record queue_config =
  DispatchType :: queue_dispatch
  EvtIoDefault :: "callback option"
  EvtIoRead :: "callback option"
  EvtIoWrite :: "callback option"
  EvtIoDeviceControl :: "callback option"
  EvtIoStop :: "callback option"

definition default_queue :: "queue_dispatch \<Rightarrow> queue_config" where
  "default_queue d = \<lparr>DispatchType = d, EvtIoDefault = None, EvtIoRead = None, EvtIoWrite = None,
     EvtIoDeviceControl = None, EvtIoStop = None\<rparr>"

text \<open>
  Attributes of an object: \<open>None\<close> is \<^verbatim>\<open>WDF_NO_OBJECT_ATTRIBUTES\<close>; else the cleanup callback, if any, and
  whether the object gets a device context.
\<close>

record object_attributes =
  EvtCleanupCallback :: "callback option"
  has_context :: bool

datatype kmdf_call =
    WdfDriverCreate addr addr "object_attributes option" driver_config
  | WdfControlDeviceInitAllocate handle string
  | WdfDeviceInitSetFileObjectConfig addr callback object_attributes
  | WdfDeviceInitSetDeviceType addr ULONG
  | WdfDeviceInitSetIoTypeBuffered addr
  | WdfDeviceInitAssignName addr string
  | WdfDeviceInitFree addr
  | WdfDeviceCreate addr "object_attributes option"
  | WdfIoQueueCreate handle queue_config
  | WdfControlFinishInitializing handle
  | WdfDeviceWdmGetDeviceObject handle
  | WdfDeviceCreateSymbolicLink handle string
  | WdfDeviceCreateDeviceInterface handle GUID
  | WdfDriverWdmGetDriverObject handle
  | WdfRequestComplete handle NTSTATUS
  | KdPrintEx string "nat list"
  | TraceEvents string "nat list"
  | WPP_INIT_TRACING addr addr
  | WPP_CLEANUP addr

type_synonym kmdf_trace = "(kmdf_call, os_ret) trace"
type_synonym kmdf_world = "(kmdf_call, os_ret) world"

text \<open>The status macros of the kernel headers, and whether the build is a checked one.\<close>

record kmdf_platform =
  kmdf_DBG :: bool
  NT_ERROR :: "NTSTATUS \<Rightarrow> bool"
  NT_SUCCESS :: "NTSTATUS \<Rightarrow> bool"
  SDDL_DEVOBJ_SYS_ALL_ADM_ALL :: string
  kmdf_FILE_DEVICE_UNKNOWN :: ULONG

text \<open>
  The two globals of \<^verbatim>\<open>EmptyKMDFDriver\<close>, the contexts of the devices of \<^verbatim>\<open>WDFTestDriver\<close> (one field,
  \<^verbatim>\<open>PrivateDeviceData\<close>), and the calls.
\<close>

record kmdf_state =
  WDFDriverDevice :: handle
  DriverDeviceObject :: addr
  device_contexts :: "handle \<Rightarrow> ULONG option"
  kmdf_log :: kmdf_trace

definition kmdf_ask :: "kmdf_world \<Rightarrow> kmdf_call \<Rightarrow> kmdf_state \<Rightarrow> os_ret \<times> kmdf_state" where
  "kmdf_ask w c s = (let (r, tr) = ask w c (kmdf_log s) in (r, s\<lparr>kmdf_log := tr\<rparr>))"

definition kmdf_do :: "kmdf_world \<Rightarrow> kmdf_call \<Rightarrow> kmdf_state \<Rightarrow> kmdf_state" where
  "kmdf_do w c s = snd (kmdf_ask w c s)"

definition kmdf_print :: "kmdf_platform \<Rightarrow> kmdf_world \<Rightarrow> string \<Rightarrow> nat list \<Rightarrow> kmdf_state \<Rightarrow> kmdf_state" where
  "kmdf_print P w fmt args s = (if kmdf_DBG P then kmdf_do w (KdPrintEx fmt args) s else s)"

named_theorems kmdf_simps

lemma kmdf_ask_eq [kmdf_simps]:
  "kmdf_ask w c s = (w (kmdf_log s) c, s\<lparr>kmdf_log := kmdf_log s @ [(c, w (kmdf_log s) c)]\<rparr>)"
  by (simp add: kmdf_ask_def ask_def Let_def)

lemma kmdf_do_eq [kmdf_simps]: "kmdf_do w c s = s\<lparr>kmdf_log := kmdf_log s @ [(c, w (kmdf_log s) c)]\<rparr>"
  by (simp add: kmdf_do_def kmdf_ask_eq)

section \<open>EmptyKMDFDriver\<close>

definition BarebonesKMDF :: string where "BarebonesKMDF = ''BarebonesKMDF''"

definition device_name :: string where
  "device_name = CHR 0x5C # ''Device'' @ CHR 0x5C # BarebonesKMDF"

definition link_name :: string where
  "link_name = CHR 0x5C # ''??'' @ CHR 0x5C # BarebonesKMDF"

definition empty_config :: driver_config where
  "empty_config = \<lparr>EvtDriverDeviceAdd = Empty_DeviceAdd, EvtDriverUnload = Some Empty_DriverUnload, NonPnpDriver = True\<rparr>"

definition no_attributes :: object_attributes where
  "no_attributes = \<lparr>EvtCleanupCallback = None, has_context = False\<rparr>"

definition empty_queue :: queue_config where
  "empty_queue = (default_queue WdfIoQueueDispatchSequential)\<lparr>EvtIoDefault := Some Empty_Default,
     EvtIoRead := Some Empty_Read, EvtIoWrite := Some Empty_Write, EvtIoDeviceControl := Some Empty_Control\<rparr>"

definition DriverUnload_empty :: "kmdf_state \<Rightarrow> kmdf_state" where
  "DriverUnload_empty s = s"

text \<open>The \<^verbatim>\<open>break\<close> statements leave the loop that runs once, for the return of the status.\<close>

definition DriverEntry_empty ::
  "kmdf_platform \<Rightarrow> kmdf_world \<Rightarrow> ULONG \<Rightarrow> addr \<Rightarrow> addr \<Rightarrow> kmdf_state \<Rightarrow> NTSTATUS \<times> kmdf_state" where
  "DriverEntry_empty P w InitSafeBootMode driverObject registryPath s =
     (if InitSafeBootMode > 0 then (STATUS_NOT_SAFE_MODE_DRIVER, s)
      else
        let s = s\<lparr>DriverDeviceObject := NULL, WDFDriverDevice := NULL\<rparr>;
            (r, s) = kmdf_ask w (WdfDriverCreate driverObject registryPath (Some no_attributes) empty_config) s;
            status = ret_status r in
        if NT_ERROR P status then (status, kmdf_print P w ''WdfDriverCreate() failed %lu'' [unat status] s)
        else
          let (r, s) = kmdf_ask w (WdfControlDeviceInitAllocate (ret_out r) (SDDL_DEVOBJ_SYS_ALL_ADM_ALL P)) s; deviceInit = ret_out r in
          if deviceInit = NULL
          then (STATUS_FAILED_DRIVER_ENTRY, kmdf_print P w ''WdfControlDeviceInitAllocate() failed %lu'' [unat status] s)
          else
            let s = kmdf_do w (WdfDeviceInitSetFileObjectConfig deviceInit Empty_FileCreate no_attributes) s;
                s = kmdf_do w (WdfDeviceInitSetDeviceType deviceInit (kmdf_FILE_DEVICE_UNKNOWN P)) s;
                s = kmdf_do w (WdfDeviceInitSetIoTypeBuffered deviceInit) s;
                (r, s) = kmdf_ask w (WdfDeviceInitAssignName deviceInit device_name) s; status = ret_status r in
            if NT_ERROR P status then (status, kmdf_print P w ''WdfDeviceInitAssignName() failed %lu'' [unat status] s)
            else
              let (r, s) = kmdf_ask w (WdfDeviceCreate deviceInit None) s; status = ret_status r;
                  s = s\<lparr>WDFDriverDevice := ret_out r\<rparr> in
              if NT_ERROR P status then (status, kmdf_print P w ''WdfDeviceCreate() failed %lu'' [unat status] s)
              else
                let (r, s) = kmdf_ask w (WdfIoQueueCreate (WDFDriverDevice s) empty_queue) s; status = ret_status r in
                if NT_ERROR P status then (status, kmdf_print P w ''WdfIoQueueCreate() failed %lu'' [unat status] s)
                else
                  let s = kmdf_do w (WdfControlFinishInitializing (WDFDriverDevice s)) s;
                      (r, s) = kmdf_ask w (WdfDeviceWdmGetDeviceObject (WDFDriverDevice s)) s;
                      s = s\<lparr>DriverDeviceObject := ret_out r\<rparr> in
                  if DriverDeviceObject s = NULL
                  then (status, kmdf_print P w ''WdfDeviceWdmGetDeviceObject() failed %lu'' [unat status] s)
                  else
                    let (r, s) = kmdf_ask w (WdfDeviceCreateSymbolicLink (WDFDriverDevice s) link_name) s;
                        status = ret_status r in
                    if NT_ERROR P status
                    then (status, kmdf_print P w ''WdfDeviceCreateSymbolicLink() failed %lu'' [unat status] s)
                    else (STATUS_SUCCESS, kmdf_print P w ''Barebones WDF (KMDF) driver initialised successfully.'' [] s))"

definition EvtWdfDriverDeviceAdd :: "kmdf_platform \<Rightarrow> kmdf_world \<Rightarrow> kmdf_state \<Rightarrow> NTSTATUS \<times> kmdf_state" where
  "EvtWdfDriverDeviceAdd P w s = (STATUS_SUCCESS, kmdf_print P w ''EvtWdfDriverDeviceAdd()'' [] s)"

definition EvtWdfDeviceFileCreate :: "kmdf_platform \<Rightarrow> kmdf_world \<Rightarrow> handle \<Rightarrow> kmdf_state \<Rightarrow> kmdf_state" where
  "EvtWdfDeviceFileCreate P w Request s =
     kmdf_do w (WdfRequestComplete Request 0) (kmdf_print P w ''EvtWdfDeviceFileCreate()'' [] s)"

definition EvtWdfIoQueueRead :: "kmdf_platform \<Rightarrow> kmdf_world \<Rightarrow> handle \<Rightarrow> kmdf_state \<Rightarrow> kmdf_state" where
  "EvtWdfIoQueueRead P w request s =
     kmdf_do w (WdfRequestComplete request STATUS_SUCCESS) (kmdf_print P w ''EvtWdfIoQueueRead()'' [] s)"

definition EvtWdfIoQueueWrite :: "kmdf_platform \<Rightarrow> kmdf_world \<Rightarrow> handle \<Rightarrow> kmdf_state \<Rightarrow> kmdf_state" where
  "EvtWdfIoQueueWrite P w request s =
     kmdf_do w (WdfRequestComplete request STATUS_SUCCESS) (kmdf_print P w ''EvtWdfIoQueueWrite()'' [] s)"

definition EvtWdfIoQueueIoDefault :: "kmdf_platform \<Rightarrow> kmdf_world \<Rightarrow> handle \<Rightarrow> kmdf_state \<Rightarrow> kmdf_state" where
  "EvtWdfIoQueueIoDefault P w Request s =
     kmdf_do w (WdfRequestComplete Request 0) (kmdf_print P w ''EvtWdfIoQueueIoDefault()'' [] s)"

definition EvtIoDeviceControl_empty :: "kmdf_platform \<Rightarrow> kmdf_world \<Rightarrow> handle \<Rightarrow> kmdf_state \<Rightarrow> kmdf_state" where
  "EvtIoDeviceControl_empty P w request s =
     kmdf_do w (WdfRequestComplete request STATUS_SUCCESS) (kmdf_print P w ''EvtIoDeviceControl()'' [] s)"

section \<open>KmdfHelloWorld\<close>

definition DriverEntry_hello ::
  "kmdf_platform \<Rightarrow> kmdf_world \<Rightarrow> addr \<Rightarrow> addr \<Rightarrow> kmdf_state \<Rightarrow> NTSTATUS \<times> kmdf_state" where
  "DriverEntry_hello P w DriverObject RegistryPath s =
     (let s = kmdf_print P w ''KmdfHelloWorld: DriverEntry'' [] s;
          (r, s) = kmdf_ask w (WdfDriverCreate DriverObject RegistryPath None
                     \<lparr>EvtDriverDeviceAdd = Hello_DeviceAdd, EvtDriverUnload = None, NonPnpDriver = False\<rparr>) s;
          status = ret_status r;
          s = (if \<not> NT_SUCCESS P status
               then kmdf_print P w ''KmdfHelloWorld::DriverEntry(): WdfDriverCreate() create'' [] s else s)
      in (status, s))"

definition KmdfHelloWorldEvtDeviceAdd ::
  "kmdf_platform \<Rightarrow> kmdf_world \<Rightarrow> addr \<Rightarrow> kmdf_state \<Rightarrow> NTSTATUS \<times> kmdf_state" where
  "KmdfHelloWorldEvtDeviceAdd P w DeviceInit s =
     (let s = kmdf_print P w ''KmdfHelloWorld: KmdfHelloWorldEvtDeviceAdd'' [] s;
          (r, s) = kmdf_ask w (WdfDeviceCreate DeviceInit None) s
      in (ret_status r, s))"

section \<open>WDFTestDriver\<close>

definition DriverEntry_test ::
  "kmdf_platform \<Rightarrow> kmdf_world \<Rightarrow> addr \<Rightarrow> addr \<Rightarrow> kmdf_state \<Rightarrow> NTSTATUS \<times> kmdf_state" where
  "DriverEntry_test P w DriverObject RegistryPath s =
     (let s = kmdf_do w (WPP_INIT_TRACING DriverObject RegistryPath) s;
          s = kmdf_do w (TraceEvents ''DriverEntry Entry'' []) s;
          (r, s) = kmdf_ask w (WdfDriverCreate DriverObject RegistryPath
                     (Some \<lparr>EvtCleanupCallback = Some Test_ContextCleanup, has_context = False\<rparr>)
                     \<lparr>EvtDriverDeviceAdd = Test_DeviceAdd, EvtDriverUnload = None, NonPnpDriver = False\<rparr>) s;
          status = ret_status r
      in if \<not> NT_SUCCESS P status
         then
           let s = kmdf_do w (TraceEvents ''WdfDriverCreate failed'' [unat status]) s
           in (status, kmdf_do w (WPP_CLEANUP DriverObject) s)
         else (status, kmdf_do w (TraceEvents ''DriverEntry Exit'' []) s))"

definition GUID_DEVINTERFACE_WDFTestDriver :: GUID where
  "GUID_DEVINTERFACE_WDFTestDriver =
     GUID 0x048efc52 0x5ba1 0x4647 [0x82, 0x84, 0xd6, 0xe6, 0xa6, 0xa4, 0x17, 0x32]"

definition test_queue :: queue_config where
  "test_queue = (default_queue WdfIoQueueDispatchParallel)\<lparr>EvtIoDeviceControl := Some Test_Control,
     EvtIoStop := Some Test_IoStop\<rparr>"

definition WDFTestDriverQueueInitialize ::
  "kmdf_platform \<Rightarrow> kmdf_world \<Rightarrow> handle \<Rightarrow> kmdf_state \<Rightarrow> NTSTATUS \<times> kmdf_state" where
  "WDFTestDriverQueueInitialize P w Device s =
     (let (r, s) = kmdf_ask w (WdfIoQueueCreate Device test_queue) s; status = ret_status r
      in if \<not> NT_SUCCESS P status
         then (status, kmdf_do w (TraceEvents ''WdfIoQueueCreate failed'' [unat status]) s)
         else (status, s))"

definition WDFTestDriverCreateDevice ::
  "kmdf_platform \<Rightarrow> kmdf_world \<Rightarrow> addr \<Rightarrow> kmdf_state \<Rightarrow> NTSTATUS \<times> kmdf_state" where
  "WDFTestDriverCreateDevice P w DeviceInit s =
     (let (r, s) = kmdf_ask w (WdfDeviceCreate DeviceInit (Some \<lparr>EvtCleanupCallback = None, has_context = True\<rparr>)) s;
          status = ret_status r; device = ret_out r
      in if NT_SUCCESS P status
         then
           let s = s\<lparr>device_contexts := (device_contexts s)(device \<mapsto> 0)\<rparr>;
               (r, s) = kmdf_ask w (WdfDeviceCreateDeviceInterface device GUID_DEVINTERFACE_WDFTestDriver) s; status = ret_status r
           in if NT_SUCCESS P status then WDFTestDriverQueueInitialize P w device s else (status, s)
         else (status, s))"

definition WDFTestDriverEvtDeviceAdd ::
  "kmdf_platform \<Rightarrow> kmdf_world \<Rightarrow> addr \<Rightarrow> kmdf_state \<Rightarrow> NTSTATUS \<times> kmdf_state" where
  "WDFTestDriverEvtDeviceAdd P w DeviceInit s =
     (let s = kmdf_do w (TraceEvents ''WDFTestDriverEvtDeviceAdd Entry'' []) s;
          (status, s) = WDFTestDriverCreateDevice P w DeviceInit s
      in (status, kmdf_do w (TraceEvents ''WDFTestDriverEvtDeviceAdd Exit'' []) s))"

definition WDFTestDriverEvtDriverContextCleanup :: "kmdf_world \<Rightarrow> handle \<Rightarrow> kmdf_state \<Rightarrow> kmdf_state" where
  "WDFTestDriverEvtDriverContextCleanup w DriverObject s =
     (let s = kmdf_do w (TraceEvents ''WDFTestDriverEvtDriverContextCleanup Entry'' []) s;
          (r, s) = kmdf_ask w (WdfDriverWdmGetDriverObject DriverObject) s
      in kmdf_do w (WPP_CLEANUP (ret_out r)) s)"

definition WDFTestDriverEvtIoDeviceControl ::
  "kmdf_world \<Rightarrow> handle \<Rightarrow> handle \<Rightarrow> nat \<Rightarrow> nat \<Rightarrow> ULONG \<Rightarrow> kmdf_state \<Rightarrow> kmdf_state" where
  "WDFTestDriverEvtIoDeviceControl w Queue Request OutputBufferLength InputBufferLength IoControlCode s =
     (let s = kmdf_do w (TraceEvents ''Queue, Request OutputBufferLength InputBufferLength IoControlCode''
                [Queue, Request, unat (of_nat OutputBufferLength :: ULONG), unat (of_nat InputBufferLength :: ULONG),
                 unat IoControlCode]) s
      in kmdf_do w (WdfRequestComplete Request STATUS_SUCCESS) s)"

definition WDFTestDriverEvtIoStop :: "kmdf_world \<Rightarrow> handle \<Rightarrow> handle \<Rightarrow> ULONG \<Rightarrow> kmdf_state \<Rightarrow> kmdf_state" where
  "WDFTestDriverEvtIoStop w Queue Request ActionFlags s =
     kmdf_do w (TraceEvents ''Queue, Request ActionFlags'' [Queue, Request, unat ActionFlags]) s"

section \<open>What an entry leaves behind\<close>

text \<open>
  Read off a trace: the device initialisation structures the driver has (the framework takes one
  when it creates the device), whether one was allocated, whether a device was created and whether
  it can be reached by its link.
\<close>

record entry_view =
  held :: "addr set"
  allocated :: bool
  device_made :: bool
  linked :: bool

fun entry_step :: "kmdf_platform \<Rightarrow> entry_view \<Rightarrow> kmdf_call \<times> os_ret \<Rightarrow> entry_view" where
  "entry_step P v (WdfControlDeviceInitAllocate h sd, r) =
     (if ret_out r = NULL then v else v\<lparr>held := insert (ret_out r) (held v), allocated := True\<rparr>)"
| "entry_step P v (WdfDeviceInitFree i, r) = v\<lparr>held := held v - {i}\<rparr>"
| "entry_step P v (WdfDeviceCreate i a, r) =
     (if NT_ERROR P (ret_status r) then v else v\<lparr>held := held v - {i}, device_made := True\<rparr>)"
| "entry_step P v (WdfDeviceCreateSymbolicLink h n, r) = (if NT_ERROR P (ret_status r) then v else v\<lparr>linked := True\<rparr>)"
| "entry_step P v (_, r) = v"

definition entry_start :: entry_view where
  "entry_start = \<lparr>held = {}, allocated = False, device_made = False, linked = False\<rparr>"

definition view :: "kmdf_platform \<Rightarrow> kmdf_trace \<Rightarrow> entry_view" where
  "view P tr = foldl (entry_step P) entry_start tr"

interpretation view: trace_monitor "view P" "entry_step P" entry_start for P
  by unfold_locales (simp_all add: view_def)

lemma view_ask: "kmdf_ask w c s = (r, s') \<Longrightarrow>
    view P (kmdf_log s') = entry_step P (view P (kmdf_log s)) (c, r) \<and> DriverDeviceObject s' = DriverDeviceObject s"
  by (auto simp: kmdf_ask_eq view.run_snoc)

text \<open>What changes nothing in the view.\<close>

lemma view_do [simp]:
  "view P (kmdf_log (kmdf_print P' w fmt args s)) = view P (kmdf_log s)"
  "view P (kmdf_log (kmdf_do w (WdfDeviceInitSetFileObjectConfig i c a) s)) = view P (kmdf_log s)"
  "view P (kmdf_log (kmdf_do w (WdfDeviceInitSetDeviceType i t) s)) = view P (kmdf_log s)"
  "view P (kmdf_log (kmdf_do w (WdfDeviceInitSetIoTypeBuffered i) s)) = view P (kmdf_log s)"
  "view P (kmdf_log (kmdf_do w (WdfControlFinishInitializing h) s)) = view P (kmdf_log s)"
  by (simp_all add: kmdf_print_def kmdf_do_eq view.run_snoc)

lemma DriverDeviceObject_do [simp]:
  "DriverDeviceObject (kmdf_print P w fmt args s) = DriverDeviceObject s"
  "DriverDeviceObject (kmdf_do w c s) = DriverDeviceObject s"
  by (simp_all add: kmdf_print_def kmdf_do_eq)

text \<open>The statuses the drivers make up themselves.\<close>

definition kmdf_documented :: "kmdf_platform \<Rightarrow> bool" where
  "kmdf_documented P \<longleftrightarrow> NT_ERROR P STATUS_NOT_SAFE_MODE_DRIVER \<and> NT_ERROR P STATUS_FAILED_DRIVER_ENTRY \<and>
     \<not> NT_ERROR P STATUS_SUCCESS"

lemma DriverEntry_empty_effect:
  assumes run: "DriverEntry_empty P w safe D R s = (st, s')" and start: "view P (kmdf_log s) = entry_start"
    and doc: "kmdf_documented P"
  shows "let v = view P (kmdf_log s') in
    (if NT_ERROR P st then \<not> linked v \<and> (held v \<noteq> {} \<longleftrightarrow> allocated v \<and> \<not> device_made v)
     else device_made v \<and> held v = {} \<and> (linked v \<longleftrightarrow> DriverDeviceObject s' \<noteq> NULL))"
  using assms
  by (auto simp: DriverEntry_empty_def Let_def kmdf_documented_def entry_start_def
      dest!: view_ask [of _ _ _ _ _ P] split: prod.splits if_splits)

section \<open>Requests\<close>

text \<open>The events of the queues of \<^verbatim>\<open>EmptyKMDFDriver\<close> and \<^verbatim>\<open>WDFTestDriver\<close>, each with its request.\<close>

datatype io_event =
    File_create handle | Io_read handle | Io_write handle | Io_default handle | Io_control handle
  | Test_io_control handle handle nat nat ULONG | Test_io_stop handle handle ULONG

fun handle_event :: "kmdf_platform \<Rightarrow> kmdf_world \<Rightarrow> io_event \<Rightarrow> kmdf_state \<Rightarrow> kmdf_state" where
  "handle_event P w (File_create r) = EvtWdfDeviceFileCreate P w r"
| "handle_event P w (Io_read r) = EvtWdfIoQueueRead P w r"
| "handle_event P w (Io_write r) = EvtWdfIoQueueWrite P w r"
| "handle_event P w (Io_default r) = EvtWdfIoQueueIoDefault P w r"
| "handle_event P w (Io_control r) = EvtIoDeviceControl_empty P w r"
| "handle_event P w (Test_io_control q r m n c) = WDFTestDriverEvtIoDeviceControl w q r m n c"
| "handle_event P w (Test_io_stop q r f) = WDFTestDriverEvtIoStop w q r f"

text \<open>The request an event is to complete: stopping a queue leaves its request alone.\<close>

fun event_request :: "io_event \<Rightarrow> handle list" where
  "event_request (File_create r) = [r]"
| "event_request (Io_read r) = [r]"
| "event_request (Io_write r) = [r]"
| "event_request (Io_default r) = [r]"
| "event_request (Io_control r) = [r]"
| "event_request (Test_io_control q r m n c) = [r]"
| "event_request (Test_io_stop q r f) = []"

fun completion :: "kmdf_call \<times> os_ret \<Rightarrow> (handle \<times> NTSTATUS) list" where
  "completion (WdfRequestComplete r st, _) = [(r, st)]"
| "completion _ = []"

definition completions :: "kmdf_trace \<Rightarrow> (handle \<times> NTSTATUS) list" where
  "completions tr = concat (map completion tr)"

lemma completions_simps [simp]:
  "completions [] = []" "completions (tr @ tr') = completions tr @ completions tr'"
  "completions (e # tr) = completion e @ completions tr"
  by (simp_all add: completions_def)

lemma completions_do [simp]:
  "completions (kmdf_log (kmdf_do w c s)) = completions (kmdf_log s) @ completion (c, w (kmdf_log s) c)"
  "completions (kmdf_log (kmdf_print P w fmt args s)) = completions (kmdf_log s)"
  by (simp_all add: kmdf_print_def kmdf_do_eq)

lemma handle_event_completes:
  "completions (kmdf_log (handle_event P w e s)) = completions (kmdf_log s) @ map (\<lambda>r. (r, STATUS_SUCCESS)) (event_request e)"
  by (cases e) (simp_all add: EvtWdfDeviceFileCreate_def EvtWdfIoQueueRead_def EvtWdfIoQueueWrite_def
      EvtWdfIoQueueIoDefault_def EvtIoDeviceControl_empty_def WDFTestDriverEvtIoDeviceControl_def
      WDFTestDriverEvtIoStop_def Let_def)

section \<open>Properties\<close>

text \<open>
  C31: Over every sequence of events of the queues, the requests completed are exactly those of the events,
  each once, with success and in the order of the events; nothing else is completed, and a request of
  a queue that is stopped is left alone.
\<close>

theorem requests_completed_in_order:
  "completions (kmdf_log (fold (handle_event P w) es s)) =
     completions (kmdf_log s) @ map (\<lambda>r. (r, STATUS_SUCCESS)) (concat (map event_request es))"
  by (induction es arbitrary: s) (simp_all add: handle_event_completes)

text \<open>
  C32: What the entry of \<^verbatim>\<open>EmptyKMDFDriver\<close> leaves behind. When it fails it has made no link, and it still
  has the initialisation structure whenever that was allocated and no device was created, for it is
  never freed. When it does not fail the device exists, but it can be reached by its link only if the
  device object was found: without one the entry returns the success of the call before.
\<close>

theorem empty_entry_outcome:
  assumes "DriverEntry_empty P w safe D R s = (st, s')" "kmdf_log s = []" "kmdf_documented P"
  shows "let v = view P (kmdf_log s') in
    (if NT_ERROR P st then \<not> linked v \<and> (held v \<noteq> {} \<longleftrightarrow> allocated v \<and> \<not> device_made v)
     else device_made v \<and> held v = {} \<and> (linked v \<longleftrightarrow> DriverDeviceObject s' \<noteq> NULL))"
  using DriverEntry_empty_effect [OF assms(1) _ assms(3)] assms(2) by (simp add: view.run_Nil)

definition sample_kmdf :: kmdf_platform where
  "sample_kmdf = \<lparr>kmdf_DBG = False, NT_ERROR = (\<lambda>st. 0xC0000000 \<le> st), NT_SUCCESS = (\<lambda>st. st < 0x80000000),
     SDDL_DEVOBJ_SYS_ALL_ADM_ALL = ''D:P(A;;GA;;;SY)(A;;GA;;;BA)'', kmdf_FILE_DEVICE_UNKNOWN = 0x22\<rparr>"

definition fresh_kmdf :: kmdf_state where
  "fresh_kmdf = \<lparr>WDFDriverDevice = NULL, DriverDeviceObject = NULL, device_contexts = (\<lambda>_. None), kmdf_log = []\<rparr>"

text \<open>A framework in which the name is taken.\<close>

definition name_taken :: kmdf_world where
  "name_taken tr c = (case c of
       WdfDeviceInitAssignName i n \<Rightarrow> \<lparr>ret_status = 0xC0000035, ret_out = 0\<rparr>
     | _ \<Rightarrow> \<lparr>ret_status = 0, ret_out = 5\<rparr>)"

theorem empty_entry_outcome_witness:
  "fst (DriverEntry_empty sample_kmdf name_taken 0 1 2 fresh_kmdf) = 0xC0000035 \<and>
   held (view sample_kmdf (kmdf_log (snd (DriverEntry_empty sample_kmdf name_taken 0 1 2 fresh_kmdf)))) \<noteq> {}"
proof -
  let ?r = "DriverEntry_empty sample_kmdf name_taken 0 1 2 fresh_kmdf"
  have 1: "fst ?r = 0xC0000035" "allocated (view sample_kmdf (kmdf_log (snd ?r)))"
    "\<not> device_made (view sample_kmdf (kmdf_log (snd ?r)))"
    by (simp_all add: DriverEntry_empty_def kmdf_simps sample_kmdf_def name_taken_def fresh_kmdf_def kmdf_print_def
        view_def entry_start_def)
  have "?r = (fst ?r, snd ?r)" by simp
  moreover have "kmdf_log fresh_kmdf = []" "kmdf_documented sample_kmdf" "NT_ERROR sample_kmdf (fst ?r)"
    unfolding 1(1) by (simp_all add: fresh_kmdf_def kmdf_documented_def sample_kmdf_def)
  ultimately show ?thesis
    using empty_entry_outcome [of sample_kmdf name_taken 0 1 2 fresh_kmdf "fst ?r" "snd ?r"] 1 by (simp add: Let_def)
qed

text \<open>The driver objects for which tracing was started and stopped.\<close>

fun tracing :: "kmdf_call \<times> os_ret \<Rightarrow> (addr + addr) list" where
  "tracing (WPP_INIT_TRACING d r, _) = [Inl d]"
| "tracing (WPP_CLEANUP d, _) = [Inr d]"
| "tracing _ = []"

definition tracings :: "kmdf_trace \<Rightarrow> (addr + addr) list" where
  "tracings tr = concat (map tracing tr)"

text \<open>
  \<^verbatim>\<open>WDFTestDriver\<close> stops the tracing it started exactly once: its entry stops it itself when the
  framework's driver object could not be created, and otherwise the cleanup callback of that object does,
  provided the framework names the same driver object there.
\<close>

theorem tracing_stopped_once:
  assumes "DriverEntry_test P w D R s = (st, s')"
    and "\<And>tr. ret_out (w' tr (WdfDriverWdmGetDriverObject h)) = D"
  shows "tracings (kmdf_log s') = tracings (kmdf_log s) @ (if NT_SUCCESS P st then [Inl D] else [Inl D, Inr D]) \<and>
    tracings (kmdf_log (WDFTestDriverEvtDriverContextCleanup w' h s')) = tracings (kmdf_log s') @ [Inr D]"
  using assms
  by (auto simp: DriverEntry_test_def WDFTestDriverEvtDriverContextCleanup_def tracings_def Let_def kmdf_simps split: if_splits)

theorem tracing_stopped_once_witness:
  "tracings (kmdf_log (WDFTestDriverEvtDriverContextCleanup (\<lambda>_ _. \<lparr>ret_status = 0, ret_out = 3\<rparr>) 9
     (snd (DriverEntry_test sample_kmdf name_taken 3 2 fresh_kmdf)))) = [Inl 3, Inr 3]"
proof -
  let ?r = "DriverEntry_test sample_kmdf name_taken 3 2 fresh_kmdf"
  have "fst ?r = 0" by (simp add: DriverEntry_test_def Let_def kmdf_simps name_taken_def sample_kmdf_def)
  moreover have "?r = (fst ?r, snd ?r)" by simp
  ultimately show ?thesis
    using tracing_stopped_once [of sample_kmdf name_taken 3 2 fresh_kmdf "fst ?r" "snd ?r"
        "\<lambda>_ _. \<lparr>ret_status = 0, ret_out = 3\<rparr>" 9]
    by (simp add: fresh_kmdf_def tracings_def sample_kmdf_def)
qed

end
