(* ===== verification/List_Entry.thy ===== *)
theory List_Entry imports Prelude begin

text \<open>
  Doubly linked lists of the Windows kernel. The drivers of the repository keep their objects on
  \<^verbatim>\<open>LIST_ENTRY\<close> rings through routines that the kernel headers provide and that are not part of
  the repository, so the routines are a parameter (a record of functions on the memory of links)
  and the locale \<open>kernel_lists\<close> states what their documentation promises. The ring a list head
  anchors is described by the sequence of its entries. The functions \<open>wdm_lists\<close> are one set of
  routines that keeps the promises.
\<close>

section \<open>Entries, rings and the routines\<close>

record LIST_ENTRY =
  Flink :: addr
  Blink :: addr

type_synonym links = "addr \<Rightarrow> LIST_ENTRY"

text \<open>
  \<open>ring m h xs\<close>: in the memory \<open>m\<close> the head \<open>h\<close> anchors a closed ring whose entries, in the order of
  the forward links, are \<open>xs\<close>; the backward links are the same ring read the other way.
\<close>

definition ring :: "links \<Rightarrow> addr \<Rightarrow> addr list \<Rightarrow> bool" where
  "ring m h xs \<longleftrightarrow> distinct (h # xs) \<and>
     map (\<lambda>a. Flink (m a)) (h # xs) = xs @ [h] \<and>
     map (\<lambda>a. Blink (m a)) (xs @ [h]) = h # xs"

text \<open>
  The routines, each a function on the memory of links. \<^verbatim>\<open>RemoveEntryList\<close> also answers whether the
  list is empty afterwards, and \<^verbatim>\<open>ExInterlockedRemoveHeadList\<close> the removed entry, NULL for none; the interlocked
  routines also take a spin lock, which the caller names.
\<close>

record list_routines =
  InitializeListHead :: "addr \<Rightarrow> links \<Rightarrow> links"
  IsListEmpty :: "addr \<Rightarrow> links \<Rightarrow> bool"
  InsertHeadList :: "addr \<Rightarrow> addr \<Rightarrow> links \<Rightarrow> links"
  InsertTailList :: "addr \<Rightarrow> addr \<Rightarrow> links \<Rightarrow> links"
  RemoveEntryList :: "addr \<Rightarrow> links \<Rightarrow> bool \<times> links"
  ExInterlockedInsertTailList :: "addr \<Rightarrow> addr \<Rightarrow> links \<Rightarrow> links"
  ExInterlockedRemoveHeadList :: "addr \<Rightarrow> links \<Rightarrow> addr \<times> links"

locale kernel_lists =
  fixes R :: list_routines
  assumes initialize: "ring (InitializeListHead R h m) h []"
    and empty_test: "IsListEmpty R h m \<longleftrightarrow> Flink (m h) = h"
    and insert_head: "ring m h xs \<Longrightarrow> x \<notin> set (h # xs) \<Longrightarrow> ring (InsertHeadList R h x m) h (x # xs)"
    and insert_tail: "ring m h xs \<Longrightarrow> x \<notin> set (h # xs) \<Longrightarrow> ring (InsertTailList R h x m) h (xs @ [x])"
    and remove_entry: "ring m h xs \<Longrightarrow> x \<in> set xs \<Longrightarrow>
      ring (snd (RemoveEntryList R x m)) h (remove1 x xs) \<and>
      fst (RemoveEntryList R x m) = (remove1 x xs = [])"
    and interlocked_insert_tail: "ExInterlockedInsertTailList R h x m = InsertTailList R h x m"
    and remove_head: "ring m h (x # xs) \<Longrightarrow> ExInterlockedRemoveHeadList R h m = (x, snd (RemoveEntryList R x m))"
    and remove_head_empty: "ring m h [] \<Longrightarrow> ExInterlockedRemoveHeadList R h m = (NULL, m)"
    and insert_frame: "ring m h xs \<Longrightarrow> a \<notin> set (x # h # xs) \<Longrightarrow> InsertTailList R h x m a = m a"
    and remove_frame: "ring m h xs \<Longrightarrow> x \<in> set xs \<Longrightarrow> a \<notin> set (h # xs) \<Longrightarrow>
      snd (RemoveEntryList R x m) a = m a"
    and initialize_frame: "a \<noteq> h \<Longrightarrow> InitializeListHead R h m a = m a"
begin

lemma empty: "ring m h xs \<Longrightarrow> IsListEmpty R h m \<longleftrightarrow> xs = []"
  by (cases xs) (auto simp: empty_test ring_def)

lemma empty_after_initialize: "IsListEmpty R h (InitializeListHead R h m)"
  using empty [OF initialize] by simp

lemma insert_then_remove:
  assumes "ring m h xs" "x \<notin> set (h # xs)"
  shows "ring (snd (RemoveEntryList R x (InsertHeadList R h x m))) h xs"
  using remove_entry [OF insert_head [OF assms], of x] by simp

lemma remove_keeps_members:
  assumes "ring m h xs" "x \<in> set xs"
  shows "\<exists>ys. ring (snd (RemoveEntryList R x m)) h ys \<and> set ys = set xs - {x}"
proof -
  have "distinct xs" using assms(1) by (simp add: ring_def)
  then show ?thesis using remove_entry [OF assms] by (metis set_remove1_eq)
qed

lemma not_empty_while_listed:
  assumes "ring m h xs" "x \<in> set xs"
  shows "\<not> IsListEmpty R h m"
  using empty [OF assms(1)] assms(2) by auto

end

section \<open>What a ring determines\<close>

lemma ringI:
  assumes "distinct (h # xs)" "h # xs = as" "xs @ [h] = bs"
    "map (\<lambda>a. Flink (m a)) as = bs" "map (\<lambda>a. Blink (m a)) bs = as"
  shows "ring m h xs"
  using assms(1, 4, 5) unfolding ring_def assms(2) [symmetric] assms(3) [symmetric] by blast

lemma ring_distinct: "ring m h xs \<Longrightarrow> distinct xs \<and> h \<notin> set xs"
  by (simp add: ring_def)

lemma ring_next: "ring m h (ys @ t # zs) \<Longrightarrow> Flink (m t) = hd (zs @ [h])"
proof -
  assume r: "ring m h (ys @ t # zs)"
  have "map (\<lambda>a. Flink (m a)) ((h # ys) @ t # zs) = (ys @ [t]) @ zs @ [h]"
    using r by (simp add: ring_def)
  then have "map (\<lambda>a. Flink (m a)) (t # zs) = zs @ [h]"
    by (subst (asm) map_append, subst (asm) append_eq_append_conv) simp_all
  then show ?thesis by (metis hd_map list.sel(1) list.distinct(1))
qed

lemma ring_Nil: "ring m h [] \<longleftrightarrow> Flink (m h) = h \<and> Blink (m h) = h"
  by (auto simp: ring_def)

text \<open>A write outside a ring leaves it alone.\<close>

lemma ring_frame:
  assumes "ring m h xs" "\<forall>a \<in> set (h # xs). m' a = m a"
  shows "ring m' h xs"
proof -
  have F: "map (\<lambda>a. Flink (m' a)) (h # xs) = map (\<lambda>a. Flink (m a)) (h # xs)"
    using assms(2) by (intro map_cong) auto
  have B: "map (\<lambda>a. Blink (m' a)) (xs @ [h]) = map (\<lambda>a. Blink (m a)) (xs @ [h])"
    using assms(2) by (intro map_cong) auto
  show ?thesis using assms(1) unfolding ring_def by (simp only: F B)
qed

section \<open>One set of routines that keeps the promises\<close>

definition link_after :: "addr \<Rightarrow> addr \<Rightarrow> links \<Rightarrow> links" where
  "link_after b x m =
     (let f = Flink (m b);
          m1 = m(x := \<lparr>Flink = f, Blink = b\<rparr>);
          m2 = m1(f := (m1 f)\<lparr>Blink := x\<rparr>)
      in m2(b := (m2 b)\<lparr>Flink := x\<rparr>))"

definition unlink :: "addr \<Rightarrow> links \<Rightarrow> links" where
  "unlink x m =
     (let f = Flink (m x); b = Blink (m x);
          m1 = m(b := (m b)\<lparr>Flink := f\<rparr>)
      in m1(f := (m1 f)\<lparr>Blink := b\<rparr>))"

definition wdm_lists :: list_routines where
  "wdm_lists =
     \<lparr>InitializeListHead = \<lambda>h m. m(h := \<lparr>Flink = h, Blink = h\<rparr>),
      IsListEmpty = \<lambda>h m. Flink (m h) = h,
      InsertHeadList = \<lambda>h x m. link_after h x m,
      InsertTailList = \<lambda>h x m. link_after (Blink (m h)) x m,
      RemoveEntryList = \<lambda>x m. (Flink (m x) = Blink (m x), unlink x m),
      ExInterlockedInsertTailList = \<lambda>h x m. link_after (Blink (m h)) x m,
      ExInterlockedRemoveHeadList = \<lambda>h m. if Flink (m h) = h then (NULL, m) else (Flink (m h), unlink (Flink (m h)) m)\<rparr>"

text \<open>
  Both link surgeries read the ring around the place they change: before it \<open>us\<close> up to \<open>b\<close>, after
  it \<open>f\<close> and then \<open>vs\<close>.
\<close>

lemma map_if_notin: "b \<notin> set xs \<Longrightarrow> map (\<lambda>a. if a = b then v else g a) xs = map g xs"
  by (induction xs) auto

lemma link_after_fields:
  assumes "x \<noteq> b" "x \<noteq> Flink (m b)"
  shows "Flink (link_after b x m a) = (if a = b then x else if a = x then Flink (m b) else Flink (m a))"
    and "Blink (link_after b x m a) = (if a = Flink (m b) then x else if a = x then b else Blink (m a))"
  using assms by (auto simp: link_after_def Let_def)

lemma unlink_fields:
  shows "Flink (unlink x m a) = (if a = Blink (m x) then Flink (m x) else Flink (m a))"
    and "Blink (unlink x m a) = (if a = Flink (m x) then Blink (m x) else Blink (m a))"
  by (auto simp: unlink_def Let_def)

lemma ring_split:
  assumes "ring m h (xs @ ys)"
  obtains us b f vs where "h # xs = us @ [b]" "ys @ [h] = f # vs"
    "map (\<lambda>a. Flink (m a)) us = xs" "Flink (m b) = f" "map (\<lambda>a. Flink (m a)) ys = vs"
    "map (\<lambda>a. Blink (m a)) xs = us" "Blink (m f) = b" "map (\<lambda>a. Blink (m a)) vs = ys"
    "distinct (us @ b # ys)" "distinct (xs @ f # vs)"
proof -
  obtain us b where u: "h # xs = us @ [b]" by (metis append_butlast_last_id list.distinct(1))
  obtain f vs where v: "ys @ [h] = f # vs" by (cases "ys @ [h]") auto
  have hu: "h # (xs @ ys) = us @ b # ys" using u by (metis append_Cons append_assoc append_Nil)
  have hv: "(xs @ ys) @ [h] = xs @ f # vs" using v by simp
  have len: "length us = length xs" "length vs = length ys"
    using arg_cong [OF u, of length] arg_cong [OF v, of length] by simp_all
  have d: "distinct (h # (xs @ ys))"
    and F: "map (\<lambda>a. Flink (m a)) (us @ b # ys) = xs @ f # vs"
    and B: "map (\<lambda>a. Blink (m a)) (xs @ f # vs) = us @ b # ys"
    using assms unfolding ring_def hu hv by auto
  have F': "map (\<lambda>a. Flink (m a)) us = xs" "Flink (m b) = f" "map (\<lambda>a. Flink (m a)) ys = vs"
    using F len by (auto simp: append_eq_append_conv)
  have B': "map (\<lambda>a. Blink (m a)) xs = us" "Blink (m f) = b" "map (\<lambda>a. Blink (m a)) vs = ys"
    using B len by (auto simp: append_eq_append_conv)
  have d1: "distinct (us @ b # ys)" using d unfolding hu .
  have "distinct ((xs @ ys) @ [h])" using d by auto
  then have d2: "distinct (xs @ f # vs)" unfolding hv .
  show ?thesis using that u v F' B' d1 d2 by blast
qed

lemma ring_link_after:
  assumes r: "ring m h (xs @ ys)" and x: "x \<notin> set (h # xs @ ys)" and b: "b = last (h # xs)"
  shows "ring (link_after b x m) h (xs @ x # ys)"
proof -
  obtain us b' f vs where s: "h # xs = us @ [b']" "ys @ [h] = f # vs"
    "map (\<lambda>a. Flink (m a)) us = xs" "Flink (m b') = f" "map (\<lambda>a. Flink (m a)) ys = vs"
    "map (\<lambda>a. Blink (m a)) xs = us" "Blink (m f) = b'" "map (\<lambda>a. Blink (m a)) vs = ys"
    "distinct (us @ b' # ys)" "distinct (xs @ f # vs)"
    using r by (rule ring_split)
  have b': "b' = b" using s(1) b by simp
  have sets: "set (us @ b # ys) = set (h # xs @ ys)" "set (xs @ f # vs) = set (h # xs @ ys)"
    using arg_cong [OF s(1), of set] arg_cong [OF s(2), of set] unfolding b' by auto
  have xb: "x \<noteq> b" "x \<noteq> Flink (m b)" using x sets s(4) b' by auto
  note fields = link_after_fields [of x b m, OF xb]
  have xn: "x \<notin> set us" "x \<notin> set ys" "x \<notin> set xs" "x \<notin> set vs" using x sets by auto
  have bf: "b \<notin> set us" "b \<notin> set ys" "f \<notin> set xs" "f \<notin> set vs"
    using s(9) s(10) b' by auto
  have F: "map (\<lambda>a. Flink (link_after b x m a)) ((us @ [b]) @ x # ys) = xs @ x # f # vs"
    unfolding fields using s(3-5) b' xn bf xb(1) by (simp add: map_if_notin)
  have B: "map (\<lambda>a. Blink (link_after b x m a)) (xs @ x # f # vs) = us @ b # x # ys"
    unfolding fields using s(4) s(6-8) b' xn bf xb by (simp add: map_if_notin)
  have A: "h # (xs @ x # ys) = (us @ [b]) @ x # ys" "(xs @ x # ys) @ [h] = xs @ x # f # vs"
    using s(1) s(2) b' by (metis append_Cons, simp)
  have D: "distinct (h # (xs @ x # ys))" using r x by (auto simp: ring_def)
  show ?thesis using ringI [OF D A F] B by simp
qed

lemma ring_unlink:
  assumes r: "ring m h (xs @ x # ys)"
  shows "ring (unlink x m) h (xs @ ys)" and "(Flink (m x) = Blink (m x)) = (xs @ ys = [])"
proof -
  obtain us b f vs where s: "h # xs = us @ [b]" "(x # ys) @ [h] = f # vs"
    "map (\<lambda>a. Flink (m a)) us = xs" "Flink (m b) = f" "map (\<lambda>a. Flink (m a)) (x # ys) = vs"
    "map (\<lambda>a. Blink (m a)) xs = us" "Blink (m f) = b" "map (\<lambda>a. Blink (m a)) vs = x # ys"
    "distinct (us @ b # x # ys)" "distinct (xs @ f # vs)"
    using r by (rule ring_split)
  have f: "f = x" "vs = ys @ [h]" using s(2) by auto
  obtain g ws where g: "ys @ [h] = g # ws" by (cases "ys @ [h]") auto
  have X: "Flink (m x) = g" "map (\<lambda>a. Flink (m a)) ys = ws" "Blink (m x) = b"
      "Blink (m g) = x" "map (\<lambda>a. Blink (m a)) ws = ys"
    using s(5) s(7) s(8) g unfolding f by auto
  have bg: "b \<notin> set us" "b \<notin> set ys" using s(9) by auto
  have gg: "g \<notin> set xs" "g \<notin> set ws"
  proof -
    have "distinct (xs @ x # (g # ws))" using s(10) f g by simp
    then show "g \<notin> set xs" "g \<notin> set ws" by auto
  qed
  have F: "map (\<lambda>a. Flink (unlink x m a)) ((us @ [b]) @ ys) = xs @ g # ws"
    unfolding unlink_fields using s(3) X bg by (simp add: map_if_notin)
  have B: "map (\<lambda>a. Blink (unlink x m a)) (xs @ g # ws) = us @ b # ys"
    unfolding unlink_fields using s(6) X gg by (simp add: map_if_notin)
  have A: "h # (xs @ ys) = (us @ [b]) @ ys" "(xs @ ys) @ [h] = xs @ g # ws"
    using s(1) g by (metis append_Cons, simp)
  have D: "distinct (h # (xs @ ys))" using r by (auto simp: ring_def)
  show "ring (unlink x m) h (xs @ ys)" using ringI [OF D A F] B by simp
  have "g = hd (ys @ [h])" "b = last (h # xs)" using g s(1) by auto
  then show "(Flink (m x) = Blink (m x)) = (xs @ ys = [])"
    using r X unfolding ring_def by (cases xs; cases ys) (auto split: if_splits)
qed

lemma wdm_remove:
  assumes "ring m h xs" "x \<in> set xs"
  shows "ring (unlink x m) h (remove1 x xs)" "(Flink (m x) = Blink (m x)) = (remove1 x xs = [])"
proof -
  obtain ys zs where e: "xs = ys @ x # zs" using split_list [OF assms(2)] by blast
  then have n: "x \<notin> set ys" using assms(1) by (auto simp: ring_def)
  have "remove1 x xs = ys @ zs" using e n by (simp add: remove1_append)
  then show "ring (unlink x m) h (remove1 x xs)" "(Flink (m x) = Blink (m x)) = (remove1 x xs = [])"
    using ring_unlink assms(1) unfolding e by simp_all
qed

lemma ring_last: "ring m h xs \<Longrightarrow> Blink (m h) = last (h # xs)"
  by (auto simp: ring_def dest: arg_cong [where f = last])

lemma ring_link_around: "ring m h xs \<Longrightarrow> Flink (m (Blink (m h))) = h"
  by (cases xs rule: rev_cases) (auto simp: ring_def)

lemma ring_neighbours:
  assumes "ring m h xs" "x \<in> set xs"
  shows "Flink (m x) \<in> set (h # xs) \<and> Blink (m x) \<in> set (h # xs)"
proof -
  have "Flink (m x) \<in> set (map (\<lambda>a. Flink (m a)) (h # xs))" "Blink (m x) \<in> set (map (\<lambda>a. Blink (m a)) (xs @ [h]))"
    using assms(2) by auto
  then show ?thesis using assms(1) unfolding ring_def by (simp only: set_append set_simps) auto
qed

interpretation wdm: kernel_lists wdm_lists
proof
  show "ring (InitializeListHead wdm_lists h m) h []" for h m
    by (simp add: wdm_lists_def ring_def)
  show "IsListEmpty wdm_lists h m \<longleftrightarrow> Flink (m h) = h" for h m
    by (simp add: wdm_lists_def)
  show "ExInterlockedInsertTailList wdm_lists h x m = InsertTailList wdm_lists h x m" for h x m
    by (simp add: wdm_lists_def)
  show "InitializeListHead wdm_lists h m a = m a" if "a \<noteq> h" for a h m
    using that by (simp add: wdm_lists_def)
  show "ExInterlockedRemoveHeadList wdm_lists h m = (NULL, m)" if "ring m h []" for m h
    using that by (simp add: wdm_lists_def ring_Nil)
  show "InsertTailList wdm_lists h x m a = m a" if "ring m h xs" "a \<notin> set (x # h # xs)" for m h xs a x
  proof -
    have "Blink (m h) \<in> set (h # xs)" unfolding ring_last [OF that(1)] by (rule last_in_set) simp
    moreover have "Flink (m (Blink (m h))) = h"
      using ring_link_around [OF that(1)] .
    ultimately show ?thesis using that(2) by (auto simp: wdm_lists_def link_after_def Let_def)
  qed
  show "snd (RemoveEntryList wdm_lists x m) a = m a"
    if "ring m h xs" "x \<in> set xs" "a \<notin> set (h # xs)" for m h xs x a
    using ring_neighbours [OF that(1,2)] that(3) by (auto simp: wdm_lists_def unlink_def Let_def)
  show "ring (InsertHeadList wdm_lists h x m) h (x # xs)"
    if "ring m h xs" "x \<notin> set (h # xs)" for m h xs x
    using ring_link_after [of m h "[]" xs x h] that by (simp add: wdm_lists_def)
  show "ring (InsertTailList wdm_lists h x m) h (xs @ [x])"
    if "ring m h xs" "x \<notin> set (h # xs)" for m h xs x
    using ring_link_after [of m h xs "[]" x "Blink (m h)"] that ring_last [OF that(1)]
    by (simp add: wdm_lists_def)
  show "ring (snd (RemoveEntryList wdm_lists x m)) h (remove1 x xs) \<and>
      fst (RemoveEntryList wdm_lists x m) = (remove1 x xs = [])"
    if "ring m h xs" "x \<in> set xs" for m h xs x
    using wdm_remove [OF that] by (simp add: wdm_lists_def)
  show "ExInterlockedRemoveHeadList wdm_lists h m = (x, snd (RemoveEntryList wdm_lists x m))"
    if "ring m h (x # xs)" for m h x xs
    using that by (auto simp: wdm_lists_def ring_def)
qed

end
