(* ===== verification/Nfd_Core.thy ===== *)
theory Nfd_Core imports Prelude List_Entry begin

text \<open>
  The data of the NDIS filter driver (\<^verbatim>\<open>src/FilterDriver/NfdCore.hpp\<close> and the globals of
  \<^verbatim>\<open>main.cpp\<close>), the calls it makes into NDIS and the kernel, and the macros of the header: the
  lock macros, the allocation macros and the two assertions.
\<close>

section \<open>Structures\<close>

datatype FILTER_STATE =
    FilterStateUnspecified | FilterInitialized | FilterPausing | FilterPaused | FilterRunning
  | FilterRestarting | FilterDetaching

type_synonym NDIS_STRING = UNICODE_STRING

record QUEUE_HEADER =
  Head :: addr
  Tail :: addr

record FILTER_DEVICE_EXTENSION =
  Signature :: ULONG
  Handle :: handle

text \<open>
  \<^verbatim>\<open>MS_FILTER\<close>, the context of one attached filter module. Its first field, the list link, lives in
  the memory of links at the address of the context. The locks and the event have no field here:
  a lock is named by the address of its context in the calls below, and the event is never used.
\<close>

record MS_FILTER =
  RefCount :: ULONG
  FilterHandle :: handle
  FilterModuleName :: NDIS_STRING
  MiniportFriendlyName :: NDIS_STRING
  MiniportName :: NDIS_STRING
  MiniportIfIndex :: ULONG
  Status :: NDIS_STATUS
  BackFillSize :: ULONG
  State :: FILTER_STATE
  OutstandingSends :: ULONG
  OutstandingRequest :: ULONG
  OutstandingRcvs :: ULONG
  SendNBLQueue :: QUEUE_HEADER
  RcvNBLQueue :: QUEUE_HEADER
  FilterName :: NDIS_STRING
  CallsRestart :: ULONG
  TrackReceives :: bool
  TrackSends :: bool
  bIndicating :: bool
  PendingOidRequest :: addr

definition zero_NDIS_STRING :: NDIS_STRING where
  "zero_NDIS_STRING = \<lparr>Length = 0, MaximumLength = 0, Buffer = NULL\<rparr>"

text \<open>What \<^verbatim>\<open>NdisZeroMemory\<close> over the structure leaves in it.\<close>

definition zero_MS_FILTER :: MS_FILTER where
  "zero_MS_FILTER =
     \<lparr>RefCount = 0, FilterHandle = NULL, FilterModuleName = zero_NDIS_STRING,
      MiniportFriendlyName = zero_NDIS_STRING, MiniportName = zero_NDIS_STRING,
      MiniportIfIndex = 0, Status = 0, BackFillSize = 0, State = FilterStateUnspecified,
      OutstandingSends = 0, OutstandingRequest = 0, OutstandingRcvs = 0,
      SendNBLQueue = \<lparr>Head = NULL, Tail = NULL\<rparr>, RcvNBLQueue = \<lparr>Head = NULL, Tail = NULL\<rparr>,
      FilterName = zero_NDIS_STRING, CallsRestart = 0, TrackReceives = False,
      TrackSends = False, bIndicating = False, PendingOidRequest = NULL\<rparr>"

text \<open>
  A net buffer list as far as the driver touches it: where it is and its status. A chain is the
  list of its members up to the NULL that ends it.
\<close>

record NET_BUFFER_LIST =
  nbl_addr :: addr
  nbl_status :: NDIS_STATUS

type_synonym nbl_chain = "NET_BUFFER_LIST list"

record ATTACH_PARAMETERS =
  MiniportMediaType :: nat
  FilterModuleGuidName :: NDIS_STRING
  BaseMiniportInstanceName :: NDIS_STRING
  BaseMiniportName :: NDIS_STRING
  BaseMiniportIfIndex :: ULONG

text \<open>One restart attribute: its object identifier and, for the general ones, the lookahead size.\<close>

record RESTART_ATTRIBUTE =
  Oid :: ULONG
  LookaheadSize :: ULONG

section \<open>What the driver hands to NDIS\<close>

datatype routine =
    FilterRegisterOptions_routine | FilterAttach_routine | FilterDetach_routine
  | FilterRestart_routine | FilterPause_routine | FilterSetModuleOptions_routine
  | FilterSendNetBufferLists_routine | FilterReturnNetBufferLists_routine
  | FilterSendNetBufferListsComplete_routine | FilterReceiveNetBufferLists_routine
  | FilterDevicePnPEventNotify_routine | FilterDispatch_routine | FilterDeviceIoControl_routine
  | DriverUnload_routine

text \<open>Every structure handed over starts with its type, revision and size.\<close>

datatype ndis_object =
    FILTER_DRIVER_CHARACTERISTICS_object | FILTER_ATTRIBUTES_object | CONFIGURATION_object
  | DEVICE_OBJECT_ATTRIBUTES_object | FILTER_PARTIAL_CHARACTERISTICS_object

record OBJECT_HEADER =
  header_Type :: nat
  header_Revision :: nat
  header_Size :: nat

record FILTER_DRIVER_CHARACTERISTICS =
  Header :: OBJECT_HEADER
  MajorNdisVersion :: UCHAR
  MinorNdisVersion :: UCHAR
  MajorDriverVersion :: UCHAR
  MinorDriverVersion :: UCHAR
  Flags :: ULONG
  FriendlyName :: string
  UniqueName :: string
  ServiceName :: string
  SetOptionsHandler :: "routine option"
  AttachHandler :: "routine option"
  DetachHandler :: "routine option"
  RestartHandler :: "routine option"
  PauseHandler :: "routine option"
  SetFilterModuleOptionsHandler :: "routine option"
  SendNetBufferListsHandler :: "routine option"
  ReturnNetBufferListsHandler :: "routine option"
  SendNetBufferListsCompleteHandler :: "routine option"
  ReceiveNetBufferListsHandler :: "routine option"
  DevicePnPEventNotifyHandler :: "routine option"

text \<open>The optional handlers of one module, \<^verbatim>\<open>NDIS_FILTER_PARTIAL_CHARACTERISTICS\<close>.\<close>

record PARTIAL_CHARACTERISTICS =
  partial_Header :: OBJECT_HEADER
  partial_Send :: "routine option"
  partial_SendComplete :: "routine option"
  partial_CancelSend :: "routine option"
  partial_Receive :: "routine option"
  partial_Return :: "routine option"

text \<open>The device events of the NDIS headers; a value of the enumeration may be none of them.\<close>

datatype NDIS_DEVICE_PNP_EVENT =
    NdisDevicePnPEventQueryRemoved | NdisDevicePnPEventRemoved | NdisDevicePnPEventSurpriseRemoved
  | NdisDevicePnPEventQueryStopped | NdisDevicePnPEventStopped | NdisDevicePnPEventPowerProfileChanged
  | NdisDevicePnPEventFilterListChanged | NdisDevicePnPEventOther nat

datatype lock = FilterListLock | ModuleLock addr

datatype ndis_call =
    NdisAllocateSpinLock lock | NdisFreeSpinLock lock
  | NdisAcquireSpinLock lock | NdisDprAcquireSpinLock lock
  | NdisReleaseSpinLock lock | NdisDprReleaseSpinLock lock
  | NdisAllocateMemoryWithTagPriority handle ULONG
  | NdisFreeMemory addr
  | NdisFSetAttributes handle addr OBJECT_HEADER ULONG
  | NdisOpenConfigurationEx OBJECT_HEADER handle ULONG | NdisCloseConfiguration handle
  | NdisFSendNetBufferLists handle nbl_chain ULONG ULONG
  | NdisFSendNetBufferListsComplete handle nbl_chain ULONG
  | NdisFIndicateReceiveNetBufferLists handle nbl_chain ULONG ULONG ULONG
  | NdisFReturnNetBufferLists handle nbl_chain ULONG
  | NdisFRegisterFilterDriver addr handle FILTER_DRIVER_CHARACTERISTICS
  | NdisFDeregisterFilterDriver handle
  | NdisRegisterDeviceEx handle OBJECT_HEADER string string "nat \<Rightarrow> routine option" nat
  | NdisDeregisterDeviceEx handle
  | NdisGetDeviceReservedExtension addr
  | NdisSetOptionalHandlers handle PARTIAL_CHARACTERISTICS
  | NdisFDevicePnPEventNotify handle NDIS_DEVICE_PNP_EVENT
  | IoCompleteRequest addr NTSTATUS
  | DbgBreakPoint string
  | RtlAssert string

text \<open>
  What a call answers: a status, what its first out parameter (or its result) holds afterwards
  and, for the device registration, the device object.
\<close>

record ndis_ret = os_ret +
  ret_device :: addr

type_synonym ndis_trace = "(ndis_call, ndis_ret) trace"
type_synonym ndis_world = "(ndis_call, ndis_ret) world"

section \<open>The platform\<close>

text \<open>
  The constants and pure macros of the NDIS headers the driver is compiled against, the list
  routines, whether the build is a checked one (\<^verbatim>\<open>DBG\<close>), and the address of the list head.
\<close>

record platform =
  DBG :: bool
  kernel_list :: list_routines
  FilterModuleList :: addr
  sizeof_MS_FILTER :: nat
  sizeof_FILTER_DEVICE_EXTENSION :: nat
  NDIS_OBJECT_TYPE :: "ndis_object \<Rightarrow> nat"
  NDIS_REVISION_1 :: "ndis_object \<Rightarrow> nat"
  NDIS_SIZEOF :: "ndis_object \<Rightarrow> nat"
  NDIS_SUPPORT_NDIS61 :: bool
  NDIS_FILTER_CHARACTERISTICS_REVISION_2 :: nat
  NDIS_FILTER_MAJOR_VERSION :: UCHAR
  NDIS_FILTER_MINOR_VERSION :: UCHAR
  NdisMedium802_3 :: nat
  NdisMediumWan :: nat
  NdisMediumWirelessWan :: nat
  OID_GEN_MINIPORT_RESTART_ATTRIBUTES :: ULONG
  IRP_MJ_CREATE :: nat
  IRP_MJ_CLEANUP :: nat
  IRP_MJ_CLOSE :: nat
  IRP_MJ_DEVICE_CONTROL :: nat
  NDIS_TEST_SEND_AT_DISPATCH_LEVEL :: "ULONG \<Rightarrow> bool"
  NDIS_TEST_RECEIVE_AT_DISPATCH_LEVEL :: "ULONG \<Rightarrow> bool"
  NDIS_TEST_RETURN_AT_DISPATCH_LEVEL :: "ULONG \<Rightarrow> bool"
  NDIS_TEST_RECEIVE_CAN_PEND :: "ULONG \<Rightarrow> bool"
  NDIS_TEST_RECEIVE_CANNOT_PEND :: "ULONG \<Rightarrow> bool"
  NDIS_SET_RETURN_FLAG :: "ULONG \<Rightarrow> ULONG \<Rightarrow> ULONG"
  NDIS_SEND_COMPLETE_FLAGS_DISPATCH_LEVEL :: ULONG
  NDIS_RETURN_FLAGS_DISPATCH_LEVEL :: ULONG

definition object_header :: "platform \<Rightarrow> ndis_object \<Rightarrow> OBJECT_HEADER" where
  "object_header P x =
     \<lparr>header_Type = NDIS_OBJECT_TYPE P x, header_Revision = NDIS_REVISION_1 P x,
      header_Size = NDIS_SIZEOF P x\<rparr>"

section \<open>The state of the driver\<close>

text \<open>
  The globals of \<^verbatim>\<open>main.cpp\<close>, the unload routine stored in the driver object, the memory of links,
  the contexts that exist (a pointer to none is a fault), the bytes behind the contexts, the
  extensions of the control device, and the calls made so far with their answers.
\<close>

record ndis_state =
  FilterDriverHandle :: handle
  FilterDriverObject :: handle
  NdisFilterDeviceHandle :: handle
  NdisDeviceObject :: addr
  unload_routine :: "routine option"
  links :: links
  filters :: "addr \<Rightarrow> MS_FILTER option"
  bytes :: "addr \<Rightarrow> UCHAR"
  extensions :: "addr \<Rightarrow> FILTER_DEVICE_EXTENSION option"
  log :: ndis_trace

datatype fault = BadPointer addr

definition update_filter :: "addr \<Rightarrow> (MS_FILTER \<Rightarrow> MS_FILTER) \<Rightarrow> ndis_state \<Rightarrow> ndis_state" where
  "update_filter p g s = s\<lparr>filters := (filters s)(p := map_option g (filters s p))\<rparr>"

section \<open>Calls and macros\<close>

definition ndis_ask :: "ndis_world \<Rightarrow> ndis_call \<Rightarrow> ndis_state \<Rightarrow> ndis_ret \<times> ndis_state" where
  "ndis_ask w c s = (let (r, tr) = ask w c (log s) in (r, s\<lparr>log := tr\<rparr>))"

definition ndis_do :: "ndis_world \<Rightarrow> ndis_call \<Rightarrow> ndis_state \<Rightarrow> ndis_state" where
  "ndis_do w c s = snd (ndis_ask w c s)"

definition FILTER_ACQUIRE_LOCK :: "ndis_world \<Rightarrow> lock \<Rightarrow> bool \<Rightarrow> ndis_state \<Rightarrow> ndis_state" where
  "FILTER_ACQUIRE_LOCK w l DispatchLevel s =
     ndis_do w (if DispatchLevel then NdisDprAcquireSpinLock l else NdisAcquireSpinLock l) s"

definition FILTER_RELEASE_LOCK :: "ndis_world \<Rightarrow> lock \<Rightarrow> bool \<Rightarrow> ndis_state \<Rightarrow> ndis_state" where
  "FILTER_RELEASE_LOCK w l DispatchLevel s =
     ndis_do w (if DispatchLevel then NdisDprReleaseSpinLock l else NdisReleaseSpinLock l) s"

definition FILTER_INIT_LOCK :: "ndis_world \<Rightarrow> lock \<Rightarrow> ndis_state \<Rightarrow> ndis_state" where
  "FILTER_INIT_LOCK w l s = ndis_do w (NdisAllocateSpinLock l) s"

definition FILTER_FREE_LOCK :: "ndis_world \<Rightarrow> lock \<Rightarrow> ndis_state \<Rightarrow> ndis_state" where
  "FILTER_FREE_LOCK w l s = ndis_do w (NdisFreeSpinLock l) s"

definition FILTER_ALLOC_MEM :: "ndis_world \<Rightarrow> handle \<Rightarrow> ULONG \<Rightarrow> ndis_state \<Rightarrow> addr \<times> ndis_state" where
  "FILTER_ALLOC_MEM w h n s =
     (let (r, s) = ndis_ask w (NdisAllocateMemoryWithTagPriority h n) s in (ret_out r, s))"

text \<open>Freeing also takes the context away, so a later use of its pointer is a fault.\<close>

definition FILTER_FREE_MEM :: "ndis_world \<Rightarrow> addr \<Rightarrow> ndis_state \<Rightarrow> ndis_state" where
  "FILTER_FREE_MEM w p s = (let s = ndis_do w (NdisFreeMemory p) s in s\<lparr>filters := (filters s)(p := None)\<rparr>)"

text \<open>\<^verbatim>\<open>FILTER_ASSERT\<close> breaks in every build, the kernel's \<^verbatim>\<open>ASSERT\<close> in checked builds only.\<close>

definition FILTER_ASSERT :: "ndis_world \<Rightarrow> string \<Rightarrow> bool \<Rightarrow> ndis_state \<Rightarrow> ndis_state" where
  "FILTER_ASSERT w text b s = (if b then s else ndis_do w (DbgBreakPoint text) s)"

definition ASSERT :: "platform \<Rightarrow> ndis_world \<Rightarrow> string \<Rightarrow> bool \<Rightarrow> ndis_state \<Rightarrow> ndis_state" where
  "ASSERT P w text b s = (if DBG P \<and> \<not> b then ndis_do w (RtlAssert text) s else s)"

text \<open>\<^verbatim>\<open>NdisMoveMemory\<close> (the ranges are disjoint in the driver's uses).\<close>

definition NdisMoveMemory :: "addr \<Rightarrow> addr \<Rightarrow> nat \<Rightarrow> ndis_state \<Rightarrow> ndis_state" where
  "NdisMoveMemory dst src n s =
     s\<lparr>bytes := (\<lambda>a. if dst \<le> a \<and> a < dst + n then bytes s (src + (a - dst)) else bytes s a)\<rparr>"

definition bytes_at :: "(addr \<Rightarrow> UCHAR) \<Rightarrow> addr \<Rightarrow> nat \<Rightarrow> UCHAR list" where
  "bytes_at m a n = map m [a ..< a + n]"

end
