(* ===== verification/Filter_Driver.thy ===== *)
theory Filter_Driver imports Nfd_Core begin

text \<open>
  The handlers of the NDIS filter driver (\<^verbatim>\<open>src/FilterDriver/main.cpp\<close>) in the order of the file.
  A handler takes the platform, the world that answers its calls, its arguments and the state; it
  returns its result and the new state, or the fault of using a context that does not exist.
  Receiving, returning and unloading call NDIS in their middle, and NDIS may call back into other
  handlers before it answers, so each of the three is the composition of two halves split there.
\<close>

definition FILTER_FRIENDLY_NAME :: string where
  "FILTER_FRIENDLY_NAME = ''NDIS Sample LightWeight Filter''"
definition FILTER_SERVICE_NAME :: string where "FILTER_SERVICE_NAME = ''NDISLWF''"
definition FILTER_UNIQUE_NAME :: string where
  "FILTER_UNIQUE_NAME = ''{5cbf81bd-5055-47cd-9055-a76b2b4e3697}''"
definition LINKNAME_STRING :: string where
  "LINKNAME_STRING = CHR 0x5C # ''DosDevices'' @ CHR 0x5C # ''NDISLWF''"
definition NTDEVICE_STRING :: string where
  "NTDEVICE_STRING = CHR 0x5C # ''Device'' @ CHR 0x5C # ''NDISLWF''"

section \<open>Attaching, restarting, pausing and detaching a module\<close>

definition FilterPause ::
  "ndis_world \<Rightarrow> addr \<Rightarrow> ndis_state \<Rightarrow> fault + NDIS_STATUS \<times> ndis_state" where
  "FilterPause w p s =
     (case filters s p of
        None \<Rightarrow> Inl (BadPointer p)
      | Some f \<Rightarrow> Inr (
          let s = FILTER_ASSERT w ''pFilter->State == FilterRunning'' (State f = FilterRunning) s;
              s = FILTER_ACQUIRE_LOCK w (ModuleLock p) False s;
              s = update_filter p (\<lambda>f. f\<lparr>State := FilterPausing\<rparr>) s;
              s = FILTER_RELEASE_LOCK w (ModuleLock p) False s;
              s = update_filter p (\<lambda>f. f\<lparr>State := FilterPaused\<rparr>) s
          in (NDIS_STATUS_SUCCESS, s)))"

definition NdisZeroMemory_filter :: "addr \<Rightarrow> ndis_state \<Rightarrow> ndis_state" where
  "NdisZeroMemory_filter p s =
     s\<lparr>filters := (filters s)(p \<mapsto> zero_MS_FILTER),
       links := (links s)(p := \<lparr>Flink = NULL, Blink = NULL\<rparr>)\<rparr>"

text \<open>The three names are copied one behind the other into the tail of the allocation.\<close>

definition attach_size :: "platform \<Rightarrow> ATTACH_PARAMETERS \<Rightarrow> nat" where
  "attach_size P A = sizeof_MS_FILTER P + unat (Length (FilterModuleGuidName A)) +
     unat (Length (BaseMiniportInstanceName A)) + unat (Length (BaseMiniportName A))"

definition fill_filter :: "platform \<Rightarrow> handle \<Rightarrow> ATTACH_PARAMETERS \<Rightarrow> addr \<Rightarrow> ndis_state \<Rightarrow> ndis_state" where
  "fill_filter P NdisFilterHandle A p s =
     (let s = NdisZeroMemory_filter p s;
          guid = FilterModuleGuidName A; inst = BaseMiniportInstanceName A; name = BaseMiniportName A;
          b1 = p + sizeof_MS_FILTER P;
          s = update_filter p (\<lambda>f. f\<lparr>FilterModuleName :=
                \<lparr>Length = Length guid, MaximumLength = Length guid, Buffer = b1\<rparr>\<rparr>) s;
          s = NdisMoveMemory b1 (Buffer guid) (unat (Length guid)) s;
          b2 = b1 + unat (Length guid);
          s = update_filter p (\<lambda>f. f\<lparr>MiniportFriendlyName :=
                \<lparr>Length = Length inst, MaximumLength = Length inst, Buffer = b2\<rparr>\<rparr>) s;
          s = NdisMoveMemory b2 (Buffer inst) (unat (Length inst)) s;
          b3 = b2 + unat (Length inst);
          s = update_filter p (\<lambda>f. f\<lparr>MiniportName :=
                \<lparr>Length = Length name, MaximumLength = Length name, Buffer = b3\<rparr>\<rparr>) s;
          s = NdisMoveMemory b3 (Buffer name) (unat (Length name)) s
      in update_filter p (\<lambda>f. f\<lparr>MiniportIfIndex := BaseMiniportIfIndex A, TrackReceives := True,
            TrackSends := True, FilterHandle := NdisFilterHandle\<rparr>) s)"

text \<open>
  The body of the \<^verbatim>\<open>do\<close> block: the status it ends with, the context allocated by then (NULL for
  none) and the state.
\<close>

definition attach_body ::
  "platform \<Rightarrow> ndis_world \<Rightarrow> handle \<Rightarrow> handle \<Rightarrow> ATTACH_PARAMETERS \<Rightarrow> ndis_state \<Rightarrow>
   NDIS_STATUS \<times> addr \<times> ndis_state" where
  "attach_body P w NdisFilterHandle FilterDriverContext A s =
     (let s = ASSERT P w ''FilterDriverContext == (NDIS_HANDLE)FilterDriverObject''
                (FilterDriverContext = FilterDriverObject s) s in
      if FilterDriverContext \<noteq> FilterDriverObject s then (NDIS_STATUS_INVALID_PARAMETER, NULL, s)
      else if MiniportMediaType A \<noteq> NdisMedium802_3 P \<and> MiniportMediaType A \<noteq> NdisMediumWan P \<and>
              MiniportMediaType A \<noteq> NdisMediumWirelessWan P
        then (NDIS_STATUS_INVALID_PARAMETER, NULL, s)
      else
        let (pFilter, s) = FILTER_ALLOC_MEM w NdisFilterHandle (of_nat (attach_size P A)) s in
        if pFilter = NULL then (NDIS_STATUS_RESOURCES, NULL, s)
        else
          let s = fill_filter P NdisFilterHandle A pFilter s;
              (r, s) = ndis_ask w (NdisFSetAttributes NdisFilterHandle pFilter
                          (object_header P FILTER_ATTRIBUTES_object) 0) s
          in if ret_status r \<noteq> NDIS_STATUS_SUCCESS then (ret_status r, pFilter, s)
             else
               let s = update_filter pFilter (\<lambda>f. f\<lparr>State := FilterPaused\<rparr>) s;
                   s = FILTER_ACQUIRE_LOCK w FilterListLock False s;
                   s = s\<lparr>links := InsertHeadList (kernel_list P) (FilterModuleList P) pFilter (links s)\<rparr>;
                   s = FILTER_RELEASE_LOCK w FilterListLock False s
               in (ret_status r, pFilter, s))"

definition FilterAttach ::
  "platform \<Rightarrow> ndis_world \<Rightarrow> handle \<Rightarrow> handle \<Rightarrow> ATTACH_PARAMETERS \<Rightarrow> ndis_state \<Rightarrow>
   NDIS_STATUS \<times> ndis_state" where
  "FilterAttach P w NdisFilterHandle FilterDriverContext A s =
     (let (st, pFilter, s) = attach_body P w NdisFilterHandle FilterDriverContext A s in
      if st \<noteq> NDIS_STATUS_SUCCESS
      then (st, if pFilter \<noteq> NULL then FILTER_FREE_MEM w pFilter s else s)
      else (st, s))"

definition FilterDetach ::
  "platform \<Rightarrow> ndis_world \<Rightarrow> addr \<Rightarrow> ndis_state \<Rightarrow> fault + ndis_state" where
  "FilterDetach P w p s =
     (case filters s p of
        None \<Rightarrow> Inl (BadPointer p)
      | Some f \<Rightarrow> Inr (
          let s = FILTER_ASSERT w ''pFilter->State == FilterPaused'' (State f = FilterPaused) s;
              s = (if Buffer (FilterName f) \<noteq> NULL then FILTER_FREE_MEM w (Buffer (FilterName f)) s else s);
              s = FILTER_ACQUIRE_LOCK w FilterListLock False s;
              s = s\<lparr>links := snd (RemoveEntryList (kernel_list P) p (links s))\<rparr>;
              s = FILTER_RELEASE_LOCK w FilterListLock False s
          in FILTER_FREE_MEM w p s))"

text \<open>
  \<^verbatim>\<open>FilterRestart\<close> also writes into the restart attributes it is given (a list, empty for NULL) and
  so returns them. Its walk over the remaining attributes changes nothing.
\<close>

definition FilterRestart ::
  "platform \<Rightarrow> ndis_world \<Rightarrow> addr \<Rightarrow> RESTART_ATTRIBUTE list \<Rightarrow> ndis_state \<Rightarrow>
   fault + NDIS_STATUS \<times> RESTART_ATTRIBUTE list \<times> ndis_state" where
  "FilterRestart P w p attrs s =
     (case filters s p of
        None \<Rightarrow> Inl (BadPointer p)
      | Some f \<Rightarrow> Inr (
          let s = FILTER_ASSERT w ''pFilter->State == FilterPaused'' (State f = FilterPaused) s;
              (r, s) = ndis_ask w (NdisOpenConfigurationEx (object_header P CONFIGURATION_object)
                              (FilterDriverHandle s) 0) s;
              s = (if ret_status r = NDIS_STATUS_SUCCESS
                   then ndis_do w (NdisCloseConfiguration (ret_out r)) s else s);
              (attrs, s) =
                (case attrs of
                   [] \<Rightarrow> ([], s)
                 | a # as \<Rightarrow>
                     (a\<lparr>LookaheadSize := 128\<rparr> # as,
                      ASSERT P w ''NdisRestartAttributes->Oid == OID_GEN_MINIPORT_RESTART_ATTRIBUTES''
                        (Oid a = OID_GEN_MINIPORT_RESTART_ATTRIBUTES P) s));
              s = update_filter p (\<lambda>f. f\<lparr>State := FilterRunning\<rparr>) s
          in (NDIS_STATUS_SUCCESS, attrs, s)))"

section \<open>The data path\<close>

fun count_nbls :: "nbl_chain \<Rightarrow> ULONG \<Rightarrow> ULONG" where
  "count_nbls [] n = n"
| "count_nbls (CurrNbl # rest) n = count_nbls rest (n + 1)"

definition FilterSendNetBufferListsComplete ::
  "platform \<Rightarrow> ndis_world \<Rightarrow> addr \<Rightarrow> nbl_chain \<Rightarrow> ULONG \<Rightarrow> ndis_state \<Rightarrow> fault + ndis_state" where
  "FilterSendNetBufferListsComplete P w p NetBufferLists SendCompleteFlags s =
     (case filters s p of
        None \<Rightarrow> Inl (BadPointer p)
      | Some f \<Rightarrow> Inr (
          let s = (if TrackSends f then
                     let n = count_nbls NetBufferLists 0;
                         DispatchLevel = NDIS_TEST_SEND_AT_DISPATCH_LEVEL P SendCompleteFlags;
                         s = FILTER_ACQUIRE_LOCK w (ModuleLock p) DispatchLevel s;
                         s = update_filter p (\<lambda>f. f\<lparr>OutstandingSends := OutstandingSends f - n\<rparr>) s
                     in FILTER_RELEASE_LOCK w (ModuleLock p) DispatchLevel s
                   else s)
          in ndis_do w (NdisFSendNetBufferListsComplete (FilterHandle f) NetBufferLists SendCompleteFlags) s))"

fun count_sends :: "addr \<Rightarrow> nbl_chain \<Rightarrow> ndis_state \<Rightarrow> ndis_state" where
  "count_sends p [] s = s"
| "count_sends p (CurrNbl # rest) s =
     count_sends p rest (update_filter p (\<lambda>f. f\<lparr>OutstandingSends := OutstandingSends f + 1\<rparr>) s)"

fun mark_paused :: "nbl_chain \<Rightarrow> nbl_chain" where
  "mark_paused [] = []"
| "mark_paused (CurrNbl # rest) = CurrNbl\<lparr>nbl_status := NDIS_STATUS_PAUSED\<rparr> # mark_paused rest"

definition FilterSendNetBufferLists ::
  "platform \<Rightarrow> ndis_world \<Rightarrow> addr \<Rightarrow> nbl_chain \<Rightarrow> ULONG \<Rightarrow> ULONG \<Rightarrow> ndis_state \<Rightarrow> fault + ndis_state" where
  "FilterSendNetBufferLists P w p NetBufferLists PortNumber SendFlags s =
     (case filters s p of
        None \<Rightarrow> Inl (BadPointer p)
      | Some f \<Rightarrow> Inr (
          let DispatchLevel = NDIS_TEST_SEND_AT_DISPATCH_LEVEL P SendFlags;
              s = (if DBG P then FILTER_ACQUIRE_LOCK w (ModuleLock p) DispatchLevel s else s);
              s' = (if DBG P then FILTER_RELEASE_LOCK w (ModuleLock p) DispatchLevel s else s)
          in if DBG P \<and> State f \<noteq> FilterRunning
             then ndis_do w (NdisFSendNetBufferListsComplete (FilterHandle f) (mark_paused NetBufferLists)
                    (if DispatchLevel then NDIS_SEND_COMPLETE_FLAGS_DISPATCH_LEVEL P else 0)) s'
             else
               let s = (if TrackSends f then
                          let s = FILTER_ACQUIRE_LOCK w (ModuleLock p) DispatchLevel s';
                              s = count_sends p NetBufferLists s
                          in FILTER_RELEASE_LOCK w (ModuleLock p) DispatchLevel s
                        else s')
               in ndis_do w (NdisFSendNetBufferLists (FilterHandle f) NetBufferLists PortNumber SendFlags) s))"

text \<open>
  Receiving up to and including the indication; the flag says whether the handler goes on to its
  second half.
\<close>

definition receive_indicate ::
  "platform \<Rightarrow> ndis_world \<Rightarrow> addr \<Rightarrow> nbl_chain \<Rightarrow> ULONG \<Rightarrow> ULONG \<Rightarrow> ULONG \<Rightarrow> ndis_state \<Rightarrow>
   fault + bool \<times> ndis_state" where
  "receive_indicate P w p NetBufferLists PortNumber NumberOfNetBufferLists ReceiveFlags s =
     (case filters s p of
        None \<Rightarrow> Inl (BadPointer p)
      | Some f \<Rightarrow> Inr (
          let DispatchLevel = NDIS_TEST_RECEIVE_AT_DISPATCH_LEVEL P ReceiveFlags;
              s = (if DBG P then FILTER_ACQUIRE_LOCK w (ModuleLock p) DispatchLevel s else s);
              s = (if DBG P then FILTER_RELEASE_LOCK w (ModuleLock p) DispatchLevel s else s)
          in if DBG P \<and> State f \<noteq> FilterRunning
             then
               (False,
                if NDIS_TEST_RECEIVE_CAN_PEND P ReceiveFlags then
                  let ReturnFlags =
                        (if NDIS_TEST_RECEIVE_AT_DISPATCH_LEVEL P ReceiveFlags
                         then NDIS_SET_RETURN_FLAG P 0 (NDIS_RETURN_FLAGS_DISPATCH_LEVEL P) else 0)
                  in ndis_do w (NdisFReturnNetBufferLists (FilterHandle f) NetBufferLists ReturnFlags) s
                else s)
             else
               let s = ASSERT P w ''NumberOfNetBufferLists >= 1'' (NumberOfNetBufferLists \<ge> 1) s;
                   s = (if TrackReceives f then
                          let s = FILTER_ACQUIRE_LOCK w (ModuleLock p) DispatchLevel s;
                              s = update_filter p
                                    (\<lambda>f. f\<lparr>OutstandingRcvs := OutstandingRcvs f + NumberOfNetBufferLists\<rparr>) s
                          in FILTER_RELEASE_LOCK w (ModuleLock p) DispatchLevel s
                        else s)
               in (True, ndis_do w (NdisFIndicateReceiveNetBufferLists (FilterHandle f) NetBufferLists
                           PortNumber NumberOfNetBufferLists ReceiveFlags) s)))"

text \<open>What receiving does after the indication has come back.\<close>

definition receive_settle ::
  "platform \<Rightarrow> ndis_world \<Rightarrow> addr \<Rightarrow> ULONG \<Rightarrow> ULONG \<Rightarrow> ndis_state \<Rightarrow> fault + ndis_state" where
  "receive_settle P w p NumberOfNetBufferLists ReceiveFlags s =
     (if NDIS_TEST_RECEIVE_CANNOT_PEND P ReceiveFlags then
        (case filters s p of
           None \<Rightarrow> Inl (BadPointer p)
         | Some f \<Rightarrow> Inr (
             if TrackReceives f then
               let DispatchLevel = NDIS_TEST_RECEIVE_AT_DISPATCH_LEVEL P ReceiveFlags;
                   s = FILTER_ACQUIRE_LOCK w (ModuleLock p) DispatchLevel s;
                   s = update_filter p
                         (\<lambda>f. f\<lparr>OutstandingRcvs := OutstandingRcvs f - NumberOfNetBufferLists\<rparr>) s
               in FILTER_RELEASE_LOCK w (ModuleLock p) DispatchLevel s
             else s))
      else Inr s)"

definition FilterReceiveNetBufferLists ::
  "platform \<Rightarrow> ndis_world \<Rightarrow> addr \<Rightarrow> nbl_chain \<Rightarrow> ULONG \<Rightarrow> ULONG \<Rightarrow> ULONG \<Rightarrow> ndis_state \<Rightarrow>
   fault + ndis_state" where
  "FilterReceiveNetBufferLists P w p NetBufferLists PortNumber NumberOfNetBufferLists ReceiveFlags s =
     (case receive_indicate P w p NetBufferLists PortNumber NumberOfNetBufferLists ReceiveFlags s of
        Inl e \<Rightarrow> Inl e
      | Inr (False, s) \<Rightarrow> Inr s
      | Inr (True, s) \<Rightarrow> receive_settle P w p NumberOfNetBufferLists ReceiveFlags s)"

text \<open>Returning counts the chain and passes it down, and only then lowers the counter.\<close>

definition return_down ::
  "ndis_world \<Rightarrow> addr \<Rightarrow> nbl_chain \<Rightarrow> ULONG \<Rightarrow> ndis_state \<Rightarrow> fault + ULONG \<times> ndis_state" where
  "return_down w p NetBufferLists ReturnFlags s =
     (case filters s p of
        None \<Rightarrow> Inl (BadPointer p)
      | Some f \<Rightarrow> Inr (
          let n = (if TrackReceives f then count_nbls NetBufferLists 0 else 0)
          in (n, ndis_do w (NdisFReturnNetBufferLists (FilterHandle f) NetBufferLists ReturnFlags) s)))"

definition return_settle ::
  "platform \<Rightarrow> ndis_world \<Rightarrow> addr \<Rightarrow> ULONG \<Rightarrow> ULONG \<Rightarrow> ndis_state \<Rightarrow> fault + ndis_state" where
  "return_settle P w p NumOfNetBufferLists ReturnFlags s =
     (case filters s p of
        None \<Rightarrow> Inl (BadPointer p)
      | Some f \<Rightarrow> Inr (
          if TrackReceives f then
            let DispatchLevel = NDIS_TEST_RETURN_AT_DISPATCH_LEVEL P ReturnFlags;
                s = FILTER_ACQUIRE_LOCK w (ModuleLock p) DispatchLevel s;
                s = update_filter p (\<lambda>f. f\<lparr>OutstandingRcvs := OutstandingRcvs f - NumOfNetBufferLists\<rparr>) s
            in FILTER_RELEASE_LOCK w (ModuleLock p) DispatchLevel s
          else s))"

definition FilterReturnNetBufferLists ::
  "platform \<Rightarrow> ndis_world \<Rightarrow> addr \<Rightarrow> nbl_chain \<Rightarrow> ULONG \<Rightarrow> ndis_state \<Rightarrow> fault + ndis_state" where
  "FilterReturnNetBufferLists P w p NetBufferLists ReturnFlags s =
     (case return_down w p NetBufferLists ReturnFlags s of
        Inl e \<Rightarrow> Inl e
      | Inr (n, s) \<Rightarrow> return_settle P w p n ReturnFlags s)"

section \<open>The control device\<close>

definition FilterDeregisterDevice :: "ndis_world \<Rightarrow> ndis_state \<Rightarrow> ndis_state" where
  "FilterDeregisterDevice w s =
     (let s = (if NdisFilterDeviceHandle s \<noteq> NULL
               then ndis_do w (NdisDeregisterDeviceEx (NdisFilterDeviceHandle s)) s else s)
      in s\<lparr>NdisFilterDeviceHandle := NULL\<rparr>)"

text \<open>
  Unloading up to and including the deregistration, in which NDIS pauses and detaches the modules
  that are still there, and what follows it.
\<close>

definition unload_deregister :: "ndis_world \<Rightarrow> ndis_state \<Rightarrow> ndis_state" where
  "unload_deregister w s =
     (let s = FilterDeregisterDevice w s
      in ndis_do w (NdisFDeregisterFilterDriver (FilterDriverHandle s)) s)"

definition unload_finish :: "platform \<Rightarrow> ndis_world \<Rightarrow> ndis_state \<Rightarrow> ndis_state" where
  "unload_finish P w s =
     (let s = (if DBG P then
                 let s = FILTER_ACQUIRE_LOCK w FilterListLock False s;
                     s = ASSERT P w ''IsListEmpty(&FilterModuleList)''
                           (IsListEmpty (kernel_list P) (FilterModuleList P) (links s)) s
                 in FILTER_RELEASE_LOCK w FilterListLock False s
               else s)
      in FILTER_FREE_LOCK w FilterListLock s)"

definition DriverUnload :: "platform \<Rightarrow> ndis_world \<Rightarrow> ndis_state \<Rightarrow> ndis_state" where
  "DriverUnload P w s = unload_finish P w (unload_deregister w s)"

text \<open>Every branch of the switch over the major function does nothing, so it is not written.\<close>

definition FilterDispatch :: "ndis_world \<Rightarrow> addr \<Rightarrow> ndis_state \<Rightarrow> NTSTATUS \<times> ndis_state" where
  "FilterDispatch w Irp s = (STATUS_SUCCESS, ndis_do w (IoCompleteRequest Irp STATUS_SUCCESS) s)"

definition FilterRegisterOptions ::
  "platform \<Rightarrow> ndis_world \<Rightarrow> handle \<Rightarrow> handle \<Rightarrow> ndis_state \<Rightarrow> NDIS_STATUS \<times> ndis_state" where
  "FilterRegisterOptions P w NdisFilterDriverHandle FilterDriverContext s =
     (let s = ASSERT P w ''NdisFilterDriverHandle == FilterDriverHandle''
                (NdisFilterDriverHandle = FilterDriverHandle s) s;
          s = ASSERT P w ''FilterDriverContext == (NDIS_HANDLE)FilterDriverObject''
                (FilterDriverContext = FilterDriverObject s) s
      in if NdisFilterDriverHandle \<noteq> FilterDriverHandle s \<or> FilterDriverContext \<noteq> FilterDriverObject s
         then (NDIS_STATUS_INVALID_PARAMETER, s)
         else (NDIS_STATUS_SUCCESS, s))"

definition FilterDeviceIoControl :: "addr \<Rightarrow> ndis_state \<Rightarrow> NTSTATUS \<times> ndis_state" where
  "FilterDeviceIoControl Irp s = (STATUS_SUCCESS, s)"

definition dispatch_table :: "platform \<Rightarrow> nat \<Rightarrow> routine option" where
  "dispatch_table P =
     (\<lambda>_. None)(IRP_MJ_CREATE P \<mapsto> FilterDispatch_routine,
              IRP_MJ_CLEANUP P \<mapsto> FilterDispatch_routine,
              IRP_MJ_CLOSE P \<mapsto> FilterDispatch_routine,
              IRP_MJ_DEVICE_CONTROL P \<mapsto> FilterDeviceIoControl_routine)"

definition FilterRegisterDevice ::
  "platform \<Rightarrow> ndis_world \<Rightarrow> ndis_state \<Rightarrow> NDIS_STATUS \<times> ndis_state" where
  "FilterRegisterDevice P w s =
     (let (r, s) = ndis_ask w (NdisRegisterDeviceEx (FilterDriverHandle s)
                     (object_header P DEVICE_OBJECT_ATTRIBUTES_object) NTDEVICE_STRING LINKNAME_STRING
                     (dispatch_table P) (sizeof_FILTER_DEVICE_EXTENSION P)) s;
          s = s\<lparr>NdisDeviceObject := ret_device r, NdisFilterDeviceHandle := ret_out r\<rparr>
      in if ret_status r = NDIS_STATUS_SUCCESS
         then
           let (e, s) = ndis_ask w (NdisGetDeviceReservedExtension (NdisDeviceObject s)) s
           in (ret_status r,
               s\<lparr>extensions := (extensions s)(ret_out e \<mapsto>
                   \<lparr>Signature = 0x46544452, Handle = FilterDriverHandle s\<rparr>)\<rparr>)
         else (ret_status r, s))"

section \<open>Module options and device events\<close>

definition DefaultChars :: PARTIAL_CHARACTERISTICS where
  "DefaultChars =
     \<lparr>partial_Header = \<lparr>header_Type = 0, header_Revision = 0, header_Size = 0\<rparr>,
      partial_Send = Some FilterSendNetBufferLists_routine,
      partial_SendComplete = Some FilterSendNetBufferListsComplete_routine,
      partial_CancelSend = None,
      partial_Receive = Some FilterReceiveNetBufferLists_routine,
      partial_Return = Some FilterReturnNetBufferLists_routine\<rparr>"

text \<open>
  The eight choices of the demonstration: what is taken out of the optional handlers, and whether
  receives and sends are still tracked.
\<close>

definition optional_handlers ::
  "nat \<Rightarrow> PARTIAL_CHARACTERISTICS \<Rightarrow> PARTIAL_CHARACTERISTICS \<times> bool \<times> bool" where
  "optional_handlers i c =
     (if i = 0 then (c\<lparr>partial_Receive := None\<rparr>, False, True)
      else if i = 1 then (c\<lparr>partial_Return := None\<rparr>, False, True)
      else if i = 2 then (c\<lparr>partial_Send := None\<rparr>, True, False)
      else if i = 3 then (c\<lparr>partial_SendComplete := None\<rparr>, True, False)
      else if i = 4 then (c\<lparr>partial_Receive := None, partial_Return := None\<rparr>, True, True)
      else if i = 5 then (c\<lparr>partial_Send := None, partial_SendComplete := None\<rparr>, True, True)
      else if i = 6 then (c\<lparr>partial_Receive := None, partial_Return := None, partial_Send := None,
                            partial_SendComplete := None\<rparr>, True, True)
      else (c, True, True))"

text \<open>The source guards the demonstration with a local that is false.\<close>

definition FilterSetModuleOptions ::
  "platform \<Rightarrow> ndis_world \<Rightarrow> addr \<Rightarrow> ndis_state \<Rightarrow> fault + NDIS_STATUS \<times> ndis_state" where
  "FilterSetModuleOptions P w p s =
     (let bFalse = False in
      if bFalse then
        (case filters s p of
           None \<Rightarrow> Inl (BadPointer p)
         | Some f \<Rightarrow> Inr (
             let i = unat ((CallsRestart f + 1) mod 8);
                 (c, receives, sends) = optional_handlers i (DefaultChars\<lparr>partial_Header :=
                   (partial_Header DefaultChars)
                     \<lparr>header_Type := NDIS_OBJECT_TYPE P FILTER_PARTIAL_CHARACTERISTICS_object,
                      header_Size := NDIS_SIZEOF P FILTER_PARTIAL_CHARACTERISTICS_object\<rparr>\<rparr>);
                 s = update_filter p (\<lambda>f. f\<lparr>CallsRestart := CallsRestart f + 1,
                       TrackReceives := receives, TrackSends := sends\<rparr>) s;
                 (r, s) = ndis_ask w (NdisSetOptionalHandlers (FilterHandle f) c) s
             in (ret_status r, s)))
      else Inr (NDIS_STATUS_SUCCESS, s))"

definition FilterDevicePnPEventNotify ::
  "ndis_world \<Rightarrow> addr \<Rightarrow> NDIS_DEVICE_PNP_EVENT \<Rightarrow> ndis_state \<Rightarrow> fault + ndis_state" where
  "FilterDevicePnPEventNotify w p DevicePnPEvent s =
     (let s = (case DevicePnPEvent of
                 NdisDevicePnPEventQueryRemoved \<Rightarrow> s
               | NdisDevicePnPEventRemoved \<Rightarrow> s
               | NdisDevicePnPEventSurpriseRemoved \<Rightarrow> s
               | NdisDevicePnPEventQueryStopped \<Rightarrow> s
               | NdisDevicePnPEventStopped \<Rightarrow> s
               | NdisDevicePnPEventPowerProfileChanged \<Rightarrow> s
               | NdisDevicePnPEventFilterListChanged \<Rightarrow> s
               | _ \<Rightarrow> FILTER_ASSERT w ''bFalse'' False s)
      in case filters s p of
           None \<Rightarrow> Inl (BadPointer p)
         | Some f \<Rightarrow> Inr (ndis_do w (NdisFDevicePnPEventNotify (FilterHandle f) DevicePnPEvent) s))"

section \<open>Loading\<close>

definition filter_characteristics :: "platform \<Rightarrow> FILTER_DRIVER_CHARACTERISTICS" where
  "filter_characteristics P =
     \<lparr>Header = (object_header P FILTER_DRIVER_CHARACTERISTICS_object)
        \<lparr>header_Revision :=
           (if NDIS_SUPPORT_NDIS61 P then NDIS_FILTER_CHARACTERISTICS_REVISION_2 P
            else NDIS_REVISION_1 P FILTER_DRIVER_CHARACTERISTICS_object)\<rparr>,
      MajorNdisVersion = NDIS_FILTER_MAJOR_VERSION P, MinorNdisVersion = NDIS_FILTER_MINOR_VERSION P,
      MajorDriverVersion = 1, MinorDriverVersion = 0, Flags = 0,
      FriendlyName = FILTER_FRIENDLY_NAME, UniqueName = FILTER_UNIQUE_NAME,
      ServiceName = FILTER_SERVICE_NAME,
      SetOptionsHandler = Some FilterRegisterOptions_routine,
      AttachHandler = Some FilterAttach_routine, DetachHandler = Some FilterDetach_routine,
      RestartHandler = Some FilterRestart_routine, PauseHandler = Some FilterPause_routine,
      SetFilterModuleOptionsHandler = Some FilterSetModuleOptions_routine,
      SendNetBufferListsHandler = Some FilterSendNetBufferLists_routine,
      ReturnNetBufferListsHandler = Some FilterReturnNetBufferLists_routine,
      SendNetBufferListsCompleteHandler = Some FilterSendNetBufferListsComplete_routine,
      ReceiveNetBufferListsHandler = Some FilterReceiveNetBufferLists_routine,
      DevicePnPEventNotifyHandler = Some FilterDevicePnPEventNotify_routine\<rparr>"

text \<open>
  The entry routine up to the answer of \<^verbatim>\<open>NdisFRegisterFilterDriver\<close>, which writes the handle into
  the global, and what follows it. NDIS calls \<^verbatim>\<open>FilterRegisterOptions\<close> from inside that call.
\<close>

definition entry_register ::
  "platform \<Rightarrow> ndis_world \<Rightarrow> addr \<Rightarrow> ndis_state \<Rightarrow> NDIS_STATUS \<times> ndis_state" where
  "entry_register P w driverObject s =
     (let s = s\<lparr>FilterDriverObject := driverObject\<rparr>;
          s = s\<lparr>unload_routine := Some DriverUnload_routine, FilterDriverHandle := NULL\<rparr>;
          s = FILTER_INIT_LOCK w FilterListLock s;
          s = s\<lparr>links := InitializeListHead (kernel_list P) (FilterModuleList P) (links s)\<rparr>;
          (r, s) = ndis_ask w (NdisFRegisterFilterDriver driverObject (FilterDriverObject s)
                     (filter_characteristics P)) s
      in (ret_status r, s\<lparr>FilterDriverHandle := ret_out r\<rparr>))"

definition entry_settle ::
  "platform \<Rightarrow> ndis_world \<Rightarrow> NDIS_STATUS \<Rightarrow> ndis_state \<Rightarrow> NDIS_STATUS \<times> ndis_state" where
  "entry_settle P w st s =
     (if st \<noteq> NDIS_STATUS_SUCCESS then (st, FILTER_FREE_LOCK w FilterListLock s)
      else
        let (st, s) = FilterRegisterDevice P w s in
        if st \<noteq> NDIS_STATUS_SUCCESS
        then
          let s = ndis_do w (NdisFDeregisterFilterDriver (FilterDriverHandle s)) s
          in (st, FILTER_FREE_LOCK w FilterListLock s)
        else (st, s))"

definition DriverEntry ::
  "platform \<Rightarrow> ndis_world \<Rightarrow> addr \<Rightarrow> ndis_state \<Rightarrow> NDIS_STATUS \<times> ndis_state" where
  "DriverEntry P w driverObject s =
     (let (st, s) = entry_register P w driverObject s in entry_settle P w st s)"

end
