(* ===== verification/Filter_Contract.thy ===== *)
theory Filter_Contract imports Filter_Driver begin

text \<open>
  What NDIS and the filter driver promise each other. Monitors read off the trace of calls which
  resources the driver holds, whether it uses its locks properly and whether an assertion has
  fired. The step relation \<open>ndis_step\<close> says when NDIS calls which handler: the options handler from inside the
  registration, with the handle and the context of that call; only a running module is
  asked to send or receive, only a paused one is restarted or detached, completions and returns
  are for net buffer lists that are out, and other handlers may run while a handler is inside a
  call to NDIS.
\<close>

section \<open>Resources\<close>

datatype resource = Block addr | FilterDriver handle | Device handle | Configuration handle

fun resource_step :: "resource set \<Rightarrow> ndis_call \<times> ndis_ret \<Rightarrow> resource set" where
  "resource_step R (NdisAllocateMemoryWithTagPriority h n, r) =
     (if ret_out r = NULL then R else insert (Block (ret_out r)) R)"
| "resource_step R (NdisFreeMemory p, r) = R - {Block p}"
| "resource_step R (NdisFRegisterFilterDriver d c ch, r) =
     (if ret_status r = NDIS_STATUS_SUCCESS then insert (FilterDriver (ret_out r)) R else R)"
| "resource_step R (NdisFDeregisterFilterDriver h, r) = R - {FilterDriver h}"
| "resource_step R (NdisRegisterDeviceEx h hdr n l t x, r) =
     (if ret_status r = NDIS_STATUS_SUCCESS then insert (Device (ret_out r)) R else R)"
| "resource_step R (NdisDeregisterDeviceEx h, r) = R - {Device h}"
| "resource_step R (NdisOpenConfigurationEx hdr h fl, r) =
     (if ret_status r = NDIS_STATUS_SUCCESS then insert (Configuration (ret_out r)) R else R)"
| "resource_step R (NdisCloseConfiguration h, r) = R - {Configuration h}"
| "resource_step R (_, r) = R"

definition resources :: "ndis_trace \<Rightarrow> resource set" where
  "resources tr = foldl resource_step {} tr"

interpretation resources: trace_monitor resources resource_step "{}"
  by unfold_locales (simp_all add: resources_def)

section \<open>Locks\<close>

text \<open>
  The monitor holds the locks that are initialised and the locks that are held, each with the
  variant (at dispatch level or not) that took it; \<open>None\<close> is a breach: taking a held lock, using
  the list lock before its initialisation or after its release, releasing a lock that is not held
  or with the other variant, or calling anything else while a lock is held.
\<close>

type_synonym lock_state = "(lock set \<times> (lock \<times> bool) set) option"

definition acquire_step :: "lock \<Rightarrow> bool \<Rightarrow> lock_state \<Rightarrow> lock_state" where
  "acquire_step l d L =
     (case L of None \<Rightarrow> None
      | Some (ready, held) \<Rightarrow>
          if (l, True) \<in> held \<or> (l, False) \<in> held \<or> (l = FilterListLock \<and> l \<notin> ready) then None
          else Some (ready, insert (l, d) held))"

definition release_step :: "lock \<Rightarrow> bool \<Rightarrow> lock_state \<Rightarrow> lock_state" where
  "release_step l d L =
     (case L of None \<Rightarrow> None
      | Some (ready, held) \<Rightarrow> if (l, d) \<in> held then Some (ready, held - {(l, d)}) else None)"

definition other_step :: "lock_state \<Rightarrow> lock_state" where
  "other_step L =
     (case L of None \<Rightarrow> None | Some (ready, held) \<Rightarrow> if held = {} then Some (ready, held) else None)"

fun lock_step :: "lock_state \<Rightarrow> ndis_call \<times> ndis_ret \<Rightarrow> lock_state" where
  "lock_step L (NdisAllocateSpinLock l, r) =
     (case L of None \<Rightarrow> None
      | Some (ready, held) \<Rightarrow> if l \<in> ready then None else Some (insert l ready, held))"
| "lock_step L (NdisFreeSpinLock l, r) =
     (case L of None \<Rightarrow> None
      | Some (ready, held) \<Rightarrow>
          if l \<in> ready \<and> (l, True) \<notin> held \<and> (l, False) \<notin> held then Some (ready - {l}, held) else None)"
| "lock_step L (NdisAcquireSpinLock l, r) = acquire_step l False L"
| "lock_step L (NdisDprAcquireSpinLock l, r) = acquire_step l True L"
| "lock_step L (NdisReleaseSpinLock l, r) = release_step l False L"
| "lock_step L (NdisDprReleaseSpinLock l, r) = release_step l True L"
| "lock_step L (_, r) = other_step L"

definition lock_use :: "ndis_trace \<Rightarrow> lock_state" where
  "lock_use tr = foldl lock_step (Some ({}, {})) tr"

interpretation lock_use: trace_monitor lock_use lock_step "Some ({}, {})"
  by unfold_locales (simp_all add: lock_use_def)

section \<open>Assertions, registrations and hand-overs\<close>

fun breaks_step :: "nat \<Rightarrow> ndis_call \<times> ndis_ret \<Rightarrow> nat" where
  "breaks_step n (DbgBreakPoint t, r) = Suc n"
| "breaks_step n (RtlAssert t, r) = Suc n"
| "breaks_step n (_, r) = n"

definition breaks :: "ndis_trace \<Rightarrow> nat" where
  "breaks tr = foldl breaks_step 0 tr"

interpretation breaks: trace_monitor breaks breaks_step 0
  by unfold_locales (simp_all add: breaks_def)

text \<open>The contexts the driver has registered itself with.\<close>

fun registration_step :: "handle set \<Rightarrow> ndis_call \<times> ndis_ret \<Rightarrow> handle set" where
  "registration_step C (NdisFRegisterFilterDriver d c ch, r) = insert c C"
| "registration_step C (_, r) = C"

definition registration_contexts :: "ndis_trace \<Rightarrow> handle set" where
  "registration_contexts tr = foldl registration_step {} tr"

interpretation registration_contexts: trace_monitor registration_contexts registration_step "{}"
  by unfold_locales (simp_all add: registration_contexts_def)

text \<open>The addresses of the net buffer lists that a call hands over to NDIS.\<close>

fun handed_over :: "ndis_call \<Rightarrow> addr list" where
  "handed_over (NdisFSendNetBufferLists h c port fl) = map nbl_addr c"
| "handed_over (NdisFSendNetBufferListsComplete h c fl) = map nbl_addr c"
| "handed_over (NdisFIndicateReceiveNetBufferLists h c port n fl) = map nbl_addr c"
| "handed_over (NdisFReturnNetBufferLists h c fl) = map nbl_addr c"
| "handed_over _ = []"

text \<open>The calls a handler has added to the trace.\<close>

definition new_calls :: "ndis_state \<Rightarrow> ndis_state \<Rightarrow> ndis_call list" where
  "new_calls s s' = map fst (drop (length (log s)) (log s'))"

lemmas monitor_append [monitor_simps] =
  resources.run_append lock_use.run_append breaks.run_append registration_contexts.run_append

lemmas monitor_start [monitor_simps] =
  resources.run_Nil lock_use.run_Nil breaks.run_Nil registration_contexts.run_Nil

lemmas lock_moves [monitor_simps] = acquire_step_def release_step_def other_step_def

section \<open>The life of the driver as NDIS sees it\<close>

text \<open>While it is registering, the entry routine is inside the call whose answer will have the status.\<close>

datatype load_state = NotLoaded | Registering NDIS_STATUS | Loaded | Unloading | Unloaded
datatype phase = Paused | Running

text \<open>
  A handler that is inside a call to NDIS: receiving or returning, for which module, with which
  count and flags it will go on.
\<close>

datatype frame = InReceive addr ULONG ULONG | InReturn addr ULONG ULONG

fun frame_module :: "frame \<Rightarrow> addr" where
  "frame_module (InReceive p n fl) = p"
| "frame_module (InReturn p n fl) = p"

record ndis_env =
  drv :: ndis_state
  load :: load_state
  phases :: "addr \<Rightarrow> phase option"
  sends_out :: "addr \<Rightarrow> nat"
  rcvs_out :: "addr \<Rightarrow> nat"
  frames :: "frame list"

text \<open>The image as it is loaded: globals at their initial values, nothing called.\<close>

definition fresh_image :: "ndis_state \<Rightarrow> bool" where
  "fresh_image s \<longleftrightarrow> log s = [] \<and> filters s = (\<lambda>_. None) \<and> NdisFilterDeviceHandle s = NULL"

definition initial_env :: "ndis_env \<Rightarrow> bool" where
  "initial_env e \<longleftrightarrow> fresh_image (drv e) \<and> load e = NotLoaded \<and> phases e = (\<lambda>_. None) \<and>
     sends_out e = (\<lambda>_. 0) \<and> rcvs_out e = (\<lambda>_. 0) \<and> frames e = []"

text \<open>The device events that NDIS documents.\<close>

definition documented_events :: "NDIS_DEVICE_PNP_EVENT set" where
  "documented_events = - range NdisDevicePnPEventOther"

text \<open>The module contexts that a trace declares to NDIS.\<close>

definition declared :: "ndis_call list \<Rightarrow> addr \<Rightarrow> bool" where
  "declared cs p \<longleftrightarrow> (\<exists>h hdr fl. NdisFSetAttributes h p hdr fl \<in> set cs)"

inductive ndis_step :: "platform \<Rightarrow> ndis_world \<Rightarrow> ndis_env \<Rightarrow> ndis_env \<Rightarrow> bool"
  for P :: platform and w :: ndis_world where
  load_driver: "load e = NotLoaded \<Longrightarrow> entry_register P w d (drv e) = (st, s') \<Longrightarrow>
    ndis_step P w e (e\<lparr>drv := s', load := Registering st\<rparr>)"
| register_options: "load e = Registering st \<Longrightarrow>
    (NdisFRegisterFilterDriver d ctx ch, r) \<in> set (log (drv e)) \<Longrightarrow>
    SetOptionsHandler ch = Some FilterRegisterOptions_routine \<Longrightarrow>
    FilterRegisterOptions P w (ret_out r) ctx (drv e) = (st', s') \<Longrightarrow>
    ndis_step P w e (e\<lparr>drv := s'\<rparr>)"
| load_back: "load e = Registering st \<Longrightarrow> entry_settle P w st (drv e) = (st', s') \<Longrightarrow>
    ndis_step P w e (e\<lparr>drv := s', load := (if st' = NDIS_STATUS_SUCCESS then Loaded else Unloaded)\<rparr>)"
| attach: "load e = Loaded \<Longrightarrow> ctx \<in> registration_contexts (log (drv e)) \<Longrightarrow>
    FilterAttach P w h ctx A (drv e) = (NDIS_STATUS_SUCCESS, s') \<Longrightarrow>
    declared (new_calls (drv e) s') p \<Longrightarrow>
    ndis_step P w e (e\<lparr>drv := s', phases := (phases e)(p \<mapsto> Paused),
      sends_out := (sends_out e)(p := 0), rcvs_out := (rcvs_out e)(p := 0)\<rparr>)"
| attach_fails: "load e = Loaded \<Longrightarrow> ctx \<in> registration_contexts (log (drv e)) \<Longrightarrow>
    FilterAttach P w h ctx A (drv e) = (st, s') \<Longrightarrow> st \<noteq> NDIS_STATUS_SUCCESS \<Longrightarrow>
    ndis_step P w e (e\<lparr>drv := s'\<rparr>)"
| restart: "load e \<in> {Loaded, Unloading} \<Longrightarrow> phases e p = Some Paused \<Longrightarrow>
    \<forall>a \<in> set (take 1 attrs). Oid a = OID_GEN_MINIPORT_RESTART_ATTRIBUTES P \<Longrightarrow>
    FilterRestart P w p attrs (drv e) = Inr (NDIS_STATUS_SUCCESS, attrs', s') \<Longrightarrow>
    ndis_step P w e (e\<lparr>drv := s', phases := (phases e)(p \<mapsto> Running)\<rparr>)"
| pause: "load e \<in> {Loaded, Unloading} \<Longrightarrow> phases e p = Some Running \<Longrightarrow>
    FilterPause w p (drv e) = Inr (NDIS_STATUS_SUCCESS, s') \<Longrightarrow>
    ndis_step P w e (e\<lparr>drv := s', phases := (phases e)(p \<mapsto> Paused)\<rparr>)"
| detach: "load e \<in> {Loaded, Unloading} \<Longrightarrow> phases e p = Some Paused \<Longrightarrow>
    p \<notin> frame_module ` set (frames e) \<Longrightarrow> FilterDetach P w p (drv e) = Inr s' \<Longrightarrow>
    ndis_step P w e (e\<lparr>drv := s', phases := (phases e)(p := None)\<rparr>)"
| send: "phases e p = Some Running \<Longrightarrow>
    FilterSendNetBufferLists P w p c port fl (drv e) = Inr s' \<Longrightarrow>
    ndis_step P w e (e\<lparr>drv := s', sends_out := (sends_out e)(p := sends_out e p + length c)\<rparr>)"
| send_complete: "phases e p = Some ph \<Longrightarrow> length c \<le> sends_out e p \<Longrightarrow>
    FilterSendNetBufferListsComplete P w p c fl (drv e) = Inr s' \<Longrightarrow>
    ndis_step P w e (e\<lparr>drv := s', sends_out := (sends_out e)(p := sends_out e p - length c)\<rparr>)"
| receive: "phases e p = Some Running \<Longrightarrow> c \<noteq> [] \<Longrightarrow> length c < 2 ^ 32 \<Longrightarrow> n = of_nat (length c) \<Longrightarrow>
    receive_indicate P w p c port n fl (drv e) = Inr (True, s') \<Longrightarrow>
    ndis_step P w e (e\<lparr>drv := s',
      rcvs_out := (if NDIS_TEST_RECEIVE_CANNOT_PEND P fl then rcvs_out e
                   else (rcvs_out e)(p := rcvs_out e p + length c)),
      frames := InReceive p n fl # frames e\<rparr>)"
| receive_back: "InReceive p n fl \<in> set (frames e) \<Longrightarrow>
    receive_settle P w p n fl (drv e) = Inr s' \<Longrightarrow>
    ndis_step P w e (e\<lparr>drv := s', frames := remove1 (InReceive p n fl) (frames e)\<rparr>)"
| return_nbls: "phases e p = Some ph \<Longrightarrow> length c \<le> rcvs_out e p \<Longrightarrow>
    return_down w p c fl (drv e) = Inr (n, s') \<Longrightarrow>
    ndis_step P w e (e\<lparr>drv := s', rcvs_out := (rcvs_out e)(p := rcvs_out e p - length c),
      frames := InReturn p n fl # frames e\<rparr>)"
| return_back: "InReturn p n fl \<in> set (frames e) \<Longrightarrow>
    return_settle P w p n fl (drv e) = Inr s' \<Longrightarrow>
    ndis_step P w e (e\<lparr>drv := s', frames := remove1 (InReturn p n fl) (frames e)\<rparr>)"
| module_options: "phases e p = Some ph \<Longrightarrow>
    FilterSetModuleOptions P w p (drv e) = Inr (st, s') \<Longrightarrow> ndis_step P w e (e\<lparr>drv := s'\<rparr>)"
| device_event: "phases e p = Some ph \<Longrightarrow> ev \<in> documented_events \<Longrightarrow>
    FilterDevicePnPEventNotify w p ev (drv e) = Inr s' \<Longrightarrow> ndis_step P w e (e\<lparr>drv := s'\<rparr>)"
| dispatch: "load e = Loaded \<Longrightarrow> FilterDispatch w irp (drv e) = (st, s') \<Longrightarrow>
    ndis_step P w e (e\<lparr>drv := s'\<rparr>)"
| io_control: "load e = Loaded \<Longrightarrow> FilterDeviceIoControl irp (drv e) = (st, s') \<Longrightarrow>
    ndis_step P w e (e\<lparr>drv := s'\<rparr>)"
| unload: "load e = Loaded \<Longrightarrow>
    ndis_step P w e (e\<lparr>drv := unload_deregister w (drv e), load := Unloading\<rparr>)"
| unload_done: "load e = Unloading \<Longrightarrow> phases e = (\<lambda>_. None) \<Longrightarrow>
    ndis_step P w e (e\<lparr>drv := unload_finish P w (drv e), load := Unloaded\<rparr>)"

definition reachable :: "platform \<Rightarrow> ndis_world \<Rightarrow> ndis_env \<Rightarrow> bool" where
  "reachable P w e \<longleftrightarrow> (\<exists>e0. initial_env e0 \<and> (ndis_step P w)\<^sup>*\<^sup>* e0 e)"

section \<open>What NDIS promises besides\<close>

text \<open>
  An allocation answers NULL or a block that is not in use (and never the address of the list
  head, which lies in the driver's image); a successful device registration answers a handle.
\<close>

definition ndis_answers :: "platform \<Rightarrow> ndis_world \<Rightarrow> bool" where
  "ndis_answers P w \<longleftrightarrow>
     (\<forall>tr h n. Block (ret_out (w tr (NdisAllocateMemoryWithTagPriority h n))) \<notin> resources tr \<and>
        ret_out (w tr (NdisAllocateMemoryWithTagPriority h n)) \<noteq> FilterModuleList P) \<and>
     (\<forall>tr h hdr n l t x. ret_status (w tr (NdisRegisterDeviceEx h hdr n l t x)) = NDIS_STATUS_SUCCESS \<longrightarrow>
        ret_out (w tr (NdisRegisterDeviceEx h hdr n l t x)) \<noteq> NULL)"

end
