(* ===== verification/Filter_Lifecycle.thy ===== *)
theory Filter_Lifecycle imports Filter_Contract begin

text \<open>
  The life of the NDIS filter driver: what each handler does to the modules, the list, the
  resources and the locks, the invariant every step of the contract keeps, and the properties
  that follow for every state NDIS can bring the driver into.
\<close>

section \<open>Calls and updates\<close>

named_theorems nfd_simps

lemma ndis_ask_eq [nfd_simps]: "ndis_ask w c s = (w (log s) c, s\<lparr>log := log s @ [(c, w (log s) c)]\<rparr>)"
  by (simp add: ndis_ask_def ask_def Let_def)

lemma ndis_do_eq [nfd_simps]: "ndis_do w c s = s\<lparr>log := log s @ [(c, w (log s) c)]\<rparr>"
  by (simp add: ndis_do_def ndis_ask_eq)

lemma update_filter_Some [nfd_simps]:
  "filters s p = Some f \<Longrightarrow> update_filter p g s = s\<lparr>filters := (filters s)(p \<mapsto> g f)\<rparr>"
  by (simp add: update_filter_def)

lemmas lock_macros [nfd_simps] =
  FILTER_ACQUIRE_LOCK_def FILTER_RELEASE_LOCK_def FILTER_INIT_LOCK_def FILTER_FREE_LOCK_def

lemmas memory_macros [nfd_simps] = FILTER_ALLOC_MEM_def FILTER_FREE_MEM_def NdisMoveMemory_def

lemmas assertion_macros [nfd_simps] = FILTER_ASSERT_def ASSERT_def

lemma count_nbls_length: "count_nbls c n = n + of_nat (length c)"
  by (induction c arbitrary: n) simp_all

lemma count_sends_eq:
  "count_sends p c s = update_filter p (\<lambda>f. f\<lparr>OutstandingSends := OutstandingSends f + of_nat (length c)\<rparr>) s"
proof (induction c arbitrary: s)
  case Nil
  have "map_option (\<lambda>f. f\<lparr>OutstandingSends := OutstandingSends f + 0\<rparr>) (filters s p) = filters s p"
    by (cases "filters s p") simp_all
  then show ?case by (simp add: update_filter_def)
next
  case (Cons x c)
  then show ?case
    by (simp add: update_filter_def option.map_comp comp_def add.assoc)
qed

lemma mark_paused_map: "mark_paused c = map (\<lambda>b. b\<lparr>nbl_status := NDIS_STATUS_PAUSED\<rparr>) c"
  by (induction c) simp_all

section \<open>The invariant\<close>

fun frame_share :: "platform \<Rightarrow> addr \<Rightarrow> frame \<Rightarrow> ULONG" where
  "frame_share P p (InReceive q n fl) = (if q = p \<and> NDIS_TEST_RECEIVE_CANNOT_PEND P fl then n else 0)"
| "frame_share P p (InReturn q n fl) = (if q = p then n else 0)"

definition pending_share :: "platform \<Rightarrow> addr \<Rightarrow> frame list \<Rightarrow> ULONG" where
  "pending_share P p frs = sum_list (map (frame_share P p) frs)"

lemma pending_share_Nil [simp]: "pending_share P p [] = 0"
  by (simp add: pending_share_def)

lemma pending_share_Cons [simp]: "pending_share P p (fr # frs) = frame_share P p fr + pending_share P p frs"
  by (simp add: pending_share_def)

lemma pending_share_remove1:
  "fr \<in> set frs \<Longrightarrow> pending_share P p (remove1 fr frs) = pending_share P p frs - frame_share P p fr"
  by (simp add: pending_share_def sum_list_map_remove1)

lemma pending_share_absent:
  "p \<notin> frame_module ` set frs \<Longrightarrow> pending_share P p frs = 0"
proof (induction frs)
  case (Cons fr frs)
  then show ?case by (cases fr) auto
qed simp

definition phase_state :: "phase \<Rightarrow> FILTER_STATE" where
  "phase_state ph = (case ph of Paused \<Rightarrow> FilterPaused | Running \<Rightarrow> FilterRunning)"

lemma phase_state_simps [simp]:
  "phase_state Paused = FilterPaused" "phase_state Running = FilterRunning"
  by (simp_all add: phase_state_def)

text \<open>What holds of one attached module: its state is the phase NDIS has put it in, both directions are
  tracked, and the counters are what is out plus what running handlers will still subtract.\<close>

definition module_ok :: "platform \<Rightarrow> ndis_env \<Rightarrow> addr \<Rightarrow> MS_FILTER \<Rightarrow> bool" where
  "module_ok P e p f \<longleftrightarrow>
     Some (State f) = map_option phase_state (phases e p) \<and> TrackSends f \<and> TrackReceives f \<and>
     Buffer (FilterName f) = NULL \<and> OutstandingSends f = of_nat (sends_out e p) \<and>
     OutstandingRcvs f = of_nat (rcvs_out e p) + pending_share P p (frames e)"

definition up :: "ndis_env \<Rightarrow> bool" where
  "up e \<longleftrightarrow> load e \<noteq> NotLoaded \<and> load e \<noteq> Unloaded"

definition locks_inv :: "ndis_env \<Rightarrow> bool" where
  "locks_inv e \<longleftrightarrow> lock_use (log (drv e)) = Some (if up e then {FilterListLock} else {}, {})"

definition quiet_inv :: "ndis_env \<Rightarrow> bool" where
  "quiet_inv e \<longleftrightarrow> breaks (log (drv e)) = 0 \<and>
     registration_contexts (log (drv e)) \<subseteq> {FilterDriverObject (drv e)}"

definition resource_inv :: "ndis_env \<Rightarrow> bool" where
  "resource_inv e \<longleftrightarrow>
     resources (log (drv e)) = Block ` dom (filters (drv e)) \<union>
       (if load e = Loaded
        then {FilterDriver (FilterDriverHandle (drv e)), Device (NdisFilterDeviceHandle (drv e))}
        else if load e = Registering NDIS_STATUS_SUCCESS then {FilterDriver (FilterDriverHandle (drv e))}
        else {}) \<and>
     (load e = Loaded \<longrightarrow> NdisFilterDeviceHandle (drv e) \<noteq> NULL) \<and>
     (load e = NotLoaded \<longrightarrow> fresh_image (drv e))"

definition list_inv :: "platform \<Rightarrow> ndis_env \<Rightarrow> bool" where
  "list_inv P e \<longleftrightarrow>
     (if up e then \<exists>xs. ring (links (drv e)) (FilterModuleList P) xs \<and> set xs = dom (filters (drv e))
      else filters (drv e) = (\<lambda>_. None))"

definition modules_inv :: "platform \<Rightarrow> ndis_env \<Rightarrow> bool" where
  "modules_inv P e \<longleftrightarrow> dom (phases e) = dom (filters (drv e)) \<and> NULL \<notin> dom (filters (drv e)) \<and>
     frame_module ` set (frames e) \<subseteq> dom (filters (drv e)) \<and>
     (\<forall>p f. filters (drv e) p = Some f \<longrightarrow> module_ok P e p f)"

text \<open>Inside the registration there is no module yet, and the globals hold what the call was given and answered.\<close>

definition registering_inv :: "ndis_env \<Rightarrow> bool" where
  "registering_inv e \<longleftrightarrow> (\<forall>st. load e = Registering st \<longrightarrow> filters (drv e) = (\<lambda>_. None) \<and>
     (\<forall>d ctx ch r. (NdisFRegisterFilterDriver d ctx ch, r) \<in> set (log (drv e)) \<longrightarrow>
        ctx = FilterDriverObject (drv e) \<and> ret_out r = FilterDriverHandle (drv e)))"

definition ndis_inv :: "platform \<Rightarrow> ndis_env \<Rightarrow> bool" where
  "ndis_inv P e \<longleftrightarrow> locks_inv e \<and> quiet_inv e \<and> resource_inv e \<and> list_inv P e \<and> modules_inv P e \<and>
     registering_inv e"

lemma registering_inv_serving: "load e = Loaded \<or> load e = Unloading \<Longrightarrow> registering_inv e"
  by (auto simp: registering_inv_def)

lemmas inv_parts = registering_inv_def locks_inv_def quiet_inv_def resource_inv_def list_inv_def modules_inv_def

lemma inv_filter:
  assumes inv: "ndis_inv P e" and ph: "phases e p = Some ph"
  obtains f where "filters (drv e) p = Some f" "State f = phase_state ph" "module_ok P e p f"
proof -
  have m: "modules_inv P e" using inv by (simp add: ndis_inv_def)
  then have "p \<in> dom (filters (drv e))" using ph by (auto simp: modules_inv_def)
  then obtain f where f: "filters (drv e) p = Some f" by blast
  then have ok: "module_ok P e p f" using m by (simp add: modules_inv_def)
  then have "State f = phase_state ph" using ph by (simp add: module_ok_def)
  with f ok show ?thesis using that by blast
qed

lemma inv_lock_use:
  assumes "ndis_inv P e"
  obtains R where "lock_use (log (drv e)) = Some (R, {})"
  using assms by (simp add: ndis_inv_def locks_inv_def)

lemma inv_serving:
  assumes "ndis_inv P e" "phases e p = Some ph"
  shows "load e = Loaded \<or> load e = Unloading"
proof -
  obtain f where f: "filters (drv e) p = Some f" using assms by (rule inv_filter)
  then have "up e" using assms(1) by (auto simp: ndis_inv_def list_inv_def split: if_splits)
  moreover have "load e \<noteq> Registering st" for st
    using assms(1) f by (auto simp: ndis_inv_def registering_inv_def)
  ultimately show ?thesis by (cases "load e") (auto simp: up_def)
qed

lemma inv_initial: "initial_env e \<Longrightarrow> ndis_inv P e"
  by (auto simp: initial_env_def fresh_image_def ndis_inv_def inv_parts up_def monitor_simps)

section \<open>The effect of the handlers on one module\<close>

text \<open>
  A silent stretch of calls: every resource, lock, list entry and registration is as before, and
  no assertion has fired.
\<close>

definition silent :: "ndis_state \<Rightarrow> ndis_state \<Rightarrow> bool" where
  "silent s s' \<longleftrightarrow>
     resources (log s') = resources (log s) \<and> lock_use (log s') = lock_use (log s) \<and>
     breaks (log s') = breaks (log s) \<and>
     registration_contexts (log s') = registration_contexts (log s) \<and> links s' = links s \<and>
     FilterDriverHandle s' = FilterDriverHandle s \<and> FilterDriverObject s' = FilterDriverObject s \<and>
     NdisFilterDeviceHandle s' = NdisFilterDeviceHandle s"

lemma FilterPause_effect:
  assumes "lock_use (log s) = Some (R, {})" "filters s p = Some f" "State f = FilterRunning"
  shows "\<exists>s'. FilterPause w p s = Inr (NDIS_STATUS_SUCCESS, s') \<and> silent s s' \<and>
    filters s' = (filters s)(p \<mapsto> f\<lparr>State := FilterPaused\<rparr>)"
  using assms by (simp add: FilterPause_def Let_def nfd_simps monitor_simps silent_def)

lemma FilterSendNetBufferLists_effect:
  assumes "lock_use (log s) = Some (R, {})" "filters s p = Some f" "State f = FilterRunning" "TrackSends f"
  shows "\<exists>s'. FilterSendNetBufferLists P w p c port fl s = Inr s' \<and> silent s s' \<and>
    filters s' = (filters s)(p \<mapsto> f\<lparr>OutstandingSends := OutstandingSends f + of_nat (length c)\<rparr>)"
  using assms
  by (simp add: FilterSendNetBufferLists_def count_sends_eq Let_def nfd_simps monitor_simps silent_def)

lemma FilterSendNetBufferListsComplete_effect:
  assumes "lock_use (log s) = Some (R, {})" "filters s p = Some f" "TrackSends f"
  shows "\<exists>s'. FilterSendNetBufferListsComplete P w p c fl s = Inr s' \<and> silent s s' \<and>
    filters s' = (filters s)(p \<mapsto> f\<lparr>OutstandingSends := OutstandingSends f - of_nat (length c)\<rparr>)"
  using assms
  by (simp add: FilterSendNetBufferListsComplete_def count_nbls_length Let_def nfd_simps monitor_simps silent_def)

lemma receive_indicate_effect:
  assumes "lock_use (log s) = Some (R, {})" "filters s p = Some f" "State f = FilterRunning"
    "TrackReceives f" "1 \<le> n"
  shows "\<exists>s'. receive_indicate P w p c port n fl s = Inr (True, s') \<and> silent s s' \<and>
    filters s' = (filters s)(p \<mapsto> f\<lparr>OutstandingRcvs := OutstandingRcvs f + n\<rparr>)"
  using assms by (simp add: receive_indicate_def Let_def nfd_simps monitor_simps silent_def)

lemma receive_settle_effect:
  assumes "lock_use (log s) = Some (R, {})" "filters s p = Some f" "TrackReceives f"
  shows "\<exists>s'. receive_settle P w p n fl s = Inr s' \<and> silent s s' \<and>
    filters s' = (filters s)(p \<mapsto> f\<lparr>OutstandingRcvs := OutstandingRcvs f -
      frame_share P p (InReceive p n fl)\<rparr>)"
  using assms by (auto simp add: receive_settle_def Let_def nfd_simps monitor_simps silent_def)

lemma return_down_effect:
  assumes "lock_use (log s) = Some (R, {})" "filters s p = Some f" "TrackReceives f"
  shows "\<exists>s'. return_down w p c fl s = Inr (of_nat (length c), s') \<and> silent s s' \<and> filters s' = filters s"
  using assms by (simp add: return_down_def count_nbls_length Let_def nfd_simps monitor_simps silent_def)

lemma return_settle_effect:
  assumes "lock_use (log s) = Some (R, {})" "filters s p = Some f" "TrackReceives f"
  shows "\<exists>s'. return_settle P w p n fl s = Inr s' \<and> silent s s' \<and>
    filters s' = (filters s)(p \<mapsto> f\<lparr>OutstandingRcvs := OutstandingRcvs f - n\<rparr>)"
  using assms by (simp add: return_settle_def Let_def nfd_simps monitor_simps silent_def)

lemma FilterDevicePnPEventNotify_effect:
  assumes "lock_use (log s) = Some (R, {})" "filters s p = Some f" "ev \<in> documented_events"
  shows "\<exists>s'. FilterDevicePnPEventNotify w p ev s = Inr s' \<and> silent s s' \<and> filters s' = filters s"
  using assms by (cases ev) (simp_all add: documented_events_def FilterDevicePnPEventNotify_def Let_def nfd_simps monitor_simps silent_def)

lemma FilterRestart_effect:
  assumes "lock_use (log s) = Some (R, {})" "filters s p = Some f" "State f = FilterPaused"
    "\<forall>a \<in> set (take 1 attrs). Oid a = OID_GEN_MINIPORT_RESTART_ATTRIBUTES P"
    "\<forall>h. Configuration h \<notin> resources (log s)"
  shows "\<exists>s'. FilterRestart P w p attrs s =
      Inr (NDIS_STATUS_SUCCESS, (case attrs of [] \<Rightarrow> [] | a # as \<Rightarrow> a\<lparr>LookaheadSize := 128\<rparr> # as), s') \<and>
    silent s s' \<and> filters s' = (filters s)(p \<mapsto> f\<lparr>State := FilterRunning\<rparr>)"
  using assms
  by (cases attrs) (simp_all add: FilterRestart_def Let_def nfd_simps monitor_simps silent_def)

lemma FilterDetach_effect:
  assumes "lock_use (log s) = Some (R, {})" "FilterListLock \<in> R" "filters s p = Some f"
    "State f = FilterPaused" "Buffer (FilterName f) = NULL"
  shows "\<exists>s'. FilterDetach P w p s = Inr s' \<and>
    s' = s\<lparr>log := log s', filters := (filters s)(p := None),
           links := snd (RemoveEntryList (kernel_list P) p (links s))\<rparr> \<and>
    resources (log s') = resources (log s) - {Block p} \<and> lock_use (log s') = lock_use (log s) \<and>
    breaks (log s') = breaks (log s) \<and> registration_contexts (log s') = registration_contexts (log s)"
  using assms by (simp add: FilterDetach_def Let_def nfd_simps monitor_simps)

text \<open>
  Attaching: either it succeeds with the declared context as a new module at the front of the
  list, or nothing but the trace (and the links of a block that is free again) has changed.
\<close>

definition attached_filter :: "platform \<Rightarrow> handle \<Rightarrow> ATTACH_PARAMETERS \<Rightarrow> addr \<Rightarrow> MS_FILTER" where
  "attached_filter P h A p =
     (let name = (\<lambda>n a. \<lparr>Length = Length n, MaximumLength = Length n, Buffer = a\<rparr>);
          b1 = p + sizeof_MS_FILTER P; b2 = b1 + unat (Length (FilterModuleGuidName A));
          b3 = b2 + unat (Length (BaseMiniportInstanceName A))
      in zero_MS_FILTER\<lparr>FilterHandle := h, FilterModuleName := name (FilterModuleGuidName A) b1,
           MiniportFriendlyName := name (BaseMiniportInstanceName A) b2,
           MiniportName := name (BaseMiniportName A) b3, MiniportIfIndex := BaseMiniportIfIndex A,
           TrackReceives := True, TrackSends := True\<rparr>)"

lemma fill_filter_eq:
  "fill_filter P h A p s = s\<lparr>filters := (filters s)(p \<mapsto> attached_filter P h A p),
      links := (links s)(p := \<lparr>Flink = NULL, Blink = NULL\<rparr>), bytes := bytes (fill_filter P h A p s)\<rparr>"
  by (simp add: fill_filter_def Let_def NdisZeroMemory_filter_def update_filter_def NdisMoveMemory_def
      attached_filter_def zero_MS_FILTER_def zero_NDIS_STRING_def)

lemma fill_filter_fields [simp]:
  "log (fill_filter P h A p s) = log s" "filters (fill_filter P h A p s) = (filters s)(p \<mapsto> attached_filter P h A p)"
  "links (fill_filter P h A p s) = (links s)(p := \<lparr>Flink = NULL, Blink = NULL\<rparr>)"
  "FilterDriverObject (fill_filter P h A p s) = FilterDriverObject s"
  "FilterDriverHandle (fill_filter P h A p s) = FilterDriverHandle s"
  "NdisFilterDeviceHandle (fill_filter P h A p s) = NdisFilterDeviceHandle s"
  by (subst fill_filter_eq, simp)+

lemma attached_filter_fields:
  "OutstandingSends (attached_filter P h A p) = 0" "OutstandingRcvs (attached_filter P h A p) = 0"
  "TrackSends (attached_filter P h A p)" "TrackReceives (attached_filter P h A p)"
  "FilterHandle (attached_filter P h A p) = h" "Buffer (FilterName (attached_filter P h A p)) = NULL"
  by (simp_all add: attached_filter_def Let_def zero_MS_FILTER_def zero_NDIS_STRING_def)

text \<open>Attaching, with the allocation, the filled context and the attributes call written out.\<close>

definition attach_outcome ::
  "platform \<Rightarrow> ndis_world \<Rightarrow> handle \<Rightarrow> ATTACH_PARAMETERS \<Rightarrow> ndis_state \<Rightarrow> (addr \<Rightarrow> UCHAR) \<Rightarrow> NDIS_STATUS \<times> ndis_state" where
  "attach_outcome P w h A s b =
     (let r = w (log s) (NdisAllocateMemoryWithTagPriority h (of_nat (attach_size P A)));
          p = ret_out r;
          s1 = s\<lparr>log := log s @ [(NdisAllocateMemoryWithTagPriority h (of_nat (attach_size P A)), r)]\<rparr>;
          f = attached_filter P h A p;
          c = NdisFSetAttributes h p (object_header P FILTER_ATTRIBUTES_object) 0;
          s2 = s1\<lparr>filters := (filters s)(p \<mapsto> f), bytes := b,
                  links := (links s)(p := \<lparr>Flink = NULL, Blink = NULL\<rparr>),
                  log := log s1 @ [(c, w (log s1) c)]\<rparr>
      in if MiniportMediaType A \<noteq> NdisMedium802_3 P \<and> MiniportMediaType A \<noteq> NdisMediumWan P \<and>
            MiniportMediaType A \<noteq> NdisMediumWirelessWan P
         then (NDIS_STATUS_INVALID_PARAMETER, s)
         else if p = NULL then (NDIS_STATUS_RESOURCES, s1)
         else if ret_status (w (log s1) c) \<noteq> NDIS_STATUS_SUCCESS
         then (ret_status (w (log s1) c), FILTER_FREE_MEM w p s2)
         else (ret_status (w (log s1) c), FILTER_RELEASE_LOCK w FilterListLock False
             ((FILTER_ACQUIRE_LOCK w FilterListLock False
                (s2\<lparr>filters := (filters s)(p \<mapsto> f\<lparr>State := FilterPaused\<rparr>)\<rparr>))
              \<lparr>links := InsertHeadList (kernel_list P) (FilterModuleList P) p
                   ((links s)(p := \<lparr>Flink = NULL, Blink = NULL\<rparr>))\<rparr>)))"

lemma FilterAttach_eq: "\<exists>b. FilterAttach P w h (FilterDriverObject s) A s = attach_outcome P w h A s b"
proof -
  define r where "r = w (log s) (NdisAllocateMemoryWithTagPriority h (of_nat (attach_size P A)))"
  define p where "p = ret_out r"
  define s1 where "s1 = s\<lparr>log := log s @ [(NdisAllocateMemoryWithTagPriority h (of_nat (attach_size P A)), r)]\<rparr>"
  obtain b where b: "fill_filter P h A p s1 = s1\<lparr>filters := (filters s)(p \<mapsto> attached_filter P h A p),
      links := (links s)(p := \<lparr>Flink = NULL, Blink = NULL\<rparr>), bytes := b\<rparr>"
    using fill_filter_eq [of P h A p s1] by (simp add: s1_def)
  have alloc: "FILTER_ALLOC_MEM w h (of_nat (attach_size P A)) s = (p, s1)"
    by (simp add: nfd_simps p_def s1_def r_def)
  have s1: "filters s1 = filters s" "links s1 = links s" "FilterDriverObject s1 = FilterDriverObject s"
    by (simp_all add: s1_def)
  show ?thesis
    by (intro exI [of _ b]) (simp add: FilterAttach_def attach_body_def alloc b s1 ASSERT_def Let_def ndis_ask_eq ndis_do_eq
        update_filter_def lock_macros FILTER_FREE_MEM_def attach_outcome_def r_def [symmetric] p_def [symmetric]
        s1_def [symmetric])
qed

lemma FilterAttach_effect:
  assumes L: "lock_use (log s) = Some (R, {})" "FilterListLock \<in> R"
    and C: "ctx = FilterDriverObject s"
    and fresh: "\<forall>p. Block p \<notin> resources (log s) \<longrightarrow> filters s p = None"
    and w: "ndis_answers P w"
    and run: "FilterAttach P w h ctx A s = (st, s')"
  shows "lock_use (log s') = lock_use (log s) \<and> breaks (log s') = breaks (log s) \<and>
     registration_contexts (log s') = registration_contexts (log s) \<and>
     FilterDriverHandle s' = FilterDriverHandle s \<and> FilterDriverObject s' = FilterDriverObject s \<and>
     NdisFilterDeviceHandle s' = NdisFilterDeviceHandle s"
    and "st = NDIS_STATUS_SUCCESS \<Longrightarrow> \<exists>p f. p \<noteq> NULL \<and> p \<noteq> FilterModuleList P \<and> filters s p = None \<and>
      (\<forall>q. declared (new_calls s s') q \<longleftrightarrow> q = p) \<and>
      filters s' = (filters s)(p \<mapsto> f) \<and>
      links s' = InsertHeadList (kernel_list P) (FilterModuleList P) p
                   ((links s)(p := \<lparr>Flink = NULL, Blink = NULL\<rparr>)) \<and>
      resources (log s') = insert (Block p) (resources (log s)) \<and>
      State f = FilterPaused \<and> OutstandingSends f = 0 \<and> OutstandingRcvs f = 0 \<and> TrackSends f \<and>
      TrackReceives f \<and> Buffer (FilterName f) = NULL"
    and "st \<noteq> NDIS_STATUS_SUCCESS \<Longrightarrow> filters s' = filters s \<and> resources (log s') = resources (log s) \<and>
      (\<forall>a. filters s a \<noteq> None \<or> a = FilterModuleList P \<longrightarrow> links s' a = links s a)"
proof -
  define r where "r = w (log s) (NdisAllocateMemoryWithTagPriority h (of_nat (attach_size P A)))"
  define p where "p = ret_out r"
  define f where "f = attached_filter P h A p"
  have p: "Block p \<notin> resources (log s)" "p \<noteq> FilterModuleList P"
    using w by (simp_all add: ndis_answers_def p_def r_def)
  have fp: "filters s p = None" using fresh p(1) by blast
  have f: "OutstandingSends f = 0" "OutstandingRcvs f = 0" "TrackSends f" "TrackReceives f"
    "Buffer (FilterName f) = NULL"
    by (simp_all add: f_def attached_filter_fields)
  obtain b where body: "FilterAttach P w h ctx A s = attach_outcome P w h A s b"
    using FilterAttach_eq [of P w h s A] C by blast
  note defs = body attach_outcome_def r_def [symmetric] p_def [symmetric] f_def [symmetric] Let_def nfd_simps monitor_simps
  show "lock_use (log s') = lock_use (log s) \<and> breaks (log s') = breaks (log s) \<and>
     registration_contexts (log s') = registration_contexts (log s) \<and>
     FilterDriverHandle s' = FilterDriverHandle s \<and> FilterDriverObject s' = FilterDriverObject s \<and>
     NdisFilterDeviceHandle s' = NdisFilterDeviceHandle s"
    using run L by (auto simp: defs split: if_splits)
  show "\<exists>p f. p \<noteq> NULL \<and> p \<noteq> FilterModuleList P \<and> filters s p = None \<and>
      (\<forall>q. declared (new_calls s s') q \<longleftrightarrow> q = p) \<and>
      filters s' = (filters s)(p \<mapsto> f) \<and>
      links s' = InsertHeadList (kernel_list P) (FilterModuleList P) p
                   ((links s)(p := \<lparr>Flink = NULL, Blink = NULL\<rparr>)) \<and>
      resources (log s') = insert (Block p) (resources (log s)) \<and>
      State f = FilterPaused \<and> OutstandingSends f = 0 \<and> OutstandingRcvs f = 0 \<and> TrackSends f \<and>
      TrackReceives f \<and> Buffer (FilterName f) = NULL" if "st = NDIS_STATUS_SUCCESS"
    apply (rule exI [of _ p], rule exI [of _ "f\<lparr>State := FilterPaused\<rparr>"])
    using run that p fp f by (auto simp: defs declared_def new_calls_def split: if_splits)
  show "filters s' = filters s \<and> resources (log s') = resources (log s) \<and>
      (\<forall>a. filters s a \<noteq> None \<or> a = FilterModuleList P \<longrightarrow> links s' a = links s a)"
    if "st \<noteq> NDIS_STATUS_SUCCESS"
    using run that p fp by (auto simp: defs split: if_splits)
qed

lemma entry_register_effect:
  assumes img: "fresh_image s" and lists: "kernel_lists (kernel_list P)"
    and run: "entry_register P w d s = (st, s')"
  shows "breaks (log s') = 0" "filters s' = (\<lambda>_. None)" "registration_contexts (log s') = {FilterDriverObject s'}"
    and "lock_use (log s') = Some ({FilterListLock}, {})" "ring (links s') (FilterModuleList P) []"
    and "resources (log s') = (if st = NDIS_STATUS_SUCCESS then {FilterDriver (FilterDriverHandle s')} else {})"
    and "\<forall>d ctx ch r. (NdisFRegisterFilterDriver d ctx ch, r) \<in> set (log s') \<longrightarrow>
      ctx = FilterDriverObject s' \<and> ret_out r = FilterDriverHandle s'"
proof -
  note defs = entry_register_def Let_def nfd_simps resources_def lock_use_def breaks_def lock_moves
    registration_contexts_def kernel_lists.initialize [OF lists]
  have empty: "log s = []" "filters s = (\<lambda>_. None)" using img by (simp_all add: fresh_image_def)
  have st: "st = fst (entry_register P w d s)" and s': "s' = snd (entry_register P w d s)" using run by simp_all
  show "breaks (log s') = 0" "filters s' = (\<lambda>_. None)" "registration_contexts (log s') = {FilterDriverObject s'}"
    "lock_use (log s') = Some ({FilterListLock}, {})" "ring (links s') (FilterModuleList P) []"
    by (simp_all add: s' defs empty)
  show "resources (log s') = (if st = NDIS_STATUS_SUCCESS then {FilterDriver (FilterDriverHandle s')} else {})"
    by (simp add: st s' defs empty)
  show "\<forall>d ctx ch r. (NdisFRegisterFilterDriver d ctx ch, r) \<in> set (log s') \<longrightarrow>
      ctx = FilterDriverObject s' \<and> ret_out r = FilterDriverHandle s'"
    by (simp add: s' defs empty)
qed

lemma entry_settle_effect:
  assumes L: "lock_use (log s) = Some ({FilterListLock}, {})" and w: "ndis_answers P w"
    and R: "resources (log s) = (if st = NDIS_STATUS_SUCCESS then {FilterDriver (FilterDriverHandle s)} else {})"
    and run: "entry_settle P w st s = (st', s')"
  shows "breaks (log s') = breaks (log s) \<and> filters s' = filters s \<and> links s' = links s \<and>
      registration_contexts (log s') = registration_contexts (log s) \<and>
      FilterDriverObject s' = FilterDriverObject s"
    and "st' = NDIS_STATUS_SUCCESS \<Longrightarrow> lock_use (log s') = Some ({FilterListLock}, {}) \<and>
      resources (log s') = {FilterDriver (FilterDriverHandle s'), Device (NdisFilterDeviceHandle s')} \<and>
      NdisFilterDeviceHandle s' \<noteq> NULL"
    and "st' \<noteq> NDIS_STATUS_SUCCESS \<Longrightarrow> lock_use (log s') = Some ({}, {}) \<and> resources (log s') = {}"
proof -
  note defs = entry_settle_def FilterRegisterDevice_def Let_def nfd_simps monitor_simps
  let ?r = "w (log s) (NdisRegisterDeviceEx (FilterDriverHandle s)
    (object_header P DEVICE_OBJECT_ATTRIBUTES_object) NTDEVICE_STRING LINKNAME_STRING
    (dispatch_table P) (sizeof_FILTER_DEVICE_EXTENSION P))"
  have st: "st' = fst (entry_settle P w st s)" and s': "s' = snd (entry_settle P w st s)" using run by simp_all
  have ok: "st' = NDIS_STATUS_SUCCESS \<longleftrightarrow> st = NDIS_STATUS_SUCCESS \<and> ret_status ?r = NDIS_STATUS_SUCCESS"
    by (simp add: st defs)
  show "breaks (log s') = breaks (log s) \<and> filters s' = filters s \<and> links s' = links s \<and>
      registration_contexts (log s') = registration_contexts (log s) \<and>
      FilterDriverObject s' = FilterDriverObject s"
    by (simp add: s' defs)
  show "lock_use (log s') = Some ({FilterListLock}, {}) \<and>
      resources (log s') = {FilterDriver (FilterDriverHandle s'), Device (NdisFilterDeviceHandle s')} \<and>
      NdisFilterDeviceHandle s' \<noteq> NULL" if "st' = NDIS_STATUS_SUCCESS"
  proof -
    have "st = NDIS_STATUS_SUCCESS" "ret_status ?r = NDIS_STATUS_SUCCESS" using that ok by simp_all
    moreover have "ret_out ?r \<noteq> NULL" using w calculation(2) by (simp add: ndis_answers_def)
    ultimately show ?thesis using L R by (simp add: s' defs insert_commute)
  qed
  show "lock_use (log s') = Some ({}, {}) \<and> resources (log s') = {}" if "st' \<noteq> NDIS_STATUS_SUCCESS"
  proof (cases "st = NDIS_STATUS_SUCCESS")
    case True
    then have "ret_status ?r \<noteq> NDIS_STATUS_SUCCESS" using that ok by simp
    then show ?thesis using True L R by (simp add: s' defs)
  next
    case False
    then show ?thesis using L R by (simp add: s' defs)
  qed
qed

lemma unload_deregister_effect:
  assumes "lock_use (log s) = Some (R, {})" "NdisFilterDeviceHandle s \<noteq> NULL"
  shows "unload_deregister w s = s\<lparr>log := log (unload_deregister w s), NdisFilterDeviceHandle := NULL\<rparr>"
    and "resources (log (unload_deregister w s)) =
      resources (log s) - {Device (NdisFilterDeviceHandle s)} - {FilterDriver (FilterDriverHandle s)}"
    and "lock_use (log (unload_deregister w s)) = lock_use (log s)"
    and "breaks (log (unload_deregister w s)) = breaks (log s)"
    and "registration_contexts (log (unload_deregister w s)) = registration_contexts (log s)"
  using assms
  by (simp_all add: unload_deregister_def FilterDeregisterDevice_def Let_def nfd_simps monitor_simps)

lemma unload_finish_effect:
  assumes "lock_use (log s) = Some ({FilterListLock}, {})"
    and "IsListEmpty (kernel_list P) (FilterModuleList P) (links s)"
  shows "unload_finish P w s = s\<lparr>log := log (unload_finish P w s)\<rparr>"
    and "resources (log (unload_finish P w s)) = resources (log s)"
    and "lock_use (log (unload_finish P w s)) = Some ({}, {})"
    and "breaks (log (unload_finish P w s)) = breaks (log s)"
    and "registration_contexts (log (unload_finish P w s)) = registration_contexts (log s)"
  using assms by (simp_all add: unload_finish_def Let_def nfd_simps monitor_simps)

section \<open>Every step keeps the invariant\<close>

text \<open>
  The steps of one module: the rest of the driver is silent, the other modules see the same
  phase, counters and pending frames, and the module itself is as it should be.
\<close>

lemma inv_module_step:
  assumes inv: "ndis_inv P e" and f: "filters (drv e) p = Some f"
    and s: "silent (drv e) (drv e')" "filters (drv e') = (filters (drv e))(p \<mapsto> f')"
    and e': "load e' = load e" "phases e' = (phases e)(p \<mapsto> ph)"
    and others: "\<And>q. q \<noteq> p \<Longrightarrow> sends_out e' q = sends_out e q \<and> rcvs_out e' q = rcvs_out e q \<and>
      pending_share P q (frames e') = pending_share P q (frames e)"
    and frames: "frame_module ` set (frames e') \<subseteq> insert p (frame_module ` set (frames e))"
    and ok: "module_ok P e' p f'"
  shows "ndis_inv P e'"
proof -
  have dom: "dom (filters (drv e')) = dom (filters (drv e))" "dom (phases e') = dom (phases e)"
    using f inv by (auto simp: s(2) e'(2) ndis_inv_def modules_inv_def)
  have mods: "modules_inv P e" using inv by (simp add: ndis_inv_def)
  have ok': "module_ok P e' q g" if "filters (drv e') q = Some g" for q g
  proof (cases "q = p")
    case True then show ?thesis using ok that s(2) by simp
  next
    case False
    then have "module_ok P e q g" using that mods s(2) by (simp add: modules_inv_def)
    then show ?thesis using others [OF False] e'(2) False by (simp add: module_ok_def)
  qed
  have "insert p (frame_module ` set (frames e)) \<subseteq> dom (filters (drv e))"
    using f mods by (auto simp: modules_inv_def)
  then have frames': "frame_module ` set (frames e') \<subseteq> dom (filters (drv e'))"
    using frames dom by (metis order_trans)
  have up: "up e' = up e" by (simp add: up_def e'(1))
  have "p \<in> dom (phases e)" using f mods by (auto simp: modules_inv_def)
  then have serving: "load e = Loaded \<or> load e = Unloading" using inv_serving [OF inv] by blast
  then have reg: "registering_inv e'" by (simp add: registering_inv_serving e'(1))
  then show ?thesis
    using inv s(1) dom ok' frames' f up mods serving reg
    unfolding ndis_inv_def locks_inv_def quiet_inv_def resource_inv_def list_inv_def silent_def e'(1)
    by (auto simp: modules_inv_def split: if_splits)
qed

lemma inv_locks_ready:
  assumes "ndis_inv P e"
  obtains R where "lock_use (log (drv e)) = Some (R, {})" "up e \<Longrightarrow> R = {FilterListLock}"
  using assms by (simp add: ndis_inv_def locks_inv_def split: if_splits)

text \<open>What the invariant says of a loaded driver.\<close>

lemma inv_loaded:
  assumes inv: "ndis_inv P e" and up: "load e = Loaded"
  shows "lock_use (log (drv e)) = Some ({FilterListLock}, {})"
    and "resources (log (drv e)) = Block ` dom (filters (drv e)) \<union>
      {FilterDriver (FilterDriverHandle (drv e)), Device (NdisFilterDeviceHandle (drv e))}"
    and "\<forall>q. Block q \<notin> resources (log (drv e)) \<longrightarrow> filters (drv e) q = None"
    and "ctx \<in> registration_contexts (log (drv e)) \<Longrightarrow> ctx = FilterDriverObject (drv e)"
    and "\<exists>xs. ring (links (drv e)) (FilterModuleList P) xs \<and> set xs = dom (filters (drv e))"
  using assms by (auto simp: ndis_inv_def locks_inv_def quiet_inv_def resource_inv_def list_inv_def up_def)

lemma inv_attach:
  assumes inv: "ndis_inv P e" and up: "load e = Loaded"
    and ctx: "ctx \<in> registration_contexts (log (drv e))" and w: "ndis_answers P w"
    and lists: "kernel_lists (kernel_list P)"
    and run: "FilterAttach P w h ctx A (drv e) = (NDIS_STATUS_SUCCESS, s')"
    and p: "declared (new_calls (drv e) s') p"
  shows "ndis_inv P (e\<lparr>drv := s', phases := (phases e)(p \<mapsto> Paused),
      sends_out := (sends_out e)(p := 0), rcvs_out := (rcvs_out e)(p := 0)\<rparr>)"
    (is "ndis_inv P ?e")
proof -
  let ?s = "drv e"
  note loaded = inv_loaded [OF inv up]
  note eff = FilterAttach_effect [OF loaded(1) singletonI loaded(4) [OF ctx] loaded(3) w run]
  have "\<forall>q. declared (new_calls ?s s') q \<longrightarrow> q = p"
    using eff(2) [OF refl] p by metis
  then obtain f where f: "p \<noteq> NULL" "p \<noteq> FilterModuleList P" "filters ?s p = None"
      "filters s' = (filters ?s)(p \<mapsto> f)"
      "links s' = InsertHeadList (kernel_list P) (FilterModuleList P) p
         ((links ?s)(p := \<lparr>Flink = NULL, Blink = NULL\<rparr>))"
      "resources (log s') = insert (Block p) (resources (log ?s))"
      "State f = FilterPaused" "OutstandingSends f = 0" "OutstandingRcvs f = 0" "TrackSends f"
      "TrackReceives f" "Buffer (FilterName f) = NULL"
    using eff(2) [OF refl] by blast
  have mods: "modules_inv P e" using inv by (simp add: ndis_inv_def)
  obtain xs where xs: "ring (links ?s) (FilterModuleList P) xs" "set xs = dom (filters ?s)"
    using loaded(5) by blast
  have px: "p \<notin> set (FilterModuleList P # xs)" using f(2,3) xs(2) by auto
  have "ring ((links ?s)(p := \<lparr>Flink = NULL, Blink = NULL\<rparr>)) (FilterModuleList P) xs"
    using xs(1) px by (intro ring_frame [OF xs(1)]) auto
  then have ring': "ring (links s') (FilterModuleList P) (p # xs)"
    unfolding f(5) using px by (rule kernel_lists.insert_head [OF lists])
  have "p \<notin> frame_module ` set (frames e)" using mods f(3) by (auto simp: modules_inv_def)
  then have share: "pending_share P p (frames e) = 0" by (rule pending_share_absent)
  have ok: "module_ok P ?e q g" if "filters s' q = Some g" for q g
  proof (cases "q = p")
    case True then show ?thesis using that f share by (simp add: module_ok_def)
  next
    case False
    then have "module_ok P e q g" using that mods f(4) by (simp add: modules_inv_def)
    then show ?thesis using False by (simp add: module_ok_def)
  qed
  have "modules_inv P ?e" using mods f ok by (auto simp: modules_inv_def)
  moreover have "list_inv P ?e" using ring' xs(2) f(4) up by (auto simp: list_inv_def up_def intro!: exI [of _ "p # xs"])
  moreover have "resource_inv ?e"
    using inv f(4,6) eff(1) loaded(2) up by (auto simp: ndis_inv_def resource_inv_def)
  moreover have "locks_inv ?e" "quiet_inv ?e"
    using inv eff(1) up by (auto simp: ndis_inv_def locks_inv_def quiet_inv_def up_def)
  moreover have "registering_inv ?e" using up by (simp add: registering_inv_serving)
  ultimately show ?thesis by (simp add: ndis_inv_def)
qed

lemma inv_attach_fails:
  assumes inv: "ndis_inv P e" and up: "load e = Loaded"
    and ctx: "ctx \<in> registration_contexts (log (drv e))" and w: "ndis_answers P w"
    and run: "FilterAttach P w h ctx A (drv e) = (st, s')" and st: "st \<noteq> NDIS_STATUS_SUCCESS"
  shows "ndis_inv P (e\<lparr>drv := s'\<rparr>)"
proof -
  let ?s = "drv e"
  note loaded = inv_loaded [OF inv up]
  note eff = FilterAttach_effect [OF loaded(1) singletonI loaded(4) [OF ctx] loaded(3) w run]
  note same = eff(1) eff(3) [OF st]
  obtain xs where xs: "ring (links ?s) (FilterModuleList P) xs" "set xs = dom (filters ?s)"
    using loaded(5) by blast
  have "ring (links s') (FilterModuleList P) xs"
    using same xs(2) by (intro ring_frame [OF xs(1)]) auto
  then have "list_inv P (e\<lparr>drv := s'\<rparr>)" using same xs(2) up by (auto simp: list_inv_def up_def)
  moreover have "modules_inv P (e\<lparr>drv := s'\<rparr>)"
    using inv same by (simp add: ndis_inv_def modules_inv_def module_ok_def)
  moreover have "locks_inv (e\<lparr>drv := s'\<rparr>)" "quiet_inv (e\<lparr>drv := s'\<rparr>)" "resource_inv (e\<lparr>drv := s'\<rparr>)"
    using inv same up by (simp_all add: ndis_inv_def locks_inv_def quiet_inv_def resource_inv_def up_def)
  moreover have "registering_inv (e\<lparr>drv := s'\<rparr>)" using up by (simp add: registering_inv_serving)
  ultimately show ?thesis by (simp add: ndis_inv_def)
qed

lemma inv_detach:
  assumes inv: "ndis_inv P e" and serving: "load e = Loaded \<or> load e = Unloading" and ph: "phases e p = Some Paused"
    and fr: "p \<notin> frame_module ` set (frames e)" and lists: "kernel_lists (kernel_list P)"
    and run: "FilterDetach P w p (drv e) = Inr s'"
  shows "ndis_inv P (e\<lparr>drv := s', phases := (phases e)(p := None)\<rparr>)" (is "ndis_inv P ?e")
proof -
  let ?s = "drv e"
  have up: "up e" using serving by (auto simp: up_def)
  obtain f where f: "filters ?s p = Some f" "State f = FilterPaused" "module_ok P e p f"
    using inv ph by (rule inv_filter) simp
  have b: "Buffer (FilterName f) = NULL" using f(3) by (simp add: module_ok_def)
  have L: "lock_use (log ?s) = Some ({FilterListLock}, {})" "FilterListLock \<in> {FilterListLock}"
    using inv up by (simp_all add: ndis_inv_def locks_inv_def)
  have s': "s' = ?s\<lparr>log := log s', filters := (filters ?s)(p := None),
           links := snd (RemoveEntryList (kernel_list P) p (links ?s))\<rparr>"
    and m: "resources (log s') = resources (log ?s) - {Block p}" "lock_use (log s') = lock_use (log ?s)"
      "breaks (log s') = breaks (log ?s)" "registration_contexts (log s') = registration_contexts (log ?s)"
    using FilterDetach_effect [OF L f(1,2) b, of P w] run by auto
  have fields: "filters s' = (filters ?s)(p := None)"
      "links s' = snd (RemoveEntryList (kernel_list P) p (links ?s))"
      "FilterDriverHandle s' = FilterDriverHandle ?s" "FilterDriverObject s' = FilterDriverObject ?s"
      "NdisFilterDeviceHandle s' = NdisFilterDeviceHandle ?s"
    by (subst s', simp)+
  obtain xs where xs: "ring (links ?s) (FilterModuleList P) xs" "set xs = dom (filters ?s)"
    using inv up by (auto simp: ndis_inv_def list_inv_def)
  obtain ys where ys: "ring (links s') (FilterModuleList P) ys" "set ys = set xs - {p}"
    using kernel_lists.remove_keeps_members [OF lists xs(1), of p] f(1) xs(2) fields(2) by auto
  have up': "up ?e" using up by (simp add: up_def)
  have mods: "modules_inv P e" using inv by (simp add: ndis_inv_def)
  have "list_inv P ?e" using ys xs(2) fields(1) up' by (auto simp: list_inv_def)
  moreover have "modules_inv P ?e"
    using mods fr fields(1) by (auto simp: modules_inv_def module_ok_def split: if_splits)
  moreover have "resource_inv ?e"
    using inv m(1) fields serving unfolding ndis_inv_def resource_inv_def up_def by auto
  moreover have "locks_inv ?e" "quiet_inv ?e"
    using inv m fields up' up by (simp_all add: ndis_inv_def locks_inv_def quiet_inv_def)
  moreover have "registering_inv ?e" using serving by (simp add: registering_inv_serving)
  ultimately show ?thesis by (simp add: ndis_inv_def)
qed

lemma inv_load:
  assumes inv: "ndis_inv P e" and nl: "load e = NotLoaded" and lists: "kernel_lists (kernel_list P)"
    and run: "entry_register P w d (drv e) = (st, s')"
  shows "ndis_inv P (e\<lparr>drv := s', load := Registering st\<rparr>)"
proof -
  have img: "fresh_image (drv e)" using inv nl by (simp add: ndis_inv_def resource_inv_def)
  have "dom (phases e) = {}" "frames e = []"
    using inv img by (auto simp: ndis_inv_def modules_inv_def fresh_image_def)
  then show ?thesis using entry_register_effect [OF img lists run]
    by (auto simp: ndis_inv_def inv_parts up_def)
qed

lemma inv_register_options:
  assumes inv: "ndis_inv P e" and reg: "load e = Registering st" "(NdisFRegisterFilterDriver d ctx ch, r) \<in> set (log (drv e))"
    and run: "FilterRegisterOptions P w (ret_out r) ctx (drv e) = (st', s')"
  shows "ndis_inv P (e\<lparr>drv := s'\<rparr>)"
proof -
  have "ctx = FilterDriverObject (drv e)" "ret_out r = FilterDriverHandle (drv e)"
    using inv reg unfolding ndis_inv_def registering_inv_def by blast+
  then have "s' = drv e" using run by (simp add: FilterRegisterOptions_def ASSERT_def)
  then show ?thesis using inv by simp
qed

lemma inv_load_back:
  assumes inv: "ndis_inv P e" and reg: "load e = Registering st" and w: "ndis_answers P w"
    and run: "entry_settle P w st (drv e) = (st', s')"
  shows "ndis_inv P (e\<lparr>drv := s', load := (if st' = NDIS_STATUS_SUCCESS then Loaded else Unloaded)\<rparr>)"
proof -
  have none: "filters (drv e) = (\<lambda>_. None)" using inv reg by (simp add: ndis_inv_def registering_inv_def)
  have mods: "dom (phases e) = {}" "frames e = []"
    using inv none by (auto simp: ndis_inv_def modules_inv_def)
  have L: "lock_use (log (drv e)) = Some ({FilterListLock}, {})"
    using inv reg by (simp add: ndis_inv_def locks_inv_def up_def)
  have R: "resources (log (drv e)) = (if st = NDIS_STATUS_SUCCESS then {FilterDriver (FilterDriverHandle (drv e))} else {})"
    using inv reg none by (simp add: ndis_inv_def resource_inv_def)
  have ring: "\<exists>xs. ring (links (drv e)) (FilterModuleList P) xs \<and> set xs = {}"
    using inv reg none by (simp add: ndis_inv_def list_inv_def up_def)
  have quiet: "breaks (log (drv e)) = 0" "registration_contexts (log (drv e)) \<subseteq> {FilterDriverObject (drv e)}"
    using inv by (simp_all add: ndis_inv_def quiet_inv_def)
  note eff = entry_settle_effect [OF L w R run]
  show ?thesis
  proof (cases "st' = NDIS_STATUS_SUCCESS")
    case True
    then show ?thesis using eff(1) eff(2) [OF True] mods none ring quiet
      by (simp add: ndis_inv_def inv_parts up_def)
  next
    case False
    then show ?thesis using eff(1) eff(3) [OF False] mods none quiet
      by (simp add: ndis_inv_def inv_parts up_def)
  qed
qed

lemma inv_unload:
  assumes inv: "ndis_inv P e" and l: "load e = Loaded"
  shows "ndis_inv P (e\<lparr>drv := unload_deregister w (drv e), load := Unloading\<rparr>)" (is "ndis_inv P ?e")
proof -
  have "lock_use (log (drv e)) = Some ({FilterListLock}, {})" "NdisFilterDeviceHandle (drv e) \<noteq> NULL"
    using inv l by (simp_all add: ndis_inv_def locks_inv_def resource_inv_def up_def)
  note eff = unload_deregister_effect [OF this, of w]
  have fields: "filters (drv ?e) = filters (drv e)" "links (drv ?e) = links (drv e)"
      "FilterDriverObject (drv ?e) = FilterDriverObject (drv e)"
    by (simp_all, (subst eff(1), simp)+)
  have "modules_inv P ?e"
    using inv fields by (simp add: ndis_inv_def modules_inv_def module_ok_def)
  moreover have "resource_inv ?e"
    using inv l eff(2) fields(1) by (auto simp: ndis_inv_def resource_inv_def)
  moreover have "locks_inv ?e" "quiet_inv ?e" "list_inv P ?e"
    using inv l eff fields by (simp_all add: ndis_inv_def locks_inv_def quiet_inv_def list_inv_def up_def)
  moreover have "registering_inv ?e" by (simp add: registering_inv_serving)
  ultimately show ?thesis by (simp add: ndis_inv_def)
qed

lemma inv_unload_done:
  assumes inv: "ndis_inv P e" and l: "load e = Unloading" and ph: "phases e = (\<lambda>_. None)"
    and lists: "kernel_lists (kernel_list P)"
  shows "ndis_inv P (e\<lparr>drv := unload_finish P w (drv e), load := Unloaded\<rparr>)" (is "ndis_inv P ?e")
proof -
  have "dom (filters (drv e)) = {}" using inv ph by (simp add: ndis_inv_def modules_inv_def)
  then have none: "filters (drv e) = (\<lambda>_. None)" by (simp only: dom_eq_empty_conv)
  then have "ring (links (drv e)) (FilterModuleList P) []"
    using inv l by (auto simp: ndis_inv_def list_inv_def up_def)
  then have "IsListEmpty (kernel_list P) (FilterModuleList P) (links (drv e))"
    using kernel_lists.empty [OF lists] by blast
  moreover have "lock_use (log (drv e)) = Some ({FilterListLock}, {})"
    using inv l by (simp add: ndis_inv_def locks_inv_def up_def)
  ultimately have eff: "unload_finish P w (drv e) = (drv e)\<lparr>log := log (unload_finish P w (drv e))\<rparr>"
    "resources (log (unload_finish P w (drv e))) = resources (log (drv e))"
    "lock_use (log (unload_finish P w (drv e))) = Some ({}, {})"
    "breaks (log (unload_finish P w (drv e))) = breaks (log (drv e))"
    "registration_contexts (log (unload_finish P w (drv e))) = registration_contexts (log (drv e))"
    using unload_finish_effect by blast+
  have fields: "filters (drv ?e) = (\<lambda>_. None)" "FilterDriverObject (drv ?e) = FilterDriverObject (drv e)"
    by (simp_all, (subst eff(1), simp add: none)+)
  show ?thesis
    using inv l eff(2-5) fields none unfolding ndis_inv_def inv_parts up_def by auto
qed

text \<open>A handler that leaves the modules alone as well.\<close>

lemma inv_silent:
  assumes inv: "ndis_inv P e" and s: "silent (drv e) s'" "filters s' = filters (drv e)"
    and serving: "load e = Loaded \<or> load e = Unloading"
  shows "ndis_inv P (e\<lparr>drv := s'\<rparr>)"
  using inv s serving
  by (auto simp: ndis_inv_def inv_parts silent_def module_ok_def up_def)

lemma inv_restart:
  assumes inv: "ndis_inv P e" and ph: "phases e p = Some Paused"
    and oid: "\<forall>a \<in> set (take 1 attrs). Oid a = OID_GEN_MINIPORT_RESTART_ATTRIBUTES P"
    and run: "FilterRestart P w p attrs (drv e) = Inr (st, attrs', s')"
  shows "ndis_inv P (e\<lparr>drv := s', phases := (phases e)(p \<mapsto> Running)\<rparr>)"
proof -
  obtain f where f: "filters (drv e) p = Some f" "State f = FilterPaused" "module_ok P e p f"
    using inv ph by (rule inv_filter) simp
  obtain R where L: "lock_use (log (drv e)) = Some (R, {})" using inv by (rule inv_lock_use)
  have "\<forall>h. Configuration h \<notin> resources (log (drv e))"
    using inv by (auto simp: ndis_inv_def resource_inv_def split: if_splits)
  from FilterRestart_effect [OF L f(1,2) oid this, of w] run
  have eff: "silent (drv e) s'" "filters s' = (filters (drv e))(p \<mapsto> f\<lparr>State := FilterRunning\<rparr>)"
    by auto
  show ?thesis
    by (rule inv_module_step [OF inv f(1), where f' = "f\<lparr>State := FilterRunning\<rparr>" and ph = Running])
      (use eff f(3) in \<open>auto simp: module_ok_def\<close>)
qed

lemma inv_pause:
  assumes inv: "ndis_inv P e" and ph: "phases e p = Some Running"
    and run: "FilterPause w p (drv e) = Inr (st, s')"
  shows "ndis_inv P (e\<lparr>drv := s', phases := (phases e)(p \<mapsto> Paused)\<rparr>)"
proof -
  obtain f where f: "filters (drv e) p = Some f" "State f = FilterRunning" "module_ok P e p f"
    using inv ph by (rule inv_filter) simp
  obtain R where L: "lock_use (log (drv e)) = Some (R, {})" using inv by (rule inv_lock_use)
  from FilterPause_effect [OF L f(1,2), of w] run
  have eff: "silent (drv e) s'" "filters s' = (filters (drv e))(p \<mapsto> f\<lparr>State := FilterPaused\<rparr>)"
    by auto
  show ?thesis
    by (rule inv_module_step [OF inv f(1), where f' = "f\<lparr>State := FilterPaused\<rparr>" and ph = Paused])
      (use eff f(3) in \<open>auto simp: module_ok_def\<close>)
qed

text \<open>The steps of the data path change the counters only.\<close>

lemma inv_counters:
  assumes inv: "ndis_inv P e" and ph: "phases e p = Some ph"
    and f: "filters (drv e) p = Some f"
    and eff: "silent (drv e) s'" "filters s' = (filters (drv e))(p \<mapsto> f\<lparr>OutstandingSends := a, OutstandingRcvs := b\<rparr>)"
    and a: "a = of_nat (so p)" and b: "b = of_nat (ro p) + pending_share P p frs"
    and others: "\<And>q. q \<noteq> p \<Longrightarrow> so q = sends_out e q \<and> ro q = rcvs_out e q \<and>
      pending_share P q frs = pending_share P q (frames e)"
    and frs: "frame_module ` set frs \<subseteq> insert p (frame_module ` set (frames e))"
  shows "ndis_inv P (e\<lparr>drv := s', sends_out := so, rcvs_out := ro, frames := frs\<rparr>)"
proof (rule inv_module_step [OF inv f])
  have "module_ok P e p f" using inv f by (simp add: ndis_inv_def modules_inv_def)
  then show "module_ok P (e\<lparr>drv := s', sends_out := so, rcvs_out := ro, frames := frs\<rparr>) p
      (f\<lparr>OutstandingSends := a, OutstandingRcvs := b\<rparr>)"
    using a b by (simp add: module_ok_def)
  show "phases (e\<lparr>drv := s', sends_out := so, rcvs_out := ro, frames := frs\<rparr>) = (phases e)(p \<mapsto> ph)"
    using ph by auto
qed (use eff others frs in simp_all)

lemma frame_share_other: "frame_module fr \<noteq> q \<Longrightarrow> frame_share P q fr = 0"
  by (cases fr) auto

lemma inv_module:
  assumes "ndis_inv P e" "filters (drv e) p = Some f"
  obtains R where "lock_use (log (drv e)) = Some (R, {})" "TrackSends f" "TrackReceives f"
    "OutstandingSends f = of_nat (sends_out e p)"
    "OutstandingRcvs f = of_nat (rcvs_out e p) + pending_share P p (frames e)"
    "\<exists>ph. phases e p = Some ph"
proof -
  obtain R where R: "lock_use (log (drv e)) = Some (R, {})" using assms(1) by (rule inv_lock_use)
  have m: "modules_inv P e" using assms(1) by (simp add: ndis_inv_def)
  then have "module_ok P e p f" "p \<in> dom (phases e)" using assms(2) by (auto simp: modules_inv_def)
  then show ?thesis using R that by (auto simp: module_ok_def)
qed

lemma inv_send:
  assumes inv: "ndis_inv P e" and ph: "phases e p = Some Running"
    and run: "FilterSendNetBufferLists P w p c port fl (drv e) = Inr s'"
  shows "ndis_inv P (e\<lparr>drv := s', sends_out := (sends_out e)(p := sends_out e p + length c)\<rparr>)"
proof -
  obtain f where f: "filters (drv e) p = Some f" "State f = FilterRunning"
    using inv ph by (rule inv_filter) simp
  obtain R where m: "lock_use (log (drv e)) = Some (R, {})" "TrackSends f"
      "OutstandingSends f = of_nat (sends_out e p)"
      "OutstandingRcvs f = of_nat (rcvs_out e p) + pending_share P p (frames e)"
    using inv f(1) by (rule inv_module)
  from FilterSendNetBufferLists_effect [OF m(1) f m(2), of P w c port fl] run
  have "silent (drv e) s'" "filters s' = (filters (drv e))(p \<mapsto>
      f\<lparr>OutstandingSends := OutstandingSends f + of_nat (length c), OutstandingRcvs := OutstandingRcvs f\<rparr>)"
    by auto
  from inv_counters [OF inv ph f(1) this, of "(sends_out e)(p := sends_out e p + length c)" "rcvs_out e" "frames e"]
  show ?thesis using m by auto
qed

lemma inv_send_complete:
  assumes inv: "ndis_inv P e" and ph: "phases e p = Some ph" and le: "length c \<le> sends_out e p"
    and run: "FilterSendNetBufferListsComplete P w p c fl (drv e) = Inr s'"
  shows "ndis_inv P (e\<lparr>drv := s', sends_out := (sends_out e)(p := sends_out e p - length c)\<rparr>)"
proof -
  obtain f where f: "filters (drv e) p = Some f"
    using inv ph by (rule inv_filter)
  obtain R where m: "lock_use (log (drv e)) = Some (R, {})" "TrackSends f"
      "OutstandingSends f = of_nat (sends_out e p)"
      "OutstandingRcvs f = of_nat (rcvs_out e p) + pending_share P p (frames e)"
    using inv f by (rule inv_module)
  from FilterSendNetBufferListsComplete_effect [OF m(1) f m(2), of P w c fl] run
  have "silent (drv e) s'" "filters s' = (filters (drv e))(p \<mapsto>
      f\<lparr>OutstandingSends := OutstandingSends f - of_nat (length c), OutstandingRcvs := OutstandingRcvs f\<rparr>)"
    by auto
  from inv_counters [OF inv ph f this, of "(sends_out e)(p := sends_out e p - length c)" "rcvs_out e" "frames e"]
  show ?thesis using m le by (auto simp: of_nat_diff_word)
qed

lemma inv_receive:
  assumes inv: "ndis_inv P e" and ph: "phases e p = Some Running"
    and c: "c \<noteq> []" "length c < 2 ^ 32" "n = of_nat (length c)"
    and run: "receive_indicate P w p c port n fl (drv e) = Inr (True, s')"
  shows "ndis_inv P (e\<lparr>drv := s',
      rcvs_out := (if NDIS_TEST_RECEIVE_CANNOT_PEND P fl then rcvs_out e
                   else (rcvs_out e)(p := rcvs_out e p + length c)),
      frames := InReceive p n fl # frames e\<rparr>)"
proof -
  obtain f where f: "filters (drv e) p = Some f" "State f = FilterRunning"
    using inv ph by (rule inv_filter) simp
  obtain R where m: "lock_use (log (drv e)) = Some (R, {})" "TrackReceives f"
      "OutstandingSends f = of_nat (sends_out e p)"
      "OutstandingRcvs f = of_nat (rcvs_out e p) + pending_share P p (frames e)"
    using inv f(1) by (rule inv_module)
  have "unat n = length c" using c(2,3) by (simp add: unat_of_nat_small)
  then have n: "1 \<le> n" using c(1) by (cases c) (auto simp: word_le_nat_alt)
  from receive_indicate_effect [OF m(1) f m(2) n, of P w c port fl] run
  have "silent (drv e) s'" "filters s' = (filters (drv e))(p \<mapsto>
      f\<lparr>OutstandingSends := OutstandingSends f, OutstandingRcvs := OutstandingRcvs f + n\<rparr>)"
    by auto
  from inv_counters [OF inv ph f(1) this, of "sends_out e"
      "if NDIS_TEST_RECEIVE_CANNOT_PEND P fl then rcvs_out e else (rcvs_out e)(p := rcvs_out e p + length c)"
      "InReceive p n fl # frames e"]
  show ?thesis using m c(3) by (auto simp: algebra_simps)
qed

lemma inv_return:
  assumes inv: "ndis_inv P e" and ph: "phases e p = Some ph" and le: "length c \<le> rcvs_out e p"
    and run: "return_down w p c fl (drv e) = Inr (n, s')"
  shows "ndis_inv P (e\<lparr>drv := s', rcvs_out := (rcvs_out e)(p := rcvs_out e p - length c),
      frames := InReturn p n fl # frames e\<rparr>)"
proof -
  obtain f where f: "filters (drv e) p = Some f"
    using inv ph by (rule inv_filter)
  obtain R where m: "lock_use (log (drv e)) = Some (R, {})" "TrackReceives f"
      "OutstandingSends f = of_nat (sends_out e p)"
      "OutstandingRcvs f = of_nat (rcvs_out e p) + pending_share P p (frames e)"
    using inv f by (rule inv_module)
  from return_down_effect [OF m(1) f m(2), of w c fl] run
  have eff: "silent (drv e) s'" "filters s' = (filters (drv e))(p \<mapsto>
      f\<lparr>OutstandingSends := OutstandingSends f, OutstandingRcvs := OutstandingRcvs f\<rparr>)"
    and n: "n = of_nat (length c)"
    using f by auto
  from inv_counters [OF inv ph f eff, of "sends_out e" "(rcvs_out e)(p := rcvs_out e p - length c)"
      "InReturn p n fl # frames e"]
  show ?thesis using m le n by (auto simp: of_nat_diff_word algebra_simps)
qed

text \<open>A handler that comes back from its call settles its own frame.\<close>

lemma inv_settle:
  assumes inv: "ndis_inv P e" and fr: "fr \<in> set (frames e)" "frame_module fr = p"
    and run: "(case fr of InReceive q n fl \<Rightarrow> receive_settle P w q n fl (drv e)
                        | InReturn q n fl \<Rightarrow> return_settle P w q n fl (drv e)) = Inr s'"
  shows "ndis_inv P (e\<lparr>drv := s', frames := remove1 fr (frames e)\<rparr>)"
proof -
  have "p \<in> dom (filters (drv e))" using inv fr by (auto simp: ndis_inv_def modules_inv_def)
  then obtain f where f: "filters (drv e) p = Some f" by blast
  obtain R where m: "lock_use (log (drv e)) = Some (R, {})" "TrackReceives f"
      "OutstandingSends f = of_nat (sends_out e p)"
      "OutstandingRcvs f = of_nat (rcvs_out e p) + pending_share P p (frames e)"
      "\<exists>ph. phases e p = Some ph"
    using inv f by (rule inv_module)
  obtain ph where ph: "phases e p = Some ph" using m(5) by blast
  have eff: "silent (drv e) s'" "filters s' = (filters (drv e))(p \<mapsto>
      f\<lparr>OutstandingSends := OutstandingSends f, OutstandingRcvs := OutstandingRcvs f - frame_share P p fr\<rparr>)"
  proof -
    have "silent (drv e) s' \<and> filters s' = (filters (drv e))(p \<mapsto>
      f\<lparr>OutstandingRcvs := OutstandingRcvs f - frame_share P p fr\<rparr>)"
    proof (cases fr)
      case (InReceive q n fl)
      then show ?thesis using run fr(2) receive_settle_effect [OF m(1) f m(2), of P w n fl] by auto
    next
      case (InReturn q n fl)
      then show ?thesis using run fr(2) return_settle_effect [OF m(1) f m(2), of P w n fl] by auto
    qed
    then show "silent (drv e) s'" "filters s' = (filters (drv e))(p \<mapsto>
      f\<lparr>OutstandingSends := OutstandingSends f, OutstandingRcvs := OutstandingRcvs f - frame_share P p fr\<rparr>)"
      by simp_all
  qed
  from inv_counters [OF inv ph f eff, of "sends_out e" "rcvs_out e" "remove1 fr (frames e)"]
  show ?thesis using m fr set_remove1_subset [of fr "frames e"]
    by (auto simp: pending_share_remove1 frame_share_other)
qed

lemma inv_device_event:
  assumes "ndis_inv P e" "phases e p = Some ph" "ev \<in> documented_events"
    "FilterDevicePnPEventNotify w p ev (drv e) = Inr s'"
  shows "ndis_inv P (e\<lparr>drv := s'\<rparr>)"
proof -
  obtain f where f: "filters (drv e) p = Some f" using assms(1,2) by (rule inv_filter)
  obtain R where "lock_use (log (drv e)) = Some (R, {})" using assms(1) by (rule inv_lock_use)
  from FilterDevicePnPEventNotify_effect [OF this f assms(3), of w] assms(4)
  have "silent (drv e) s'" "filters s' = filters (drv e)" by auto
  then show ?thesis using inv_silent [OF assms(1)] inv_serving [OF assms(1,2)] by blast
qed

lemma inv_dispatch:
  assumes "ndis_inv P e" "load e = Loaded" "FilterDispatch w irp (drv e) = (st, s')"
  shows "ndis_inv P (e\<lparr>drv := s'\<rparr>)"
proof -
  obtain R where "lock_use (log (drv e)) = Some (R, {})" using assms(1) by (rule inv_lock_use)
  then have "silent (drv e) s'" "filters s' = filters (drv e)"
    using assms(3) by (auto simp: FilterDispatch_def silent_def nfd_simps monitor_simps)
  then show ?thesis using inv_silent [OF assms(1)] assms(2) by simp
qed

lemma inv_unchanged:
  "FilterSetModuleOptions P w p s = Inr (st, s') \<Longrightarrow> s' = s"
  "FilterDeviceIoControl irp s = (st, s') \<Longrightarrow> s' = s"
  by (simp_all add: FilterSetModuleOptions_def FilterDeviceIoControl_def Let_def)

lemmas inv_handlers = inv_load inv_register_options inv_load_back inv_attach inv_attach_fails inv_restart inv_pause inv_detach inv_send
  inv_send_complete inv_receive inv_return inv_device_event inv_dispatch inv_unload inv_unload_done

text \<open>Every step keeps the invariant: one lemma for each handler.\<close>

lemma inv_step:
  assumes "ndis_step P w e e'" "ndis_answers P w" "kernel_lists (kernel_list P)" "ndis_inv P e"
  shows "ndis_inv P e'"
  using assms
proof (cases rule: ndis_step.cases)
  case (receive_back p n fl s')
  then show ?thesis using inv_settle [OF assms(4), of "InReceive p n fl" p] by simp
next
  case (return_back p n fl s')
  then show ?thesis using inv_settle [OF assms(4), of "InReturn p n fl" p] by simp
next
  case (module_options p ph st s')
  then show ?thesis using inv_unchanged(1) assms(4) by fastforce
next
  case (io_control irp st s')
  then show ?thesis using inv_unchanged(2) assms(4) by fastforce
qed (use inv_handlers in \<open>simp_all add: up_def\<close>)

lemma inv_reachable:
  assumes "reachable P w e" "ndis_answers P w" "kernel_lists (kernel_list P)"
  shows "ndis_inv P e"
proof -
  obtain e0 where e0: "initial_env e0" "(ndis_step P w)\<^sup>*\<^sup>* e0 e"
    using assms(1) by (auto simp: reachable_def)
  from e0(2) show ?thesis
  proof (induction rule: rtranclp_induct)
    case base then show ?case using e0(1) by (rule inv_initial)
  next
    case (step y z) then show ?case using inv_step assms(2,3) by blast
  qed
qed

end
