(* ===== verification/Filter_Properties.thy ===== *)
theory Filter_Properties imports Filter_Lifecycle begin

text \<open>
  The properties of the NDIS filter driver: what holds in every state that NDIS can bring it
  into, and what the single handlers do whatever the state. A small platform and a world that
  always answers with success show that the hypotheses can be met.
\<close>

section \<open>A run of the driver on a concrete platform\<close>

definition sample_platform :: platform where
  "sample_platform =
     \<lparr>DBG = True, kernel_list = wdm_lists, FilterModuleList = 16, sizeof_MS_FILTER = 256,
      sizeof_FILTER_DEVICE_EXTENSION = 16, NDIS_OBJECT_TYPE = (\<lambda>_. 1), NDIS_REVISION_1 = (\<lambda>_. 1),
      NDIS_SIZEOF = (\<lambda>_. 64), NDIS_SUPPORT_NDIS61 = True, NDIS_FILTER_CHARACTERISTICS_REVISION_2 = 2,
      NDIS_FILTER_MAJOR_VERSION = 6, NDIS_FILTER_MINOR_VERSION = 1, NdisMedium802_3 = 0,
      NdisMediumWan = 3, NdisMediumWirelessWan = 9, OID_GEN_MINIPORT_RESTART_ATTRIBUTES = 0x1021D,
      IRP_MJ_CREATE = 0, IRP_MJ_CLEANUP = 18,
      IRP_MJ_CLOSE = 2, IRP_MJ_DEVICE_CONTROL = 14,
      NDIS_TEST_SEND_AT_DISPATCH_LEVEL = (\<lambda>fl. odd (unat fl)),
      NDIS_TEST_RECEIVE_AT_DISPATCH_LEVEL = (\<lambda>fl. odd (unat fl)),
      NDIS_TEST_RETURN_AT_DISPATCH_LEVEL = (\<lambda>fl. odd (unat fl)),
      NDIS_TEST_RECEIVE_CAN_PEND = (\<lambda>fl. unat fl < 2), NDIS_TEST_RECEIVE_CANNOT_PEND = (\<lambda>fl. 2 \<le> unat fl),
      NDIS_SET_RETURN_FLAG = (\<lambda>fl b. fl + b), NDIS_SEND_COMPLETE_FLAGS_DISPATCH_LEVEL = 1,
      NDIS_RETURN_FLAGS_DISPATCH_LEVEL = 1\<rparr>"

text \<open>A block above every address ever answered is free.\<close>

definition answered :: "ndis_trace \<Rightarrow> nat" where
  "answered tr = sum_list (map (\<lambda>e. ret_out (snd e)) tr)"

fun sample_world :: ndis_world where
  "sample_world tr (NdisAllocateMemoryWithTagPriority h n) =
     \<lparr>ret_status = 0, ret_out = answered tr + 32, ret_device = 0\<rparr>"
| "sample_world tr (NdisRegisterDeviceEx h hdr n l t x) = \<lparr>ret_status = 0, ret_out = 8, ret_device = 9\<rparr>"
| "sample_world tr _ = \<lparr>ret_status = 0, ret_out = 7, ret_device = 0\<rparr>"

lemma resource_step_blocks:
  "Block q \<in> resource_step R (c, r) \<Longrightarrow> Block q \<in> R \<or> q = ret_out r"
  by (cases c) (auto split: if_splits)

lemma block_answered: "Block q \<in> resources tr \<Longrightarrow> q \<le> answered tr"
proof (induction tr rule: rev_induct)
  case (snoc e tr)
  then show ?case using resource_step_blocks [of q "resources tr" "fst e" "snd e"]
    by (cases e) (auto simp: resources.run_snoc answered_def)
qed (simp add: resources.run_Nil)

lemma sample_answers: "ndis_answers sample_platform sample_world"
  by (auto simp: ndis_answers_def sample_platform_def dest: block_answered)

lemma sample_lists: "kernel_lists (kernel_list sample_platform)"
  by (simp add: sample_platform_def wdm.kernel_lists_axioms)

definition sample_image :: ndis_state where
  "sample_image =
     \<lparr>FilterDriverHandle = 0, FilterDriverObject = 0, NdisFilterDeviceHandle = 0, NdisDeviceObject = 0,
      unload_routine = None, links = (\<lambda>_. \<lparr>Flink = 0, Blink = 0\<rparr>), filters = (\<lambda>_. None),
      bytes = (\<lambda>_. 0), extensions = (\<lambda>_. None), log = []\<rparr>"

definition sample_attach :: ATTACH_PARAMETERS where
  "sample_attach =
     \<lparr>MiniportMediaType = 0, FilterModuleGuidName = \<lparr>Length = 4, MaximumLength = 4, Buffer = 1000\<rparr>,
      BaseMiniportInstanceName = \<lparr>Length = 2, MaximumLength = 2, Buffer = 1004\<rparr>,
      BaseMiniportName = \<lparr>Length = 6, MaximumLength = 6, Buffer = 1006\<rparr>, BaseMiniportIfIndex = 3\<rparr>"

definition env_start :: ndis_env where
  "env_start = \<lparr>drv = sample_image, load = NotLoaded, phases = (\<lambda>_. None), sends_out = (\<lambda>_. 0),
     rcvs_out = (\<lambda>_. 0), frames = []\<rparr>"

definition env_loaded :: ndis_env where
  "env_loaded = env_start\<lparr>drv := snd (DriverEntry sample_platform sample_world 2 sample_image), load := Loaded\<rparr>"

definition env_attached :: ndis_env where
  "env_attached = env_loaded\<lparr>
     drv := snd (FilterAttach sample_platform sample_world 5 2 sample_attach (drv env_loaded)),
     phases := [61 \<mapsto> Paused]\<rparr>"

lemma env_start_reachable: "reachable P w env_start"
  unfolding reachable_def
  by (rule exI [of _ env_start]) (simp add: env_start_def initial_env_def fresh_image_def sample_image_def)

lemma reachable_step: "reachable P w e \<Longrightarrow> ndis_step P w e e' \<Longrightarrow> reachable P w e'"
  unfolding reachable_def by (meson rtranclp.rtrancl_into_rtrancl)

lemmas run_simps = Let_def nfd_simps answered_def

lemma entry_success: "fst (DriverEntry sample_platform sample_world 2 sample_image) = NDIS_STATUS_SUCCESS"
  by (simp add: DriverEntry_def entry_register_def entry_settle_def FilterRegisterDevice_def run_simps sample_image_def)

definition env_registering :: ndis_env where
  "env_registering = env_start\<lparr>drv := snd (entry_register sample_platform sample_world 2 sample_image),
     load := Registering NDIS_STATUS_SUCCESS\<rparr>"

lemma env_registering_reachable: "reachable sample_platform sample_world env_registering"
proof (rule reachable_step [OF env_start_reachable])
  have "fst (entry_register sample_platform sample_world 2 sample_image) = NDIS_STATUS_SUCCESS"
    by (simp add: entry_register_def run_simps sample_image_def)
  then show "ndis_step sample_platform sample_world env_start env_registering"
    using ndis_step.load_driver [of env_start sample_platform sample_world 2 NDIS_STATUS_SUCCESS
        "snd (entry_register sample_platform sample_world 2 sample_image)"]
    by (simp add: env_registering_def env_start_def prod_eq_iff)
qed

lemma env_loaded_reachable: "reachable sample_platform sample_world env_loaded"
proof (rule reachable_step [OF env_registering_reachable])
  have "DriverEntry sample_platform sample_world 2 sample_image =
      entry_settle sample_platform sample_world NDIS_STATUS_SUCCESS (drv env_registering)"
    by (simp add: DriverEntry_def env_registering_def entry_register_def split_def run_simps sample_image_def)
  then have "entry_settle sample_platform sample_world NDIS_STATUS_SUCCESS (drv env_registering) =
      (NDIS_STATUS_SUCCESS, drv env_loaded)"
    using entry_success by (simp add: env_loaded_def prod_eq_iff)
  then show "ndis_step sample_platform sample_world env_registering env_loaded"
    using ndis_step.load_back [of env_registering NDIS_STATUS_SUCCESS sample_platform sample_world
        NDIS_STATUS_SUCCESS "drv env_loaded"]
    by (simp add: env_registering_def env_loaded_def env_start_def)
qed

lemma loaded_fields:
  "answered (log (drv env_loaded)) = 29" "FilterDriverObject (drv env_loaded) = 2"
  "registration_contexts (log (drv env_loaded)) = {2}" "load env_loaded = Loaded"
  by (simp_all add: env_loaded_def DriverEntry_def entry_register_def entry_settle_def FilterRegisterDevice_def
      run_simps sample_image_def registration_contexts_def)

lemma attach_success:
  "fst (FilterAttach sample_platform sample_world 5 2 sample_attach (drv env_loaded)) = NDIS_STATUS_SUCCESS"
  "declared (new_calls (drv env_loaded) (drv env_attached)) 61"
  using loaded_fields
  by (simp_all add: FilterAttach_def attach_body_def env_attached_def Let_def nfd_simps sample_attach_def
      sample_platform_def update_filter_def declared_def new_calls_def)

lemma env_attached_reachable: "reachable sample_platform sample_world env_attached"
proof (rule reachable_step [OF env_loaded_reachable])
  have "ndis_step sample_platform sample_world env_loaded
    (env_loaded\<lparr>drv := drv env_attached, phases := (phases env_loaded)(61 \<mapsto> Paused),
       sends_out := (sends_out env_loaded)(61 := 0), rcvs_out := (rcvs_out env_loaded)(61 := 0)\<rparr>)"
    using loaded_fields attach_success
    by (intro ndis_step.attach [where ctx = 2 and h = 5 and A = sample_attach])
      (simp_all add: env_attached_def prod_eq_iff)
  then show "ndis_step sample_platform sample_world env_loaded env_attached"
    by (simp add: env_attached_def env_loaded_def env_start_def fun_upd_idem)
qed

lemma reachable_inv:
  "reachable sample_platform sample_world e \<Longrightarrow> ndis_inv sample_platform e"
  by (rule inv_reachable [OF _ sample_answers sample_lists])

definition env_running :: ndis_env where
  "env_running = env_attached\<lparr>
     drv := snd (snd (projr (FilterRestart sample_platform sample_world 61 [] (drv env_attached)))),
     phases := [61 \<mapsto> Running]\<rparr>"

lemma env_running_reachable: "reachable sample_platform sample_world env_running"
proof (rule reachable_step [OF env_attached_reachable])
  have ph: "phases env_attached 61 = Some Paused" by (simp add: env_attached_def)
  have inv: "ndis_inv sample_platform env_attached" by (rule reachable_inv [OF env_attached_reachable])
  obtain f where f: "filters (drv env_attached) 61 = Some f" "State f = FilterPaused"
    using inv ph by (rule inv_filter) simp
  obtain R where L: "lock_use (log (drv env_attached)) = Some (R, {})" using inv by (rule inv_lock_use)
  have "\<forall>h. Configuration h \<notin> resources (log (drv env_attached))"
    using inv by (auto simp: ndis_inv_def resource_inv_def split: if_splits)
  from FilterRestart_effect [OF L f _ this, of "[]" sample_platform sample_world]
  have "FilterRestart sample_platform sample_world 61 [] (drv env_attached) =
      Inr (NDIS_STATUS_SUCCESS, [], drv env_running)"
    by (auto simp: env_running_def)
  then have "ndis_step sample_platform sample_world env_attached
      (env_attached\<lparr>drv := drv env_running, phases := (phases env_attached)(61 \<mapsto> Running)\<rparr>)"
    using ph inv_serving [OF inv ph] by (intro ndis_step.restart) auto
  then show "ndis_step sample_platform sample_world env_attached env_running"
    by (simp add: env_running_def env_attached_def)
qed

definition sample_chain :: nbl_chain where
  "sample_chain = [\<lparr>nbl_addr = 500, nbl_status = 0\<rparr>, \<lparr>nbl_addr = 600, nbl_status = 0\<rparr>]"

definition env_sending :: ndis_env where
  "env_sending = env_running\<lparr>
     drv := projr (FilterSendNetBufferLists sample_platform sample_world 61 sample_chain 0 0 (drv env_running)),
     sends_out := (sends_out env_running)(61 := 2)\<rparr>"

lemma sends_out_running: "sends_out env_running 61 = 0" "phases env_running 61 = Some Running"
    "load env_running = Loaded"
  by (simp_all add: env_running_def env_attached_def env_loaded_def env_start_def)

lemma env_sending_reachable: "reachable sample_platform sample_world env_sending"
proof (rule reachable_step [OF env_running_reachable])
  have ph: "phases env_running 61 = Some Running" by (rule sends_out_running)
  have inv: "ndis_inv sample_platform env_running" by (rule reachable_inv [OF env_running_reachable])
  obtain f where f: "filters (drv env_running) 61 = Some f" "State f = FilterRunning"
    using inv ph by (rule inv_filter) simp
  obtain R where L: "lock_use (log (drv env_running)) = Some (R, {})" "TrackSends f"
    using inv f(1) by (rule inv_module)
  from FilterSendNetBufferLists_effect [OF L(1) f L(2), of sample_platform sample_world sample_chain 0 0]
  have "FilterSendNetBufferLists sample_platform sample_world 61 sample_chain 0 0 (drv env_running) =
      Inr (drv env_sending)"
    by (auto simp: env_sending_def)
  from ndis_step.send [OF ph this]
  show "ndis_step sample_platform sample_world env_running env_sending"
    by (simp add: env_sending_def sends_out_running sample_chain_def numeral_2_eq_2)
qed

lemma env_sending_fields: "phases env_sending 61 = Some Running" "load env_sending = Loaded"
    "sends_out env_sending 61 = 2" "up env_sending"
  by (simp_all add: env_sending_def sends_out_running up_def)

section \<open>Every reachable state\<close>

text \<open>
  C1: in every state NDIS can bring the loaded driver into, four views of the attached modules
  agree: the entries of the global list (a well-formed ring), the contexts that exist, the
  modules NDIS knows, and the memory blocks allocated and not yet freed.
\<close>

theorem module_views_agree:
  assumes "reachable P w e" "ndis_answers P w" "kernel_lists (kernel_list P)" "up e"
  shows "\<exists>xs. ring (links (drv e)) (FilterModuleList P) xs \<and> set xs = dom (filters (drv e)) \<and>
    dom (phases e) = dom (filters (drv e)) \<and>
    {p. Block p \<in> resources (log (drv e))} = dom (filters (drv e))"
proof -
  have inv: "ndis_inv P e" by (rule inv_reachable [OF assms(1-3)])
  have "resources (log (drv e)) = Block ` dom (filters (drv e)) \<union> (if load e = Loaded
      then {FilterDriver (FilterDriverHandle (drv e)), Device (NdisFilterDeviceHandle (drv e))}
      else if load e = Registering NDIS_STATUS_SUCCESS then {FilterDriver (FilterDriverHandle (drv e))} else {})"
    using inv by (simp add: ndis_inv_def resource_inv_def)
  then have "{p. Block p \<in> resources (log (drv e))} = dom (filters (drv e))" by auto
  then show ?thesis using inv assms(4) by (auto simp: ndis_inv_def list_inv_def modules_inv_def)
qed

theorem module_views_agree_witness:
  "\<exists>xs. ring (links (drv env_sending)) 16 xs \<and> set xs = dom (filters (drv env_sending)) \<and>
    61 \<in> set xs"
proof -
  obtain xs where xs: "ring (links (drv env_sending)) 16 xs" "set xs = dom (filters (drv env_sending))"
      "dom (phases env_sending) = dom (filters (drv env_sending))"
    using module_views_agree [OF env_sending_reachable sample_answers sample_lists env_sending_fields(4)]
    by (auto simp: sample_platform_def)
  moreover have "61 \<in> dom (phases env_sending)" using env_sending_fields(1) by (simp add: domI)
  ultimately show ?thesis by auto
qed

text \<open>
  C3: as long as NDIS keeps its side of the contract no assertion of the driver fires, in free
  and in checked builds: neither a break point of \<^verbatim>\<open>FILTER_ASSERT\<close> nor a failed \<^verbatim>\<open>ASSERT\<close> is ever in
  the trace, those of the options handler that NDIS calls during the registration, of the handler of
  device events and the empty-list check of the unload routine included.
\<close>

theorem no_assertion_fires:
  assumes "reachable P w e" "ndis_answers P w" "kernel_lists (kernel_list P)"
  shows "breaks (log (drv e)) = 0"
  using inv_reachable [OF assms] by (simp add: ndis_inv_def quiet_inv_def)

theorem no_assertion_fires_witness: "breaks (log (drv env_sending)) = 0"
  by (rule no_assertion_fires [OF env_sending_reachable sample_answers sample_lists])

text \<open>
  C4: the lock discipline. Between two handlers no lock is held; no lock is ever taken twice,
  released by the wrong variant or held across a call to NDIS; the list lock is used only between
  its initialisation and its release. It is also the only lock that is ever initialised: the
  per-module locks are taken without \<^verbatim>\<open>NdisAllocateSpinLock\<close> having been called for them.
\<close>

theorem lock_discipline:
  assumes "reachable P w e" "ndis_answers P w" "kernel_lists (kernel_list P)"
  shows "lock_use (log (drv e)) = Some (if up e then {FilterListLock} else {}, {})"
  using inv_reachable [OF assms] by (simp add: ndis_inv_def locks_inv_def)

theorem lock_discipline_witness: "lock_use (log (drv env_sending)) = Some ({FilterListLock}, {})"
  using lock_discipline [OF env_sending_reachable sample_answers sample_lists] env_sending_fields(4)
  by simp

text \<open>
  C2: the state and the counters of a module follow NDIS through every interleaving of the data
  path: the state is the phase NDIS has put the module in, the send counter is the number of net
  buffer lists passed down and not yet completed (modulo 2^32), and the receive counter is the
  number indicated and not yet returned plus what the handlers still inside a call will subtract.
\<close>

theorem counters_follow_ndis:
  assumes "reachable P w e" "ndis_answers P w" "kernel_lists (kernel_list P)"
    and "filters (drv e) p = Some f"
  shows "Some (State f) = map_option phase_state (phases e p) \<and>
    OutstandingSends f = of_nat (sends_out e p) \<and>
    OutstandingRcvs f = of_nat (rcvs_out e p) + pending_share P p (frames e)"
  using inv_reachable [OF assms(1-3)] assms(4)
  by (auto simp: ndis_inv_def modules_inv_def module_ok_def)

theorem counters_follow_ndis_witness:
  "\<exists>f. filters (drv env_sending) 61 = Some f \<and> State f = FilterRunning \<and> OutstandingSends f = 2"
proof -
  obtain f where f: "filters (drv env_sending) 61 = Some f"
    using reachable_inv [OF env_sending_reachable] env_sending_fields(1) by (rule inv_filter)
  from counters_follow_ndis [OF env_sending_reachable sample_answers sample_lists f]
  show ?thesis using f env_sending_fields by auto
qed

text \<open>
  No call that the contract allows faults or fails: every handler of the data path, the
  module options and the device events go through for every module in either phase, a
  running module can be paused, and a paused one restarted or detached, with success.
\<close>

theorem contract_calls_succeed:
  assumes "reachable P w e" "ndis_answers P w" "kernel_lists (kernel_list P)" "phases e p = Some ph"
  shows "(\<exists>s'. FilterSendNetBufferLists P w p c port fl (drv e) = Inr s') \<and>
    (\<exists>s'. FilterSendNetBufferListsComplete P w p c fl (drv e) = Inr s') \<and>
    (\<exists>s'. FilterReceiveNetBufferLists P w p c port n fl (drv e) = Inr s') \<and>
    (\<exists>s'. FilterReturnNetBufferLists P w p c fl (drv e) = Inr s') \<and>
    (\<exists>s'. FilterSetModuleOptions P w p (drv e) = Inr (NDIS_STATUS_SUCCESS, s')) \<and>
    (\<exists>s'. FilterDevicePnPEventNotify w p ev (drv e) = Inr s') \<and>
    (\<exists>s'. FilterPause w p (drv e) = Inr (NDIS_STATUS_SUCCESS, s')) \<and>
    (\<exists>s' attrs'. FilterRestart P w p attrs (drv e) = Inr (NDIS_STATUS_SUCCESS, attrs', s')) \<and>
    (\<exists>s'. FilterDetach P w p (drv e) = Inr s')"
proof -
  obtain f where f: "filters (drv e) p = Some f"
    using inv_reachable [OF assms(1-3)] assms(4) by (rule inv_filter)
  note calls = FilterSendNetBufferLists_def FilterSendNetBufferListsComplete_def FilterPause_def
    FilterDetach_def FilterRestart_def FilterSetModuleOptions_def
  have "\<exists>s'. FilterReceiveNetBufferLists P w p c port n fl (drv e) = Inr s'"
    by (auto simp: FilterReceiveNetBufferLists_def receive_indicate_def receive_settle_def Let_def
        nfd_simps f)
  moreover have "\<exists>s'. FilterReturnNetBufferLists P w p c fl (drv e) = Inr s'"
    by (auto simp: FilterReturnNetBufferLists_def return_down_def return_settle_def Let_def nfd_simps f)
  moreover have "\<exists>s'. FilterDevicePnPEventNotify w p ev (drv e) = Inr s'"
    by (cases ev) (simp_all add: FilterDevicePnPEventNotify_def Let_def f ndis_do_eq FILTER_ASSERT_def)
  ultimately show ?thesis by (simp add: calls Let_def split_def f ndis_do_eq FILTER_ASSERT_def)
qed

theorem contract_calls_succeed_witness:
  "(\<exists>s'. FilterReceiveNetBufferLists sample_platform sample_world 61 sample_chain 0 2 3 (drv env_sending) = Inr s') \<and>
   (\<exists>s'. FilterDetach sample_platform sample_world 61 (drv env_sending) = Inr s')"
  using contract_calls_succeed [OF env_sending_reachable sample_answers sample_lists env_sending_fields(1)]
  by blast

text \<open>
  C5: when the driver is gone, after an unload or after a load that failed, nothing it acquired is
  left: every block is freed, the filter driver and the control device are deregistered, every
  configuration handle is closed and the list lock is released.
\<close>

theorem unloaded_holds_nothing:
  assumes "reachable P w e" "ndis_answers P w" "kernel_lists (kernel_list P)" "load e = Unloaded"
  shows "resources (log (drv e)) = {} \<and> lock_use (log (drv e)) = Some ({}, {}) \<and>
    filters (drv e) = (\<lambda>_. None)"
  using inv_reachable [OF assms(1-3)] assms(4)
  by (auto simp: ndis_inv_def inv_parts up_def)

definition env_unloaded :: ndis_env where
  "env_unloaded = env_loaded\<lparr>drv := unload_finish sample_platform sample_world
     (unload_deregister sample_world (drv env_loaded)), load := Unloaded\<rparr>"

lemma env_unloaded_reachable: "reachable sample_platform sample_world env_unloaded"
proof (rule reachable_step [OF reachable_step [OF env_loaded_reachable]])
  let ?e = "env_loaded\<lparr>drv := unload_deregister sample_world (drv env_loaded), load := Unloading\<rparr>"
  show "ndis_step sample_platform sample_world env_loaded ?e"
    using loaded_fields(4) by (rule ndis_step.unload)
  show "ndis_step sample_platform sample_world ?e env_unloaded"
    using ndis_step.unload_done [of ?e sample_platform sample_world]
    by (simp add: env_unloaded_def env_loaded_def env_start_def)
qed

theorem unloaded_holds_nothing_witness: "resources (log (drv env_unloaded)) = {}"
  using unloaded_holds_nothing [OF env_unloaded_reachable sample_answers sample_lists]
  by (simp add: env_unloaded_def)

section \<open>Single handlers\<close>

lemma new_calls_log [simp]: "log s' = log s @ ev \<Longrightarrow> new_calls s s' = map fst ev"
  by (simp add: new_calls_def)

text \<open>
  C7: every chain of net buffer lists that is given to the driver leaves it again in the same call
  and exactly once, to the next driver or back where it came from, whatever the state of the
  module; the one exception is a receive that may not pend in a checked build while the module
  does not run, where the chain stays with the caller.
\<close>

theorem chains_leave_once:
  assumes "filters s p = Some f"
  shows "(\<exists>s'. FilterSendNetBufferLists P w p c port fl s = Inr s' \<and>
      concat (map handed_over (new_calls s s')) = map nbl_addr c) \<and>
    (\<exists>s'. FilterSendNetBufferListsComplete P w p c fl s = Inr s' \<and>
      concat (map handed_over (new_calls s s')) = map nbl_addr c) \<and>
    (\<exists>s'. FilterReceiveNetBufferLists P w p c port n fl s = Inr s' \<and>
      concat (map handed_over (new_calls s s')) =
        (if DBG P \<and> State f \<noteq> FilterRunning \<and> \<not> NDIS_TEST_RECEIVE_CAN_PEND P fl then []
         else map nbl_addr c)) \<and>
    (\<exists>s'. FilterReturnNetBufferLists P w p c fl s = Inr s' \<and>
      concat (map handed_over (new_calls s s')) = map nbl_addr c)"
proof -
  have mark: "map nbl_addr (mark_paused c) = map nbl_addr c" by (simp add: mark_paused_map)
  note defs = assms Let_def nfd_simps count_sends_eq mark
  have "\<exists>s'. FilterSendNetBufferLists P w p c port fl s = Inr s' \<and>
      concat (map handed_over (new_calls s s')) = map nbl_addr c"
    by (simp add: FilterSendNetBufferLists_def defs new_calls_def)
  moreover have "\<exists>s'. FilterSendNetBufferListsComplete P w p c fl s = Inr s' \<and>
      concat (map handed_over (new_calls s s')) = map nbl_addr c"
    by (simp add: FilterSendNetBufferListsComplete_def defs new_calls_def)
  moreover have "\<exists>s'. FilterReceiveNetBufferLists P w p c port n fl s = Inr s' \<and>
      concat (map handed_over (new_calls s s')) =
        (if DBG P \<and> State f \<noteq> FilterRunning \<and> \<not> NDIS_TEST_RECEIVE_CAN_PEND P fl then []
         else map nbl_addr c)"
    by (simp add: FilterReceiveNetBufferLists_def receive_indicate_def receive_settle_def defs new_calls_def)
  moreover have "\<exists>s'. FilterReturnNetBufferLists P w p c fl s = Inr s' \<and>
      concat (map handed_over (new_calls s s')) = map nbl_addr c"
    by (simp add: FilterReturnNetBufferLists_def return_down_def return_settle_def defs new_calls_def)
  ultimately show ?thesis by blast
qed

lemma sample_filter:
  obtains f where "filters (drv env_sending) 61 = Some f" "State f = FilterRunning"
    "TrackSends f" "TrackReceives f"
proof -
  have inv: "ndis_inv sample_platform env_sending" by (rule reachable_inv [OF env_sending_reachable])
  obtain f where f: "filters (drv env_sending) 61 = Some f" "State f = FilterRunning"
      "module_ok sample_platform env_sending 61 f"
    using inv env_sending_fields(1) by (rule inv_filter) simp
  then show ?thesis using that by (simp add: module_ok_def)
qed

theorem chains_leave_once_witness:
  "\<exists>s'. FilterReceiveNetBufferLists sample_platform sample_world 61 sample_chain 0 2 3 (drv env_sending) = Inr s' \<and>
    concat (map handed_over (new_calls (drv env_sending) s')) = [500, 600]"
proof -
  obtain f where f: "filters (drv env_sending) 61 = Some f" "State f = FilterRunning"
    by (rule sample_filter)
  from chains_leave_once [OF f(1), of sample_platform sample_world sample_chain 0 3 2]
  show ?thesis using f(2) by (auto simp: sample_chain_def)
qed

text \<open>
  In a checked build a module that does not run refuses a send: the chain is completed to the
  upper layer with every status set to paused, at the level it was sent at, and no counter moves.
  In a free build the state is not looked at and the chain is counted and passed down.
\<close>

theorem stopped_module_refuses_sends:
  assumes "filters s p = Some f" "State f \<noteq> FilterRunning"
  shows "\<exists>s'. FilterSendNetBufferLists P w p c port fl s = Inr s' \<and>
    (if DBG P
     then filters s' = filters s \<and>
       last (new_calls s s') = NdisFSendNetBufferListsComplete (FilterHandle f)
         (map (\<lambda>b. b\<lparr>nbl_status := NDIS_STATUS_PAUSED\<rparr>) c)
         (if NDIS_TEST_SEND_AT_DISPATCH_LEVEL P fl then NDIS_SEND_COMPLETE_FLAGS_DISPATCH_LEVEL P else 0)
     else last (new_calls s s') = NdisFSendNetBufferLists (FilterHandle f) c port fl \<and>
       (TrackSends f \<longrightarrow> filters s' p =
          Some (f\<lparr>OutstandingSends := OutstandingSends f + of_nat (length c)\<rparr>)))"
  using assms
  by (simp add: FilterSendNetBufferLists_def Let_def nfd_simps count_sends_eq mark_paused_map new_calls_def)

theorem stopped_module_refuses_sends_witness:
  "\<exists>s'. FilterSendNetBufferLists sample_platform sample_world 61 sample_chain 0 1 (drv env_attached) = Inr s' \<and>
    last (new_calls (drv env_attached) s') = NdisFSendNetBufferListsComplete 5
      [\<lparr>nbl_addr = 500, nbl_status = NDIS_STATUS_PAUSED\<rparr>, \<lparr>nbl_addr = 600, nbl_status = NDIS_STATUS_PAUSED\<rparr>] 1"
proof -
  obtain f where f: "filters (drv env_attached) 61 = Some f" "State f \<noteq> FilterRunning" "FilterHandle f = 5"
    using loaded_fields
    by (auto simp: FilterAttach_def attach_body_def env_attached_def Let_def nfd_simps sample_attach_def
      sample_platform_def update_filter_def attached_filter_fields)
  from stopped_module_refuses_sends [OF f(1,2), of sample_platform sample_world sample_chain 0 1] f(3)
  show ?thesis by (auto simp: sample_chain_def sample_platform_def)
qed

text \<open>
  C8: in either build, whatever the state of the module and at any value of the counters (they wrap), the data
  path gives back what it counts, when NDIS passes with a receive the number of net buffer lists in its
  chain. A send that the driver refuses (a checked build, a module that does not run) changes no module; any
  other send followed by the completion of the same chain leaves every module as it was. A receive that is
  refused or may not pend leaves every module as it was by itself, and any other does so once the same chain
  is returned.
\<close>

theorem data_path_balances:
  fixes P :: platform and f :: MS_FILTER
  defines "refused \<equiv> DBG P \<and> State f \<noteq> FilterRunning"
  assumes "filters s p = Some f" "n = of_nat (length c)"
  shows "(\<exists>s1. FilterSendNetBufferLists P w p c port fl s = Inr s1 \<and>
      (if refused then filters s1 = filters s
       else \<exists>s2. FilterSendNetBufferListsComplete P w p c fl' s1 = Inr s2 \<and> filters s2 = filters s)) \<and>
    (\<exists>s1. FilterReceiveNetBufferLists P w p c port n fl s = Inr s1 \<and>
      (if refused \<or> NDIS_TEST_RECEIVE_CANNOT_PEND P fl then filters s1 = filters s
       else \<exists>s2. FilterReturnNetBufferLists P w p c fl' s1 = Inr s2 \<and> filters s2 = filters s))"
proof -
  have same: "(filters s)(p \<mapsto> f) = filters s" using assms(2) by (simp add: fun_upd_idem)
  note defs = Let_def nfd_simps count_sends_eq count_nbls_length assms(2,3) refused_def same
  have "\<exists>s1. FilterSendNetBufferLists P w p c port fl s = Inr s1 \<and>
      (if refused then filters s1 = filters s
       else \<exists>s2. FilterSendNetBufferListsComplete P w p c fl' s1 = Inr s2 \<and> filters s2 = filters s)"
    by (simp add: FilterSendNetBufferLists_def FilterSendNetBufferListsComplete_def defs)
  moreover have "\<exists>s1. FilterReceiveNetBufferLists P w p c port n fl s = Inr s1 \<and>
      (if refused \<or> NDIS_TEST_RECEIVE_CANNOT_PEND P fl then filters s1 = filters s
       else \<exists>s2. FilterReturnNetBufferLists P w p c fl' s1 = Inr s2 \<and> filters s2 = filters s)"
    by (simp add: FilterReceiveNetBufferLists_def receive_indicate_def receive_settle_def
        FilterReturnNetBufferLists_def return_down_def return_settle_def defs)
  ultimately show ?thesis by blast
qed

theorem data_path_balances_witness:
  "\<exists>s1. FilterReceiveNetBufferLists sample_platform sample_world 61 sample_chain 0 2 0 (drv env_sending) = Inr s1 \<and>
    (\<exists>s2. FilterReturnNetBufferLists sample_platform sample_world 61 sample_chain 0 s1 = Inr s2 \<and>
      filters s2 = filters (drv env_sending))"
proof -
  obtain f where f: "filters (drv env_sending) 61 = Some f" "State f = FilterRunning"
    by (rule sample_filter)
  have "(2 :: ULONG) = of_nat (length sample_chain)" by (simp add: sample_chain_def)
  from data_path_balances [OF f(1) this, of sample_platform sample_world 0 0 0]
  show ?thesis using f(2) by (auto simp: sample_platform_def)
qed

text \<open>
  \<^verbatim>\<open>FilterPause\<close> does not wait: it makes no call but those on the module's lock and reports success
  at once with the counters of outstanding sends and receives unchanged, whatever they are.
\<close>

theorem pause_does_not_wait:
  assumes "filters s p = Some f" "State f = FilterRunning"
  shows "\<exists>s'. FilterPause w p s = Inr (NDIS_STATUS_SUCCESS, s') \<and>
    filters s' = (filters s)(p \<mapsto> f\<lparr>State := FilterPaused\<rparr>) \<and>
    new_calls s s' = [NdisAcquireSpinLock (ModuleLock p), NdisReleaseSpinLock (ModuleLock p)]"
  using assms by (simp add: FilterPause_def Let_def nfd_simps new_calls_def)

theorem pause_does_not_wait_witness:
  "\<exists>s' f. FilterPause sample_world 61 (drv env_sending) = Inr (NDIS_STATUS_SUCCESS, s') \<and>
    filters s' 61 = Some f \<and> State f = FilterPaused \<and> OutstandingSends f = 2"
proof -
  obtain f where f: "filters (drv env_sending) 61 = Some f" "State f = FilterRunning"
    by (rule sample_filter)
  obtain R where "OutstandingSends f = of_nat (sends_out env_sending 61)"
    using reachable_inv [OF env_sending_reachable] f(1) by (rule inv_module)
  with pause_does_not_wait [OF f, of sample_world] show ?thesis
    using env_sending_fields(3) by auto
qed

text \<open>
  \<^verbatim>\<open>FilterRestart\<close> always succeeds and sets the module running, also when the configuration cannot
  be opened; it closes the configuration exactly when it has been opened; and of the restart
  attributes it changes the lookahead size of the first one only.
\<close>

theorem restart_outcome:
  assumes "filters s p = Some f" "State f = FilterPaused" "\<not> DBG P"
  shows "\<exists>s' r. FilterRestart P w p attrs s = Inr (NDIS_STATUS_SUCCESS,
      (case attrs of [] \<Rightarrow> [] | a # as \<Rightarrow> a\<lparr>LookaheadSize := 128\<rparr> # as), s') \<and>
    filters s' = (filters s)(p \<mapsto> f\<lparr>State := FilterRunning\<rparr>) \<and>
    r = w (log s) (NdisOpenConfigurationEx (object_header P CONFIGURATION_object) (FilterDriverHandle s) 0) \<and>
    tl (new_calls s s') = (if ret_status r = NDIS_STATUS_SUCCESS then [NdisCloseConfiguration (ret_out r)] else [])"
  using assms
  by (cases attrs) (simp_all add: FilterRestart_def Let_def nfd_simps new_calls_def)

theorem restart_outcome_witness:
  "\<exists>s'. FilterRestart (sample_platform\<lparr>DBG := False\<rparr>) sample_world 61 [\<lparr>Oid = 1, LookaheadSize = 0\<rparr>]
      (drv env_attached) = Inr (NDIS_STATUS_SUCCESS, [\<lparr>Oid = 1, LookaheadSize = 128\<rparr>], s')"
proof -
  obtain f where f: "filters (drv env_attached) 61 = Some f" "State f = FilterPaused"
    using reachable_inv [OF env_attached_reachable, THEN inv_filter, of 61 Paused]
    by (force simp: env_attached_def)
  from restart_outcome [OF f, of "sample_platform\<lparr>DBG := False\<rparr>" sample_world "[\<lparr>Oid = 1, LookaheadSize = 0\<rparr>]"]
  show ?thesis by auto
qed

section \<open>Attaching and loading\<close>

lemma bytes_at_cong: "(\<And>i. i < n \<Longrightarrow> m (a + i) = m' (b + i)) \<Longrightarrow> bytes_at m a n = bytes_at m' b n"
  by (simp add: bytes_at_def list_eq_iff_nth_eq)

definition moved :: "(addr \<Rightarrow> UCHAR) \<Rightarrow> addr \<Rightarrow> addr \<Rightarrow> nat \<Rightarrow> addr \<Rightarrow> UCHAR" where
  "moved m dst src n = (\<lambda>a. if dst \<le> a \<and> a < dst + n then m (src + (a - dst)) else m a)"

lemma bytes_steps:
  "bytes (NdisMoveMemory dst src n s) = moved (bytes s) dst src n"
  "bytes (update_filter p g s) = bytes s" "bytes (NdisZeroMemory_filter p s) = bytes s"
  by (simp_all add: NdisMoveMemory_def moved_def update_filter_def NdisZeroMemory_filter_def)

lemma moved_in: "i < n \<Longrightarrow> moved m dst src n (dst + i) = m (src + i)"
  by (simp add: moved_def)

lemma moved_out: "a < dst \<or> dst + n \<le> a \<Longrightarrow> moved m dst src n a = m a"
  by (auto simp: moved_def)

text \<open>The range of a name's buffer lies outside the block of \<open>n\<close> bytes at \<open>p\<close>.\<close>

definition outside :: "addr \<Rightarrow> nat \<Rightarrow> NDIS_STRING \<Rightarrow> bool" where
  "outside p n x \<longleftrightarrow> Buffer x + unat (Length x) \<le> p \<or> p + n \<le> Buffer x"

lemma fill_filter_bytes:
  fixes A :: ATTACH_PARAMETERS
  defines "l1 \<equiv> unat (Length (FilterModuleGuidName A))" and "l2 \<equiv> unat (Length (BaseMiniportInstanceName A))"
    and "l3 \<equiv> unat (Length (BaseMiniportName A))"
  assumes "outside p (attach_size P A) (FilterModuleGuidName A)"
    "outside p (attach_size P A) (BaseMiniportInstanceName A)" "outside p (attach_size P A) (BaseMiniportName A)"
  shows "bytes_at (bytes (fill_filter P h A p s)) (p + sizeof_MS_FILTER P) l1 =
      bytes_at (bytes s) (Buffer (FilterModuleGuidName A)) l1 \<and>
    bytes_at (bytes (fill_filter P h A p s)) (p + sizeof_MS_FILTER P + l1) l2 =
      bytes_at (bytes s) (Buffer (BaseMiniportInstanceName A)) l2 \<and>
    bytes_at (bytes (fill_filter P h A p s)) (p + sizeof_MS_FILTER P + l1 + l2) l3 =
      bytes_at (bytes s) (Buffer (BaseMiniportName A)) l3"
proof -
  define M where "M = bytes (fill_filter P h A p s)"
  define b1 where "b1 = p + sizeof_MS_FILTER P"
  define s2 where "s2 = Buffer (BaseMiniportInstanceName A)"
  define s3 where "s3 = Buffer (BaseMiniportName A)"
  define m1 where "m1 = moved (bytes s) b1 (Buffer (FilterModuleGuidName A)) l1"
  define m2 where "m2 = moved m1 (b1 + l1) s2 l2"
  have M: "M = moved m2 (b1 + l1 + l2) s3 l3"
    by (simp add: M_def fill_filter_def Let_def bytes_steps m1_def m2_def b1_def l1_def l2_def l3_def s2_def s3_def)
  have s2: "s2 + l2 \<le> b1 \<or> b1 + l1 + l2 + l3 \<le> s2" and s3: "s3 + l3 \<le> b1 \<or> b1 + l1 + l2 + l3 \<le> s3"
    using assms(5,6) by (auto simp: outside_def attach_size_def l1_def l2_def l3_def b1_def s2_def s3_def)
  have "bytes_at M b1 l1 = bytes_at (bytes s) (Buffer (FilterModuleGuidName A)) l1"
    by (rule bytes_at_cong) (simp add: M m2_def m1_def moved_out moved_in)
  moreover have "bytes_at M (b1 + l1) l2 = bytes_at (bytes s) s2 l2"
  proof (rule bytes_at_cong)
    fix i assume i: "i < l2"
    then have "M (b1 + l1 + i) = m1 (s2 + i)" by (simp add: M m2_def moved_out moved_in)
    also have "\<dots> = bytes s (s2 + i)" unfolding m1_def using s2 i by (intro moved_out) auto
    finally show "M (b1 + l1 + i) = bytes s (s2 + i)" .
  qed
  moreover have "bytes_at M (b1 + l1 + l2) l3 = bytes_at (bytes s) s3 l3"
  proof (rule bytes_at_cong)
    fix i assume i: "i < l3"
    then have "M (b1 + l1 + l2 + i) = m2 (s3 + i)" by (simp add: M moved_in)
    also have "\<dots> = m1 (s3 + i)" unfolding m2_def using s3 i by (intro moved_out) auto
    also have "\<dots> = bytes s (s3 + i)" unfolding m1_def using s3 i by (intro moved_out) auto
    finally show "M (b1 + l1 + l2 + i) = bytes s (s3 + i)" .
  qed
  ultimately show ?thesis by (simp add: M_def b1_def s2_def s3_def)
qed

text \<open>
  C9: a successful attach keeps the three names behind the context, one after the other and within
  the block it has asked for (the size does not wrap), with the contents the caller passed; the
  handle, the interface index and both tracking flags are set, and the counters start at zero.
\<close>

theorem attach_layout:
  assumes run: "FilterAttach P w h ctx A s = (NDIS_STATUS_SUCCESS, s')"
    and p: "p = ret_out (w (log s) (NdisAllocateMemoryWithTagPriority h (of_nat (attach_size P A))))"
    and small: "sizeof_MS_FILTER P < 2 ^ 31"
    and src: "outside p (attach_size P A) (FilterModuleGuidName A)"
      "outside p (attach_size P A) (BaseMiniportInstanceName A)" "outside p (attach_size P A) (BaseMiniportName A)"
  shows "unat (of_nat (attach_size P A) :: ULONG) = attach_size P A \<and>
    (\<exists>f. filters s' p = Some f \<and> State f = FilterPaused \<and> FilterHandle f = h \<and>
      MiniportIfIndex f = BaseMiniportIfIndex A \<and> TrackSends f \<and> TrackReceives f \<and>
      OutstandingSends f = 0 \<and> OutstandingRcvs f = 0 \<and>
      (\<forall>(x, y) \<in> {(FilterModuleName f, FilterModuleGuidName A),
                   (MiniportFriendlyName f, BaseMiniportInstanceName A), (MiniportName f, BaseMiniportName A)}.
         Length x = Length y \<and> MaximumLength x = Length y \<and> p + sizeof_MS_FILTER P \<le> Buffer x \<and>
         Buffer x + unat (Length x) \<le> p + attach_size P A \<and>
         bytes_at (bytes s') (Buffer x) (unat (Length x)) = bytes_at (bytes s) (Buffer y) (unat (Length y))) \<and>
      Buffer (MiniportFriendlyName f) = Buffer (FilterModuleName f) + unat (Length (FilterModuleName f)) \<and>
      Buffer (MiniportName f) = Buffer (MiniportFriendlyName f) + unat (Length (MiniportFriendlyName f)))"
proof -
  have len: "unat (Length x) < 65536" for x using unsigned_less [of "Length x"] by simp
  have "attach_size P A < 2 ^ 32"
    using small len [of "FilterModuleGuidName A"] len [of "BaseMiniportInstanceName A"] len [of "BaseMiniportName A"]
    by (simp add: attach_size_def)
  then have size: "unat (of_nat (attach_size P A) :: ULONG) = attach_size P A" by (simp add: unat_of_nat_small)
  let ?c = "NdisAllocateMemoryWithTagPriority h (of_nat (attach_size P A))"
  have ctx: "ctx = FilterDriverObject s"
    using run by (auto simp: FilterAttach_def attach_body_def Let_def ASSERT_def ndis_do_eq split: if_splits)
  let ?f = "attached_filter P h A p\<lparr>State := FilterPaused\<rparr>"
  have f: "filters s' p = Some ?f"
    and b: "bytes s' = bytes (fill_filter P h A p (s\<lparr>log := log s @ [(?c, w (log s) ?c)]\<rparr>))"
    using run by (auto simp: FilterAttach_def attach_body_def Let_def nfd_simps p ctx update_filter_def
        split: if_splits)
  note bytes = fill_filter_bytes [OF src, of h "s\<lparr>log := log s @ [(?c, w (log s) ?c)]\<rparr>", folded b]
  show ?thesis using size f bytes
    by (simp add: attached_filter_def Let_def zero_MS_FILTER_def attach_size_def add.assoc)
qed

theorem attach_layout_witness:
  "\<exists>f. filters (drv env_attached) 61 = Some f \<and> Length (MiniportName f) = 6 \<and>
    Buffer (MiniportName f) + 6 \<le> 61 + 268"
proof -
  let ?s = "drv env_loaded"
  have run: "FilterAttach sample_platform sample_world 5 2 sample_attach ?s = (NDIS_STATUS_SUCCESS, drv env_attached)"
    using attach_success(1) by (simp add: env_attached_def prod_eq_iff)
  have size: "attach_size sample_platform sample_attach = 268"
    by (simp add: attach_size_def sample_platform_def sample_attach_def)
  have p: "61 = ret_out (sample_world (log ?s)
      (NdisAllocateMemoryWithTagPriority 5 (of_nat (attach_size sample_platform sample_attach))))"
    using loaded_fields by simp
  have src: "outside 61 (attach_size sample_platform sample_attach) x"
    if "x \<in> {FilterModuleGuidName sample_attach, BaseMiniportInstanceName sample_attach, BaseMiniportName sample_attach}" for x
    using that unfolding size by (auto simp: outside_def sample_attach_def)
  have small: "sizeof_MS_FILTER sample_platform < 2 ^ 31" by (simp add: sample_platform_def)
  have "\<exists>f. filters (drv env_attached) 61 = Some f \<and> Length (MiniportName f) = 6 \<and>
      Buffer (MiniportName f) + 6 \<le> 61 + 268"
    using attach_layout [OF run p small src src src] unfolding size by (auto simp: sample_attach_def)
  then show ?thesis by simp
qed

text \<open>
  C10: an attach that fails, for whatever reason, leaves nothing behind: the modules, the list and
  the resources are as they were, so a context allocated before the failure has been freed.
\<close>

theorem failed_attach_leaves_nothing:
  assumes "reachable P w e" "ndis_answers P w" "kernel_lists (kernel_list P)" "load e = Loaded"
    and run: "FilterAttach P w h ctx A (drv e) = (st, s')" and st: "st \<noteq> NDIS_STATUS_SUCCESS"
  shows "filters s' = filters (drv e) \<and> resources (log s') = resources (log (drv e)) \<and>
    (\<exists>xs. ring (links (drv e)) (FilterModuleList P) xs \<and> ring (links s') (FilterModuleList P) xs)"
proof -
  have inv: "ndis_inv P e" by (rule inv_reachable [OF assms(1-3)])
  have L: "lock_use (log (drv e)) = Some ({FilterListLock}, {})" "FilterListLock \<in> {FilterListLock}"
    using inv assms(4) by (simp_all add: ndis_inv_def locks_inv_def up_def)
  have fresh: "\<forall>q. Block q \<notin> resources (log (drv e)) \<longrightarrow> filters (drv e) q = None"
    using inv assms(4) by (auto simp: ndis_inv_def resource_inv_def)
  have same: "filters s' = filters (drv e) \<and> resources (log s') = resources (log (drv e)) \<and>
      (\<forall>a. filters (drv e) a \<noteq> None \<or> a = FilterModuleList P \<longrightarrow> links s' a = links (drv e) a)"
  proof (cases "ctx = FilterDriverObject (drv e)")
    case True
    show ?thesis by (rule FilterAttach_effect(3) [OF L True fresh assms(2) run st])
  next
    case False
    then show ?thesis using run
      by (auto simp: FilterAttach_def attach_body_def Let_def ASSERT_def ndis_do_eq monitor_simps
          split: if_splits)
  qed
  obtain xs where xs: "ring (links (drv e)) (FilterModuleList P) xs" "set xs = dom (filters (drv e))"
    using inv assms(4) by (auto simp: ndis_inv_def list_inv_def up_def)
  have "ring (links s') (FilterModuleList P) xs"
    using same xs(2) by (intro ring_frame [OF xs(1)]) auto
  then show ?thesis using same xs(1) by blast
qed

theorem failed_attach_leaves_nothing_witness:
  "\<exists>st s'. FilterAttach sample_platform sample_world 5 2 (sample_attach\<lparr>MiniportMediaType := 4\<rparr>) (drv env_loaded) =
     (st, s') \<and> st \<noteq> NDIS_STATUS_SUCCESS \<and> filters s' = filters (drv env_loaded)"
proof -
  let ?A = "sample_attach\<lparr>MiniportMediaType := 4\<rparr>"
  have "FilterAttach sample_platform sample_world 5 2 ?A (drv env_loaded) =
      (NDIS_STATUS_INVALID_PARAMETER, drv env_loaded)"
    using loaded_fields(2)
    by (simp add: FilterAttach_def attach_body_def Let_def ASSERT_def sample_platform_def)
  from failed_attach_leaves_nothing [OF env_loaded_reachable sample_answers sample_lists loaded_fields(4) this]
  show ?thesis using \<open>FilterAttach _ _ _ _ _ _ = _\<close> by simp
qed

lemmas entry_defs = DriverEntry_def entry_register_def entry_settle_def FilterRegisterDevice_def Let_def

text \<open>
  C11: a load that fails undoes what it has done, in the reverse order and nothing else: the filter
  driver is deregistered if and only if it had been registered, and the list lock is released
  last.
\<close>

theorem failed_load_undoes:
  assumes "DriverEntry P w d s = (st, s')" "st \<noteq> NDIS_STATUS_SUCCESS"
  shows "\<exists>registered.
    new_calls s s' =
      [NdisAllocateSpinLock FilterListLock, NdisFRegisterFilterDriver d d (filter_characteristics P)] @
      (if registered
       then [NdisRegisterDeviceEx (FilterDriverHandle s') (object_header P DEVICE_OBJECT_ATTRIBUTES_object)
               NTDEVICE_STRING LINKNAME_STRING (dispatch_table P) (sizeof_FILTER_DEVICE_EXTENSION P),
             NdisFDeregisterFilterDriver (FilterDriverHandle s')] else []) @
      [NdisFreeSpinLock FilterListLock] \<and>
    (registered \<longleftrightarrow> (\<exists>r. (NdisFRegisterFilterDriver d d (filter_characteristics P), r) \<in>
       set (drop (length (log s)) (log s')) \<and> ret_status r = NDIS_STATUS_SUCCESS))"
proof (cases "ret_status (w (log s @ [(NdisAllocateSpinLock FilterListLock,
    w (log s) (NdisAllocateSpinLock FilterListLock))])
    (NdisFRegisterFilterDriver d d (filter_characteristics P))) = NDIS_STATUS_SUCCESS")
  case True
  then show ?thesis using assms
    by (intro exI [of _ True])
      (auto simp: entry_defs nfd_simps new_calls_def split: if_splits)
next
  case False
  then show ?thesis using assms
    by (intro exI [of _ False])
      (auto simp: entry_defs nfd_simps new_calls_def split: if_splits)
qed

fun refusing_world :: ndis_world where
  "refusing_world tr (NdisRegisterDeviceEx h hdr n l t x) =
     \<lparr>ret_status = NDIS_STATUS_RESOURCES, ret_out = 0, ret_device = 0\<rparr>"
| "refusing_world tr _ = \<lparr>ret_status = 0, ret_out = 7, ret_device = 0\<rparr>"

theorem failed_load_undoes_witness:
  "NdisFDeregisterFilterDriver 7 \<in>
     set (new_calls sample_image (snd (DriverEntry sample_platform refusing_world 2 sample_image)))"
proof -
  let ?r = "DriverEntry sample_platform refusing_world 2 sample_image"
  have st: "fst ?r = NDIS_STATUS_RESOURCES" "FilterDriverHandle (snd ?r) = 7"
    "length (new_calls sample_image (snd ?r)) = 5"
    by (simp_all add: entry_defs nfd_simps sample_image_def new_calls_def)
  have "?r = (fst ?r, snd ?r)" by (rule prod.collapse [symmetric])
  moreover have "fst ?r \<noteq> NDIS_STATUS_SUCCESS" using st(1) by simp
  ultimately obtain registered where "new_calls sample_image (snd ?r) =
      [NdisAllocateSpinLock FilterListLock,
       NdisFRegisterFilterDriver 2 2 (filter_characteristics sample_platform)] @
      (if registered
       then [NdisRegisterDeviceEx (FilterDriverHandle (snd ?r))
               (object_header sample_platform DEVICE_OBJECT_ATTRIBUTES_object) NTDEVICE_STRING
               LINKNAME_STRING (dispatch_table sample_platform)
               (sizeof_FILTER_DEVICE_EXTENSION sample_platform),
             NdisFDeregisterFilterDriver (FilterDriverHandle (snd ?r))] else []) @
      [NdisFreeSpinLock FilterListLock]"
    using failed_load_undoes by blast
  then show ?thesis using st(2,3) by (cases registered) simp_all
qed

end
