(* ===== verification/Filter_Driver2.thy ===== *)
theory Filter_Driver2 imports Filter_Properties begin

text \<open>
  The cut-down NDIS filter driver \<^verbatim>\<open>src/NetworkFilterDriver2\<close>: a control device, and handlers that let NDIS
  attach, restart, pause and detach modules without doing anything. It has the structures, the globals
  and the calls of the full driver (theory \<open>Nfd_Core\<close>), so the resources monitor of \<open>Filter_Contract\<close>
  reads its traces too. Definitions that share a name with one of the full driver end in 2.
\<close>

section \<open>Constants\<close>

definition FRIENDLY_NAME2 :: string where "FRIENDLY_NAME2 = ''NDIS Sample LightWeight Filter''"
definition UNIQUE_NAME2 :: string where "UNIQUE_NAME2 = ''{5cbf81bd-5055-47cd-9055-a76b2b4e3697}''"
definition SERVICE_NAME2 :: string where "SERVICE_NAME2 = ''NDISLWF''"
definition LINKNAME2 :: string where "LINKNAME2 = CHR 0x5C # ''DosDevices'' @ CHR 0x5C # ''NDISLWF''"
definition NTDEVICE2 :: string where "NTDEVICE2 = CHR 0x5C # ''Device'' @ CHR 0x5C # ''NDISLWF''"

section \<open>The control device\<close>

definition FilterDeregisterDevice2 :: "ndis_world \<Rightarrow> ndis_state \<Rightarrow> ndis_state" where
  "FilterDeregisterDevice2 w s =
     (let s = (if NdisFilterDeviceHandle s \<noteq> NULL
               then ndis_do w (NdisDeregisterDeviceEx (NdisFilterDeviceHandle s)) s else s)
      in s\<lparr>NdisFilterDeviceHandle := NULL\<rparr>)"

text \<open>
  A request packet as the driver reads and writes it: whether its stack location has a file object,
  and the status block.
\<close>

record IRP =
  irp_addr :: addr
  has_FileObject :: bool
  IoStatus_Status :: NTSTATUS
  IoStatus_Information :: ULONG

text \<open>All branches of the switch over the major function are empty.\<close>

definition FilterDispatch2 :: "ndis_world \<Rightarrow> IRP \<Rightarrow> ndis_state \<Rightarrow> NTSTATUS \<times> IRP \<times> ndis_state" where
  "FilterDispatch2 w Irp s =
     (let Status = STATUS_SUCCESS; Irp = Irp\<lparr>IoStatus_Status := Status\<rparr>
      in (Status, Irp, ndis_do w (IoCompleteRequest (irp_addr Irp) Status) s))"

text \<open>
  The assertion reads the extension in checked builds only; following a missing one is a fault. Both
  branches of the switch over the control code are empty.
\<close>

definition FilterDeviceIoControl2 ::
  "platform \<Rightarrow> ndis_world \<Rightarrow> addr \<Rightarrow> IRP \<Rightarrow> ndis_state \<Rightarrow> fault + NTSTATUS \<times> IRP \<times> ndis_state" where
  "FilterDeviceIoControl2 P w DeviceObject Irp s =
     (if \<not> has_FileObject Irp then Inr (STATUS_UNSUCCESSFUL, Irp, s)
      else
        let (e, s) = ndis_ask w (NdisGetDeviceReservedExtension DeviceObject) s in
        if DBG P \<and> extensions s (ret_out e) = None then Inl (BadPointer (ret_out e))
        else Inr (
          let s = ASSERT P w ''FilterDeviceExtension->Signature == FTDR''
                    (Signature (the (extensions s (ret_out e))) = 0x46544452) s;
              Status = STATUS_SUCCESS;
              Irp = Irp\<lparr>IoStatus_Status := Status, IoStatus_Information := 0\<rparr>
          in (Status, Irp, ndis_do w (IoCompleteRequest (irp_addr Irp) Status) s)))"

definition dispatch_table2 :: "platform \<Rightarrow> nat \<Rightarrow> routine option" where
  "dispatch_table2 P =
     (\<lambda>_. None)(IRP_MJ_CREATE P \<mapsto> FilterDispatch_routine,
              IRP_MJ_CLEANUP P \<mapsto> FilterDispatch_routine,
              IRP_MJ_CLOSE P \<mapsto> FilterDispatch_routine,
              IRP_MJ_DEVICE_CONTROL P \<mapsto> FilterDeviceIoControl_routine)"

definition FilterRegisterDevice2 ::
  "platform \<Rightarrow> ndis_world \<Rightarrow> ndis_state \<Rightarrow> NDIS_STATUS \<times> ndis_state" where
  "FilterRegisterDevice2 P w s =
     (let (r, s) = ndis_ask w (NdisRegisterDeviceEx (FilterDriverHandle s)
                     (object_header P DEVICE_OBJECT_ATTRIBUTES_object) NTDEVICE2 LINKNAME2
                     (dispatch_table2 P) (sizeof_FILTER_DEVICE_EXTENSION P)) s;
          s = s\<lparr>NdisDeviceObject := ret_device r, NdisFilterDeviceHandle := ret_out r\<rparr>
      in if ret_status r = NDIS_STATUS_SUCCESS
         then
           let (e, s) = ndis_ask w (NdisGetDeviceReservedExtension (NdisDeviceObject s)) s
           in (ret_status r,
               s\<lparr>extensions := (extensions s)(ret_out e \<mapsto>
                   \<lparr>Signature = 0x46544452, Handle = FilterDriverHandle s\<rparr>)\<rparr>)
         else (ret_status r, s))"

section \<open>Handlers of modules\<close>

definition FilterAttach2 :: "ndis_state \<Rightarrow> NDIS_STATUS \<times> ndis_state" where
  "FilterAttach2 s = (STATUS_SUCCESS, s)"

definition FilterDetach2 :: "ndis_state \<Rightarrow> ndis_state" where
  "FilterDetach2 s = s"

definition FilterRestart2 :: "ndis_state \<Rightarrow> NDIS_STATUS \<times> ndis_state" where
  "FilterRestart2 s = (STATUS_SUCCESS, s)"

definition FilterPause2 :: "ndis_state \<Rightarrow> NDIS_STATUS \<times> ndis_state" where
  "FilterPause2 s = (STATUS_SUCCESS, s)"

section \<open>Loading and unloading\<close>

definition filter_characteristics2 :: "platform \<Rightarrow> FILTER_DRIVER_CHARACTERISTICS" where
  "filter_characteristics2 P =
     \<lparr>Header = (object_header P FILTER_DRIVER_CHARACTERISTICS_object)
        \<lparr>header_Revision :=
           (if NDIS_SUPPORT_NDIS61 P then NDIS_FILTER_CHARACTERISTICS_REVISION_2 P
            else NDIS_REVISION_1 P FILTER_DRIVER_CHARACTERISTICS_object)\<rparr>,
      MajorNdisVersion = NDIS_FILTER_MAJOR_VERSION P, MinorNdisVersion = NDIS_FILTER_MINOR_VERSION P,
      MajorDriverVersion = 1, MinorDriverVersion = 0, Flags = 0,
      FriendlyName = FRIENDLY_NAME2, UniqueName = UNIQUE_NAME2, ServiceName = SERVICE_NAME2,
      SetOptionsHandler = None,
      AttachHandler = Some FilterAttach_routine, DetachHandler = Some FilterDetach_routine,
      RestartHandler = Some FilterRestart_routine, PauseHandler = Some FilterPause_routine,
      SetFilterModuleOptionsHandler = None,
      SendNetBufferListsHandler = None, ReturnNetBufferListsHandler = None,
      SendNetBufferListsCompleteHandler = None, ReceiveNetBufferListsHandler = None,
      DevicePnPEventNotifyHandler = None\<rparr>"

definition DriverUnload2 :: "ndis_world \<Rightarrow> ndis_state \<Rightarrow> ndis_state" where
  "DriverUnload2 w s =
     (let s = FilterDeregisterDevice2 w s in ndis_do w (NdisFDeregisterFilterDriver (FilterDriverHandle s)) s)"

definition DriverEntry2 ::
  "platform \<Rightarrow> ndis_world \<Rightarrow> addr \<Rightarrow> ndis_state \<Rightarrow> NDIS_STATUS \<times> ndis_state" where
  "DriverEntry2 P w driverObject s =
     (let s = s\<lparr>FilterDriverObject := driverObject\<rparr>;
          s = s\<lparr>unload_routine := Some DriverUnload_routine, FilterDriverHandle := NULL\<rparr>;
          (r, s) = ndis_ask w (NdisFRegisterFilterDriver driverObject (FilterDriverObject s)
                     (filter_characteristics2 P)) s;
          s = s\<lparr>FilterDriverHandle := ret_out r\<rparr>
      in if ret_status r \<noteq> NDIS_STATUS_SUCCESS then (ret_status r, s)
         else
           let (st, s) = FilterRegisterDevice2 P w s in
           if st \<noteq> NDIS_STATUS_SUCCESS
           then (st, ndis_do w (NdisFDeregisterFilterDriver (FilterDriverHandle s)) s)
           else (st, s))"

section \<open>Properties\<close>

text \<open>
  C33: From a state in which the driver holds nothing, a load that succeeds holds exactly the registration
  of the filter driver and the control device, and unloading gives both back; a load that fails at
  either step holds nothing.
\<close>

theorem small_filter_load_and_unload:
  assumes run: "DriverEntry2 P w d s = (st, s')" and none: "resources (log s) = {}" and api: "ndis_answers P w"
  shows "if st = NDIS_STATUS_SUCCESS
    then resources (log s') = {FilterDriver (FilterDriverHandle s'), Device (NdisFilterDeviceHandle s')} \<and>
      resources (log (DriverUnload2 w' s')) = {}
    else resources (log s') = {}"
proof -
  let ?c = "NdisFRegisterFilterDriver d d (filter_characteristics2 P)"
  define r1 where "r1 = w (log s) ?c"
  define s1 where "s1 = s\<lparr>FilterDriverObject := d, unload_routine := Some DriverUnload_routine,
      log := log s @ [(?c, r1)], FilterDriverHandle := ret_out r1\<rparr>"
  have s1: "resources (log s1) = (if ret_status r1 = NDIS_STATUS_SUCCESS then {FilterDriver (ret_out r1)} else {})"
    by (simp add: s1_def resources.run_snoc none)
  have body: "DriverEntry2 P w d s = (if ret_status r1 \<noteq> NDIS_STATUS_SUCCESS then (ret_status r1, s1)
      else case FilterRegisterDevice2 P w s1 of (st, s) \<Rightarrow>
        if st \<noteq> NDIS_STATUS_SUCCESS then (st, ndis_do w (NdisFDeregisterFilterDriver (FilterDriverHandle s)) s) else (st, s))"
    by (simp add: DriverEntry2_def Let_def nfd_simps r1_def s1_def)
  show ?thesis
  proof (cases "ret_status r1 = NDIS_STATUS_SUCCESS")
    case False
    then show ?thesis using run s1 by (auto simp: body)
  next
    case True
    obtain st2 s2 where 2: "FilterRegisterDevice2 P w s1 = (st2, s2)" by fastforce
    have h: "FilterDriverHandle s2 = ret_out r1" using 2
      by (auto simp: FilterRegisterDevice2_def Let_def nfd_simps s1_def split: if_splits)
    have dev: "resources (log s2) = (if st2 = NDIS_STATUS_SUCCESS
        then {FilterDriver (ret_out r1), Device (NdisFilterDeviceHandle s2)} else {FilterDriver (ret_out r1)}) \<and>
        (st2 = NDIS_STATUS_SUCCESS \<longrightarrow> NdisFilterDeviceHandle s2 \<noteq> NULL)"
      using 2 s1 True api
      by (auto simp: FilterRegisterDevice2_def Let_def nfd_simps resources.run_snoc ndis_answers_def
          simp flip: append_assoc split: if_splits)
    show ?thesis
    proof (cases "st2 = NDIS_STATUS_SUCCESS")
      case False
      then have "st = st2" "s' = ndis_do w (NdisFDeregisterFilterDriver (ret_out r1)) s2"
        using run 2 True h by (simp_all add: body)
      then show ?thesis using False dev by (simp add: nfd_simps resources.run_snoc)
    next
      case ok: True
      then have "st = st2" "s' = s2" using run 2 True by (simp_all add: body)
      then show ?thesis
        using ok dev h by (auto simp: DriverUnload2_def FilterDeregisterDevice2_def Let_def nfd_simps resources.run_snoc
            simp flip: append_assoc)
    qed
  qed
qed

theorem small_filter_load_and_unload_witness:
  "resources (log (snd (DriverEntry2 sample_platform sample_world 2 sample_image))) = {FilterDriver 7, Device 8} \<and>
   resources (log (DriverUnload2 sample_world (snd (DriverEntry2 sample_platform sample_world 2 sample_image)))) = {}"
proof -
  let ?r = "DriverEntry2 sample_platform sample_world 2 sample_image"
  have r: "fst ?r = NDIS_STATUS_SUCCESS" "FilterDriverHandle (snd ?r) = 7" "NdisFilterDeviceHandle (snd ?r) = 8"
    by (simp_all add: DriverEntry2_def FilterRegisterDevice2_def Let_def nfd_simps sample_image_def)
  have pair: "?r = (fst ?r, snd ?r)" by simp
  have "resources (log sample_image) = {}" by (simp add: sample_image_def resources.run_Nil)
  from small_filter_load_and_unload [OF pair this sample_answers, of sample_world]
  show ?thesis unfolding r by simp
qed

fun io_completion :: "ndis_call \<times> ndis_ret \<Rightarrow> (addr \<times> NTSTATUS) list" where
  "io_completion (IoCompleteRequest p st, r) = [(p, st)]"
| "io_completion _ = []"

definition io_completions :: "ndis_trace \<Rightarrow> (addr \<times> NTSTATUS) list" where
  "io_completions tr = concat (map io_completion tr)"

definition assertion_fired :: "ndis_call \<times> ndis_ret \<Rightarrow> bool" where
  "assertion_fired e \<longleftrightarrow> (\<exists>t. fst e = RtlAssert t)"

text \<open>
  C34: After a successful load, when NDIS always answers the same extension for the control device, a
  device control request never follows a missing extension and no assertion fires on it; it is
  completed exactly once, with success, if it has a file object. One without a file object is answered
  with a failure and never completed.
\<close>

theorem control_request_completion:
  assumes load: "DriverEntry2 P w d s = (NDIS_STATUS_SUCCESS, s')"
    and ext: "\<And>tr. ret_out (w tr (NdisGetDeviceReservedExtension (NdisDeviceObject s'))) = x"
  shows "\<exists>st Irp' t. FilterDeviceIoControl2 P w (NdisDeviceObject s') Irp s' = Inr (st, Irp', t) \<and>
    io_completions (log t) = io_completions (log s') @ (if has_FileObject Irp then [(irp_addr Irp, STATUS_SUCCESS)] else []) \<and>
    st = (if has_FileObject Irp then STATUS_SUCCESS else STATUS_UNSUCCESSFUL) \<and>
    occurrences assertion_fired (log t) = occurrences assertion_fired (log s')"
proof -
  obtain s1 where reg: "FilterRegisterDevice2 P w s1 = (NDIS_STATUS_SUCCESS, s')"
    using load by (auto simp: DriverEntry2_def Let_def nfd_simps split: if_splits prod.splits)
  have "extensions s' x = Some \<lparr>Signature = 0x46544452, Handle = FilterDriverHandle s'\<rparr>"
    using reg ext by (auto simp: FilterRegisterDevice2_def Let_def nfd_simps split: if_splits)
  then show ?thesis
    using ext by (simp add: FilterDeviceIoControl2_def Let_def nfd_simps io_completions_def assertion_fired_def)
qed

theorem control_request_completion_witness:
  "map_sum id (\<lambda>(st, Irp, t). (st, io_completions (log t))) (FilterDeviceIoControl2 sample_platform sample_world 9
     \<lparr>irp_addr = 40, has_FileObject = False, IoStatus_Status = 0, IoStatus_Information = 0\<rparr>
     (snd (DriverEntry2 sample_platform sample_world 2 sample_image))) = Inr (STATUS_UNSUCCESSFUL, [])"
proof -
  let ?r = "DriverEntry2 sample_platform sample_world 2 sample_image"
  have r: "fst ?r = NDIS_STATUS_SUCCESS" "NdisDeviceObject (snd ?r) = 9" "io_completions (log (snd ?r)) = []"
    by (simp_all add: DriverEntry2_def FilterRegisterDevice2_def Let_def nfd_simps sample_image_def io_completions_def)
  have pair: "?r = (NDIS_STATUS_SUCCESS, snd ?r)" using r(1) by (simp add: prod_eq_iff)
  have "ret_out (sample_world tr (NdisGetDeviceReservedExtension (NdisDeviceObject (snd ?r)))) = 7" for tr by simp
  from control_request_completion [OF pair this,
      of "\<lparr>irp_addr = 40, has_FileObject = False, IoStatus_Status = 0, IoStatus_Information = 0\<rparr>"]
  show ?thesis unfolding r by auto
qed

end
