(* ===== verification/Wide_Strings.thy ===== *)
theory Wide_Strings imports Prelude begin

text \<open>
  The string helpers of the controller, \<^verbatim>\<open>src/src/WFPController/Strings\<close>. A
  \<^verbatim>\<open>std::wstring\<close> is a list of 16-bit units and a \<^verbatim>\<open>std::string\<close> a list of 8-bit
  units; sizes and positions are natural numbers and \<^verbatim>\<open>npos\<close> is \<open>None\<close>. The members of
  the standard library the file uses (\<^verbatim>\<open>find\<close>, \<^verbatim>\<open>substr\<close>, \<^verbatim>\<open>append\<close>,
  \<^verbatim>\<open>std::remove\<close>, \<^verbatim>\<open>tolower\<close>) are modelled by what the standard says; the code
  page conversions of Win32 and of the C runtime are external calls. An exception is a value of
  \<open>string_error\<close>, and a loop that may run for ever is a \<open>partial_function (option)\<close>, so that
  not returning is the value \<open>None\<close>.
\<close>

section \<open>The parts of the standard library\<close>

type_synonym wchar = "16 word"
type_synonym wstring = "wchar list"
type_synonym cstring = "8 word list"

datatype string_error =
    OutOfRange
  | LengthError
  | RuntimeErrorPointer string
  | Win32Error string DWORD

fun first_match :: "'a list \<Rightarrow> 'a list \<Rightarrow> nat option" where
  "first_match d [] = (if d = [] then Some 0 else None)"
| "first_match d (x # xs) =
     (if prefix d (x # xs) then Some 0 else map_option Suc (first_match d xs))"

definition string_find :: "'a list \<Rightarrow> 'a list \<Rightarrow> nat \<Rightarrow> nat option" where
  "string_find s d pos =
     (if pos \<le> length s then map_option (\<lambda>i. pos + i) (first_match d (drop pos s)) else None)"

text \<open>\<^verbatim>\<open>substr\<close> and the substring form of \<^verbatim>\<open>append\<close> check only the start.\<close>

definition substr :: "'a list \<Rightarrow> nat \<Rightarrow> nat option \<Rightarrow> string_error + 'a list" where
  "substr s pos n =
     (if length s < pos then Inl OutOfRange
      else Inr (case n of None \<Rightarrow> drop pos s | Some k \<Rightarrow> take k (drop pos s)))"

text \<open>
  \<^verbatim>\<open>std::remove\<close> shifts the kept elements to the front and returns the new end; what lies
  behind it is what was there before.
\<close>

definition std_remove :: "'a list \<Rightarrow> 'a \<Rightarrow> 'a list \<times> nat" where
  "std_remove xs w =
     (let kept = filter (\<lambda>x. x \<noteq> w) xs in (kept @ drop (length kept) xs, length kept))"

text \<open>
  \<^verbatim>\<open>tolower\<close> in the C locale. Its argument must be EOF (-1) or fit an unsigned char: \<open>None\<close>
  is the undefined behaviour outside that range.
\<close>

definition c_tolower :: "int \<Rightarrow> int option" where
  "c_tolower c =
     (if c = -1 then Some (-1)
      else if 0 \<le> c \<and> c \<le> 255 then Some (if 65 \<le> c \<and> c \<le> 90 then c + 32 else c)
      else None)"

text \<open>\<^verbatim>\<open>static_cast<int>\<close> of a size: the low 32 bits, read as two's complement.\<close>

definition int_of_size :: "nat \<Rightarrow> int" where
  "int_of_size n = sint (of_nat n :: 32 word)"

lemma int_of_size_small: "n < 2 ^ 31 \<Longrightarrow> int_of_size n = int n"
  by (simp add: int_of_size_def signed_take_bit_int_eq_self sint_uint unat_of_nat_small
      uint_nat take_bit_nat_eq_self)

section \<open>TokeniseString, Replace, Erase\<close>

partial_function (option) tokenise_loop ::
    "'a list \<Rightarrow> 'a list \<Rightarrow> 'a list list \<Rightarrow> (string_error + 'a list list) option" where
  "tokenise_loop delimiter intermediateString results =
     (case string_find intermediateString delimiter 0 of
        None \<Rightarrow> Some (Inr results)
      | Some position \<Rightarrow>
          (case substr intermediateString 0 (Some position) of
             Inl e \<Rightarrow> Some (Inl e)
           | Inr split \<Rightarrow>
               (case substr intermediateString (position + length delimiter) None of
                  Inl e \<Rightarrow> Some (Inl e)
                | Inr rest \<Rightarrow>
                    tokenise_loop delimiter rest
                      (if string_find rest delimiter 0 = None
                       then results @ [split, rest] else results @ [split]))))"

definition TokeniseString ::
    "'a list \<Rightarrow> 'a list \<Rightarrow> (string_error + 'a list list) option" where
  "TokeniseString stringToTokenise delimiter =
     (if string_find stringToTokenise delimiter 0 = None
      then Some (Inr [stringToTokenise])
      else tokenise_loop delimiter stringToTokenise [])"

partial_function (option) replace_loop ::
    "'a list \<Rightarrow> 'a list \<Rightarrow> 'a list \<Rightarrow> 'a list \<Rightarrow> nat \<Rightarrow> (string_error + 'a list) option" where
  "replace_loop source from to newString lastPos =
     (case string_find source from lastPos of
        None \<Rightarrow>
          (case substr source lastPos None of
             Inl e \<Rightarrow> Some (Inl e)
           | Inr rest \<Rightarrow> Some (Inr (newString @ rest)))
      | Some findPos \<Rightarrow>
          (case substr source lastPos (Some (findPos - lastPos)) of
             Inl e \<Rightarrow> Some (Inl e)
           | Inr part \<Rightarrow>
               replace_loop source from to (newString @ part @ to) (findPos + length from)))"

definition Replace :: "'a list \<Rightarrow> 'a list \<Rightarrow> 'a list \<Rightarrow> (string_error + 'a list) option" where
  "Replace source from to = replace_loop source from to [] 0"

definition Erase :: "'a list \<Rightarrow> 'a \<Rightarrow> 'a list" where
  "Erase source what = (let (xs, new_end) = std_remove source what in take new_end xs)"

section \<open>DoCaseInsensitiveMatch\<close>

text \<open>
  \<^verbatim>\<open>std::transform\<close> with \<^verbatim>\<open>tolower\<close>: each unit is converted to int (a wide unit is
  unsigned, a char is signed), mapped and converted back. One undefined call makes the whole
  undefined.
\<close>

definition lower_wide :: "wstring \<Rightarrow> wstring option" where
  "lower_wide s = those (map (\<lambda>c. map_option word_of_int (c_tolower (uint c))) s)"

definition lower_narrow :: "cstring \<Rightarrow> cstring option" where
  "lower_narrow s = those (map (\<lambda>c. map_option word_of_int (c_tolower (sint c))) s)"

definition DoCaseInsensitiveMatch_wide :: "wstring \<Rightarrow> wstring \<Rightarrow> bool option" where
  "DoCaseInsensitiveMatch_wide str1 str2 =
     (case lower_wide str1 of None \<Rightarrow> None
      | Some a \<Rightarrow> (case lower_wide str2 of None \<Rightarrow> None | Some b \<Rightarrow> Some (a = b)))"

definition DoCaseInsensitiveMatch_narrow :: "cstring \<Rightarrow> cstring \<Rightarrow> bool option" where
  "DoCaseInsensitiveMatch_narrow str1 str2 =
     (case lower_narrow str1 of None \<Rightarrow> None
      | Some a \<Rightarrow> (case lower_narrow str2 of None \<Rightarrow> None | Some b \<Rightarrow> Some (a = b)))"

section \<open>Code page conversions\<close>

text \<open>
  The external calls: code page, flags, source units, the count passed with them, and the size of the
  output buffer (\<open>None\<close> for the null buffer of size 0).
\<close>

definition CP_UTF8 :: DWORD where "CP_UTF8 = 65001"
definition WC_NO_BEST_FIT_CHARS :: DWORD where "WC_NO_BEST_FIT_CHARS = 0x400"

datatype conv_call =
    WideCharToMultiByte DWORD DWORD wstring int "int option"
  | MultiByteToWideChar DWORD DWORD cstring int "int option"
  | GetLastError
  | Mbrlen
  | Wcsrtombs_s wstring nat
  | Mbsrtowcs_s cstring nat

record conv_ret =
  conv_int :: int
  conv_bytes :: cstring
  conv_units :: wstring
  conv_code :: DWORD

type_synonym conv_trace = "(conv_call, conv_ret) trace"
type_synonym conv_world = "(conv_call, conv_ret) world"

text \<open>A call writes its output over the front of the buffer and never past its end.\<close>

definition fill_buffer :: "'a list \<Rightarrow> 'a list \<Rightarrow> 'a list" where
  "fill_buffer buf out = take (length buf) out @ drop (length out) buf"

definition ConvertString_wide ::
    "conv_world \<Rightarrow> wstring \<Rightarrow> conv_trace \<Rightarrow> (string_error + cstring) \<times> conv_trace" where
  "ConvertString_wide w wstr tr =
     (if wstr = [] then (Inr [], tr)
      else
        let n = int_of_size (length wstr);
            c1 = WideCharToMultiByte CP_UTF8 WC_NO_BEST_FIT_CHARS wstr n None;
            (r1, tr1) = ask w c1 tr;
            sizeInBytes = conv_int r1
        in if sizeInBytes = 0
           then let (e, tr') = ask w GetLastError tr1
                in (Inl (Win32Error ''WideCharToMultiByte() [1] failed'' (conv_code e)), tr')
           else if sizeInBytes < 0 then (Inl LengthError, tr1)
           else
             let strTo = replicate (nat sizeInBytes) 0;
                 c2 = WideCharToMultiByte CP_UTF8 WC_NO_BEST_FIT_CHARS wstr n (Some (int_of_size (length strTo)));
                 (r, tr2) = ask w c2 tr1
             in if conv_int r = 0
                then let (e, tr') = ask w GetLastError tr2
                     in (Inl (Win32Error ''WideCharToMultiByte() [2] failed'' (conv_code e)), tr')
                else (Inr (fill_buffer strTo (conv_bytes r)), tr2))"

definition ConvertString_narrow ::
    "conv_world \<Rightarrow> cstring \<Rightarrow> conv_trace \<Rightarrow> (string_error + wstring) \<times> conv_trace" where
  "ConvertString_narrow w str tr =
     (if str = [] then (Inr [], tr)
      else
        let n = int_of_size (length str);
            c1 = MultiByteToWideChar CP_UTF8 0 str n None;
            (r1, tr1) = ask w c1 tr;
            sizeInCharacters = conv_int r1
        in if sizeInCharacters = 0
           then let (e, tr') = ask w GetLastError tr1
                in (Inl (Win32Error ''MultiByteToWideChar() [1] failed'' (conv_code e)), tr')
           else if sizeInCharacters < 0 then (Inl LengthError, tr1)
           else
             let wstrTo = replicate (nat sizeInCharacters) 0;
                 c2 = MultiByteToWideChar CP_UTF8 0 str n (Some (int_of_size (length wstrTo)));
                 (r, tr2) = ask w c2 tr1
             in if conv_int r = 0
                then let (e, tr') = ask w GetLastError tr2
                     in (Inl (Win32Error ''MultiByteToWideChar() [2] failed'' (conv_code e)), tr')
                else (Inr (fill_buffer wstrTo (conv_units r)), tr2))"

subsection \<open>The older conversions\<close>

text \<open>
  The scan for an embedded NUL: one pass over the indices, which throws at a NUL that is not
  the last unit and remembers the position of one that is.
\<close>

fun nul_scan ::
    "nat \<Rightarrow> nat \<Rightarrow> 'a::zero list \<Rightarrow> nat option \<Rightarrow> string_error + nat option" where
  "nul_scan len i [] pos = Inr pos"
| "nul_scan len i (c # cs) pos =
     (if c = 0
      then if i \<noteq> len - 1
           then Inl (RuntimeErrorPointer ''Unexpected null terminator found in string'')
           else nul_scan len (Suc i) cs (Some i)
      else nul_scan len (Suc i) cs pos)"

definition ConvertWStringToStringOld ::
    "conv_world \<Rightarrow> wstring \<Rightarrow> conv_trace \<Rightarrow> (string_error + cstring) \<times> conv_trace" where
  "ConvertWStringToStringOld w str tr =
     (if length str = 0 then (Inr [], tr)
      else
        case nul_scan (length str) 0 str None of
          Inl e \<Rightarrow> (Inl e, tr)
        | Inr nullTerminatorPos \<Rightarrow>
            let reservedSize = (if nullTerminatorPos \<noteq> None then length str else length str + 1);
                (_, tr1) = ask w Mbrlen tr;
                (r, tr2) = ask w (Wcsrtombs_s str reservedSize) tr1;
                dest = butlast (fill_buffer (replicate reservedSize 0) (conv_bytes r))
            in if conv_int r \<noteq> 0
               then (Inl (RuntimeErrorPointer ''Failed to convert wchar to char''), tr2)
               else (Inr dest, tr2))"

definition ConvertStringToWStringOld ::
    "conv_world \<Rightarrow> cstring \<Rightarrow> conv_trace \<Rightarrow> (string_error + wstring) \<times> conv_trace" where
  "ConvertStringToWStringOld w str tr =
     (if length str = 0 then (Inr [], tr)
      else
        case nul_scan (length str) 0 str None of
          Inl e \<Rightarrow> (Inl e, tr)
        | Inr nullTerminatorPos \<Rightarrow>
            let reservedSize = (if nullTerminatorPos \<noteq> None then length str else length str + 1);
                (_, tr1) = ask w Mbrlen tr;
                (r, tr2) = ask w (Mbsrtowcs_s str reservedSize) tr1;
                dest = butlast (fill_buffer (replicate reservedSize 0) (conv_units r))
            in if conv_int r \<noteq> 0
               then (Inl (RuntimeErrorPointer ''Failed to convert wchar to char''), tr2)
               else (Inr dest, tr2))"

section \<open>Searching for a substring\<close>

text \<open>What the tokeniser and the replacer rely on: the search reports the first place.\<close>

definition occurs_at :: "'a list \<Rightarrow> nat \<Rightarrow> 'a list \<Rightarrow> bool" where
  "occurs_at d p s \<longleftrightarrow> p + length d \<le> length s \<and> take (length d) (drop p s) = d"

lemma sublist_iff_occurs: "sublist d s \<longleftrightarrow> (\<exists>p. occurs_at d p s)"
proof
  assume "sublist d s"
  then obtain xs ys where "s = xs @ d @ ys" by (auto simp: sublist_def)
  then have "occurs_at d (length xs) s" by (simp add: occurs_at_def)
  then show "\<exists>p. occurs_at d p s" ..
next
  assume "\<exists>p. occurs_at d p s"
  then obtain p where "take (length d) (drop p s) = d" by (auto simp: occurs_at_def)
  then have "s = take p s @ d @ drop (length d) (drop p s)"
    by (metis append_take_drop_id)
  then show "sublist d s" by (metis sublist_appendI)
qed

lemma occurs_at_split:
  assumes "occurs_at d p s"
  shows "take p s @ d @ drop (p + length d) s = s"
proof -
  from assms have "d = take (length d) (drop p s)" by (simp add: occurs_at_def)
  then show ?thesis by (metis add.commute append_take_drop_id drop_drop)
qed

lemma occurs_at_drop:
  "q \<le> p \<Longrightarrow> q \<le> length s \<Longrightarrow> occurs_at d (p - q) (drop q s) \<longleftrightarrow> occurs_at d p s"
  by (auto simp: occurs_at_def)

lemma occurs_at_take: "occurs_at d q (take p s) \<Longrightarrow> occurs_at d q s \<and> q + length d \<le> p"
  by (auto simp: occurs_at_def drop_take min_def split: if_splits)

locale substring_search =
  fixes find :: "'a list \<Rightarrow> 'a list \<Rightarrow> nat \<Rightarrow> nat option"
  assumes find_sound: "find s d pos = Some p \<Longrightarrow> pos \<le> p \<and> occurs_at d p s"
    and find_least: "find s d pos = Some p \<Longrightarrow> pos \<le> q \<Longrightarrow> occurs_at d q s \<Longrightarrow> p \<le> q"
    and find_complete: "find s d pos = None \<Longrightarrow> pos \<le> q \<Longrightarrow> \<not> occurs_at d q s"
begin

lemma find_eq_Some_iff:
  "find s d pos = Some p \<longleftrightarrow>
     pos \<le> p \<and> occurs_at d p s \<and> (\<forall>q. pos \<le> q \<longrightarrow> occurs_at d q s \<longrightarrow> p \<le> q)"
proof (cases "find s d pos")
  case None
  then show ?thesis using find_complete by auto
next
  case (Some r)
  then show ?thesis using find_sound [OF Some] find_least [OF Some] by (auto intro: antisym)
qed

lemma find_eq_None_iff: "find s d 0 = None \<longleftrightarrow> \<not> sublist d s"
  using find_complete [of s d 0] find_sound [of s d 0]
  by (cases "find s d 0") (auto simp: sublist_iff_occurs)

lemma find_empty: "pos \<le> length s \<Longrightarrow> find s [] pos = Some pos"
  by (auto simp: find_eq_Some_iff occurs_at_def)

lemma find_split: "find s d pos = Some p \<Longrightarrow> take p s @ d @ drop (p + length d) s = s"
  by (auto dest: find_sound intro: occurs_at_split)

lemma find_bound: "find s d pos = Some p \<Longrightarrow> p + length d \<le> length s"
  by (auto dest: find_sound simp: occurs_at_def)

lemma find_prefix_free:
  assumes "find s d 0 = Some p" and "d \<noteq> []"
  shows "\<not> sublist d (take p s)"
proof
  assume "sublist d (take p s)"
  then obtain q where "occurs_at d q s" and "q + length d \<le> p"
    by (auto simp: sublist_iff_occurs dest: occurs_at_take)
  with find_least [OF assms(1), of q] assms(2) show False by (cases d) auto
qed

lemma find_from: 
  assumes "pos \<le> length s"
  shows "find s d pos = map_option (\<lambda>i. pos + i) (find (drop pos s) d 0)"
proof (cases "find (drop pos s) d 0")
  case None
  have "find s d pos = None"
  proof (rule ccontr)
    assume "find s d pos \<noteq> None"
    then obtain p where "pos \<le> p" "occurs_at d p s" by (auto dest: find_sound)
    then have "occurs_at d (p - pos) (drop pos s)"
      using assms by (simp add: occurs_at_drop)
    then show False using find_complete [OF None] by blast
  qed
  with None show ?thesis by simp
next
  case (Some i)
  have i: "occurs_at d i (drop pos s)" "\<And>q. occurs_at d q (drop pos s) \<Longrightarrow> i \<le> q"
    using find_sound [OF Some] find_least [OF Some] by auto
  have "occurs_at d (pos + i) s"
    using occurs_at_drop [where q = pos and p = "pos + i" and d = d and s = s] i(1) assms by simp
  moreover have "pos + i \<le> q" if "pos \<le> q" "occurs_at d q s" for q
    using occurs_at_drop [where q = pos and p = q and d = d and s = s] i(2) [of "q - pos"] that assms
    by auto
  ultimately have "find s d pos = Some (pos + i)" by (simp add: find_eq_Some_iff)
  with Some show ?thesis by simp
qed

end

lemma first_match_Some:
  "first_match d s = Some p \<Longrightarrow> occurs_at d p s \<and> (\<forall>q. occurs_at d q s \<longrightarrow> p \<le> q)"
proof (induction s arbitrary: p)
  case Nil
  then show ?case by (auto simp: occurs_at_def split: if_splits)
next
  case (Cons x xs)
  show ?case
  proof (cases "prefix d (x # xs)")
    case True
    with Cons.prems show ?thesis
      by (auto simp: occurs_at_def prefix_def dest: arg_cong [where f = length])
  next
    case False
    with Cons.prems obtain r where r: "first_match d xs = Some r" "p = Suc r" by auto
    have "Suc r \<le> q" if "occurs_at d q (x # xs)" for q
    proof (cases q)
      case 0
      with that False show ?thesis
        by (metis append_take_drop_id drop0 occurs_at_def prefixI)
    next
      case (Suc q')
      with that Cons.IH [OF r(1)] show ?thesis by (auto simp: occurs_at_def)
    qed
    with r Cons.IH [OF r(1)] show ?thesis by (auto simp: occurs_at_def)
  qed
qed

lemma first_match_None: "first_match d s = None \<Longrightarrow> \<not> occurs_at d q s"
proof (induction s arbitrary: q)
  case Nil
  then show ?case by (auto simp: occurs_at_def split: if_splits)
next
  case (Cons x xs)
  then have "\<not> prefix d (x # xs)" and "first_match d xs = None" by (auto split: if_splits)
  with Cons.IH show ?case
    by (cases q) (auto simp: occurs_at_def, metis append_take_drop_id prefixI)
qed

interpretation wfind: substring_search string_find
proof unfold_locales
  fix s d :: "'a list" and pos p q :: nat
  have drop: "occurs_at d (q - pos) (drop pos s)" if "pos \<le> q" "pos \<le> length s" "occurs_at d q s"
    using that by (simp add: occurs_at_drop)
  show "pos \<le> p \<and> occurs_at d p s" if "string_find s d pos = Some p"
    using that by (auto simp: string_find_def occurs_at_def add.commute split: if_splits
        dest!: first_match_Some)
  show "p \<le> q" if "string_find s d pos = Some p" "pos \<le> q" "occurs_at d q s"
    using that drop by (force simp: string_find_def split: if_splits dest!: first_match_Some)
  show "\<not> occurs_at d q s" if "string_find s d pos = None" "pos \<le> q"
    using that drop first_match_None [of d "drop pos s" "q - pos"]
    by (auto simp: string_find_def occurs_at_def split: if_splits)
qed


section \<open>Splitting and joining\<close>

fun join :: "'a list \<Rightarrow> 'a list list \<Rightarrow> 'a list" where
  "join sep [] = []"
| "join sep [x] = x"
| "join sep (x # y # ys) = x @ sep @ join sep (y # ys)"

lemma join_Cons: "ys \<noteq> [] \<Longrightarrow> join sep (x # ys) = x @ sep @ join sep ys"
  by (cases ys) auto

text \<open>
  The reference: cut at the first delimiter and continue behind it. An empty delimiter has no
  reference split; the function then returns the string whole.
\<close>

function split_at_delimiter :: "'a list \<Rightarrow> 'a list \<Rightarrow> 'a list list" where
  "split_at_delimiter d s =
     (if d = [] then [s]
      else case string_find s d 0 of
             None \<Rightarrow> [s]
           | Some p \<Rightarrow> take p s # split_at_delimiter d (drop (p + length d) s))"
  by pat_completeness auto
termination
  by (relation "measure (\<lambda>(d, s). length s)") (auto dest!: wfind.find_bound simp: neq_Nil_conv)

declare split_at_delimiter.simps [simp del]

lemma split_at_delimiter_None:
  "string_find s d 0 = None \<Longrightarrow> split_at_delimiter d s = [s]"
  by (simp add: split_at_delimiter.simps)

lemma split_at_delimiter_Some:
  "d \<noteq> [] \<Longrightarrow> string_find s d 0 = Some p \<Longrightarrow>
   split_at_delimiter d s = take p s # split_at_delimiter d (drop (p + length d) s)"
  by (simp add: split_at_delimiter.simps [of d s])

lemma split_at_delimiter_not_Nil [simp]: "split_at_delimiter d s \<noteq> []"
  by (cases "string_find s d 0"; cases "d = []")
     (simp_all add: split_at_delimiter_None split_at_delimiter_Some split_at_delimiter.simps [of "[]"])

lemma split_induct [consumes 1, case_names last more]:
  assumes "d \<noteq> []"
    and "\<And>s. string_find s d 0 = None \<Longrightarrow> P s"
    and "\<And>s p. string_find s d 0 = Some p \<Longrightarrow> d \<noteq> [] \<Longrightarrow> P (drop (p + length d) s) \<Longrightarrow> P s"
  shows "P s"
proof (induction s rule: length_induct)
  case (1 s)
  show ?case
  proof (cases "string_find s d 0")
    case None
    then show ?thesis by (rule assms(2))
  next
    case (Some p)
    moreover have "length (drop (p + length d) s) < length s"
      using wfind.find_bound [OF Some] assms(1) by (auto simp: neq_Nil_conv)
    ultimately show ?thesis using 1 assms(1,3) by blast
  qed
qed

lemma join_split: "d \<noteq> [] \<Longrightarrow> join d (split_at_delimiter d s) = s"
  by (induction s rule: split_induct)
     (simp_all add: split_at_delimiter_None split_at_delimiter_Some join_Cons wfind.find_split)

lemma split_tokens_free:
  "d \<noteq> [] \<Longrightarrow> t \<in> set (split_at_delimiter d s) \<Longrightarrow> \<not> sublist d t"
  by (induction s rule: split_induct)
     (auto simp: split_at_delimiter_None split_at_delimiter_Some wfind.find_eq_None_iff
       dest: wfind.find_prefix_free)

section \<open>What the loops compute\<close>

lemma substr_prefix [simp]: "substr s 0 (Some p) = Inr (take p s)"
  by (simp add: substr_def)

lemma substr_rest: "pos \<le> length s \<Longrightarrow> substr s pos None = Inr (drop pos s)"
  by (simp add: substr_def)

lemma tokenise_loop_eq:
  assumes "d \<noteq> []"
  shows "string_find s d 0 \<noteq> None \<Longrightarrow>
    tokenise_loop d s rs = Some (Inr (rs @ split_at_delimiter d s))"
  using assms
proof (induction s arbitrary: rs rule: split_induct)
  case (last s)
  then show ?case by simp
next
  case (more s p)
  have "p + length d \<le> length s" using more.hyps(1) by (rule wfind.find_bound)
  then show ?case
    using more assms
    by (cases "string_find (drop (p + length d) s) d 0 = None")
       (simp_all add: tokenise_loop.simps [of d s rs]
         tokenise_loop.simps [of d "drop (p + length d) s" "rs @ [take p s, drop (p + length d) s]"]
         substr_rest split_at_delimiter_Some split_at_delimiter_None)
qed

lemma TokeniseString_eq: "d \<noteq> [] \<Longrightarrow> TokeniseString s d = Some (Inr (split_at_delimiter d s))"
  by (simp add: TokeniseString_def tokenise_loop_eq split_at_delimiter_None)

lemma replace_loop_eq:
  assumes "from \<noteq> []"
  shows "replace_loop (pre @ s) from to ns (length pre) =
    Some (Inr (ns @ join to (split_at_delimiter from s)))"
  using assms
proof (induction s arbitrary: pre ns rule: split_induct)
  case (last s)
  have "string_find (pre @ s) from (length pre) = None"
    using last.hyps wfind.find_from [of "length pre" "pre @ s" "from"] by simp
  with last show ?case
    by (simp add: replace_loop.simps [of "pre @ s" "from" to ns "length pre"] substr_def split_at_delimiter_None)
next
  case (more s p)
  have find: "string_find (pre @ s) from (length pre) = Some (length pre + p)"
    using more.hyps wfind.find_from [of "length pre" "pre @ s" "from"] by simp
  have len: "p + length from \<le> length s" using more.hyps(1) by (rule wfind.find_bound)
  have "replace_loop (pre @ s) from to (ns @ take p s @ to) (length pre + p + length from) =
      Some (Inr ((ns @ take p s @ to) @ join to (split_at_delimiter from (drop (p + length from) s))))"
    using more.IH [of "pre @ take (p + length from) s" "ns @ take p s @ to"] len
    by (simp add: add.assoc)
  then show ?case
    using more.hyps find assms
    by (simp add: replace_loop.simps [of "pre @ s" "from" to ns "length pre"] substr_def split_at_delimiter_Some join_Cons)
qed

lemma Replace_eq: "from \<noteq> [] \<Longrightarrow> Replace s from to = Some (Inr (join to (split_at_delimiter from s)))"
  using replace_loop_eq [of "from" "[]" s to "[]"] by (simp add: Replace_def)


text \<open>
  With an empty delimiter the search succeeds at once and forever: no fuel is enough.
\<close>

lemma tokenise_loop_returns: "tokenise_loop d s rs = Some r \<Longrightarrow> d \<noteq> []"
proof (rule tokenise_loop.raw_induct [where P = "\<lambda>d s rs r. d \<noteq> []"], goal_cases)
  case (1 f d s rs r)
  then show ?case by (cases d) (auto simp: wfind.find_empty substr_rest)
qed

lemma replace_loop_returns:
  "replace_loop s from to ns pos = Some r \<Longrightarrow> pos \<le> length s \<longrightarrow> from \<noteq> []"
proof (rule replace_loop.raw_induct
    [where P = "\<lambda>s from to ns pos r. pos \<le> length s \<longrightarrow> from \<noteq> []"], goal_cases)
  case (1 f s "from" to ns pos r)
  from 1(3) show ?case
    by (cases "from") (auto simp: wfind.find_empty substr_def dest: 1(2))
qed

lemma Erase_filter: "Erase s c = filter (\<lambda>x. x \<noteq> c) s"
  by (simp add: Erase_def std_remove_def Let_def)

lemma find_single:
  "string_find s [c] 0 = Some p \<Longrightarrow>
     filter (\<lambda>x. x \<noteq> c) s = take p s @ filter (\<lambda>x. x \<noteq> c) (drop (Suc p) s)"
proof -
  assume find: "string_find s [c] 0 = Some p"
  have "c \<notin> set (take p s)"
    using wfind.find_prefix_free [OF find] by (auto simp: sublist_def in_set_conv_decomp)
  then have "filter (\<lambda>x. x \<noteq> c) (take p s) = take p s" by (auto intro: filter_True)
  then show ?thesis
    using arg_cong [OF wfind.find_split [OF find], of "filter (\<lambda>x. x \<noteq> c)"] by simp
qed

lemma join_Nil_split_single: "join [] (split_at_delimiter [c] s) = filter (\<lambda>x. x \<noteq> c) s"
proof -
  have "[c] \<noteq> []" by simp
  then show ?thesis
  proof (induction s rule: split_induct)
    case (last s)
    then have "c \<notin> set s" by (auto simp: wfind.find_eq_None_iff sublist_def in_set_conv_decomp)
    then have "filter (\<lambda>x. x \<noteq> c) s = s" by (auto intro: filter_True)
    with last show ?case by (simp add: split_at_delimiter_None)
  next
    case (more s p)
    then show ?case by (simp add: split_at_delimiter_Some join_Cons find_single)
  qed
qed

section \<open>Case folding\<close>

lemma those_map: "those (map f xs) = (if \<forall>x\<in>set xs. f x \<noteq> None then Some (map (\<lambda>x. the (f x)) xs) else None)"
  by (induction xs) (auto split: option.splits)

definition lower_unit :: "'a::len word \<Rightarrow> 'a word" where
  "lower_unit c = (if 65 \<le> c \<and> c \<le> 90 then c + 32 else c)"

lemma c_tolower_wide:
  fixes c :: wchar
  shows "map_option word_of_int (c_tolower (uint c)) = (if 255 < c then None else Some (lower_unit c))"
proof -
  have "word_of_int (uint c + 32) = c + 32" by (simp add: wi_hom_add [symmetric])
  moreover have "uint c \<noteq> -1" using uint_ge_0 [of c] by linarith
  ultimately show ?thesis
    by (simp add: c_tolower_def lower_unit_def word_less_def word_le_def not_less)
qed

lemma sint_char:
  fixes c :: "8 word"
  shows "sint c = (if c \<le> 127 then uint c else uint c - 256)"
proof (cases "c \<le> 127")
  case True
  then have "uint c \<le> 127" by (simp add: word_le_def)
  moreover have "-128 \<le> uint c" using uint_ge_0 [of c] by linarith
  ultimately have "signed_take_bit 7 (uint c) = uint c"
    by (intro signed_take_bit_int_eq_self) simp_all
  with True show ?thesis by (simp add: sint_uint)
next
  case False
  have "uint c < 256" using uint_lt2p [of c] by simp
  have "signed_take_bit 7 (uint c) = signed_take_bit 7 (uint c - 256)"
    by (simp add: signed_take_bit_eq_iff_take_bit_eq take_bit_eq_mod)
  also have "\<dots> = uint c - 256"
    using False \<open>uint c < 256\<close> by (intro signed_take_bit_int_eq_self) (simp_all add: word_le_def)
  finally show ?thesis using False by (simp add: sint_uint)
qed

lemma c_tolower_narrow:
  fixes c :: "8 word"
  shows "map_option word_of_int (c_tolower (sint c)) =
     (if 127 < c \<and> c \<noteq> 255 then None else Some (lower_unit c))"
proof -
  have "word_of_int (uint c + 32) = c + 32" by (simp add: wi_hom_add [symmetric])
  moreover have "uint c < 256" using uint_lt2p [of c] by simp
  moreover have "c = 255 \<longleftrightarrow> uint c = 255" by (simp add: word_uint_eq_iff)
  moreover have "uint c \<noteq> -1" using uint_ge_0 [of c] by linarith
  ultimately show ?thesis
    by (auto simp: c_tolower_def lower_unit_def word_less_def word_le_def not_less sint_char)
qed

lemma lower_wide_eq:
  "lower_wide s = (if \<exists>c \<in> set s. 255 < c then None else Some (map lower_unit s))"
  by (auto simp: lower_wide_def those_map c_tolower_wide)

lemma lower_narrow_eq:
  "lower_narrow s =
     (if \<exists>c \<in> set s. 127 < c \<and> c \<noteq> 255 then None else Some (map lower_unit s))"
  by (auto simp: lower_narrow_def those_map c_tolower_narrow)

section \<open>The old conversions\<close>

lemma nul_scan_eq:
  "len = i + length cs \<Longrightarrow> nul_scan len i cs pos =
     (if 0 \<in> set (butlast cs)
      then Inl (RuntimeErrorPointer ''Unexpected null terminator found in string'')
      else Inr (if cs \<noteq> [] \<and> last cs = 0 then Some (len - 1) else pos))"
  by (induction len i cs pos rule: nul_scan.induct) (auto simp: neq_Nil_conv split: if_splits)

lemma length_fill_buffer [simp]: "length (fill_buffer buf out) = length buf"
  by (simp add: fill_buffer_def)

lemma fill_buffer_exact [simp]: "length buf = length out \<Longrightarrow> fill_buffer buf out = out"
  by (simp add: fill_buffer_def)

lemma lower_unit_eq_iff:
  fixes a b :: "'a::len word"
  assumes "8 \<le> LENGTH('a)"
  shows "lower_unit a = lower_unit b \<longleftrightarrow>
     a = b \<or> (65 \<le> a \<and> a \<le> 90 \<and> b = a + 32) \<or> (65 \<le> b \<and> b \<le> 90 \<and> a = b + 32)"
proof -
  have upper: "\<not> (65 \<le> c + 32 \<and> c + 32 \<le> 90)" if c: "65 \<le> c" "c \<le> 90" for c :: "'a word"
  proof -
    have pow: "(256::nat) \<le> 2 ^ LENGTH('a)"
      using power_increasing [OF assms, of "2::nat"] by simp
    then have "unat (65 :: 'a word) = 65" "unat (90 :: 'a word) = 90" "unat (32 :: 'a word) = 32"
      by (simp_all add: unat_of_nat_small [where 'a = 'a, of 65, simplified]
          unat_of_nat_small [where 'a = 'a, of 90, simplified]
          unat_of_nat_small [where 'a = 'a, of 32, simplified])
    moreover from this c have "unat c \<le> 90" "65 \<le> unat c" by (simp_all add: word_le_nat_alt)
    ultimately show ?thesis using pow by (simp add: word_le_nat_alt unat_word_ariths)
  qed
  show ?thesis using upper by (auto simp: lower_unit_def)
qed

section \<open>The Win32 code page calls\<close>

text \<open>
  The documented behaviour of the two calls for UTF-8, on sources that are not empty. From wide to narrow the flags
  must be 0 or \<^verbatim>\<open>WC_ERR_INVALID_CHARS\<close>, otherwise the call fails with \<^verbatim>\<open>ERROR_INVALID_FLAGS\<close>. From narrow to wide,
  with the flags 0, a null buffer asks for the size of the decoding, and a buffer of that size gets it.
\<close>

definition WC_ERR_INVALID_CHARS :: DWORD where "WC_ERR_INVALID_CHARS = 0x80"
definition ERROR_INVALID_FLAGS :: DWORD where "ERROR_INVALID_FLAGS = 1004"

definition code_page_api :: "(cstring \<Rightarrow> wstring) \<Rightarrow> conv_world \<Rightarrow> bool" where
  "code_page_api dec w \<longleftrightarrow>
     (\<forall>tr flags s n buf. flags \<notin> {0, WC_ERR_INVALID_CHARS} \<longrightarrow>
        (let c = WideCharToMultiByte CP_UTF8 flags s n buf in
         conv_int (w tr c) = 0 \<and> conv_code (w (tr @ [(c, w tr c)]) GetLastError) = ERROR_INVALID_FLAGS)) \<and>
     (\<forall>tr b. b \<noteq> [] \<longrightarrow>
        (let size = int (length (dec b)); fill = MultiByteToWideChar CP_UTF8 0 b (int (length b)) (Some size) in
         conv_int (w tr (MultiByteToWideChar CP_UTF8 0 b (int (length b)) None)) = size \<and>
         conv_int (w tr fill) = size \<and> conv_units (w tr fill) = dec b))"

lemma ConvertString_wide_api:
  assumes "code_page_api dec w" "s \<noteq> []"
  shows "fst (ConvertString_wide w s tr) = Inl (Win32Error ''WideCharToMultiByte() [1] failed'' ERROR_INVALID_FLAGS)"
proof -
  have "WC_NO_BEST_FIT_CHARS \<notin> {0, WC_ERR_INVALID_CHARS}"
    by (simp add: WC_NO_BEST_FIT_CHARS_def WC_ERR_INVALID_CHARS_def)
  then show ?thesis
    using assms unfolding code_page_api_def Let_def by (simp add: ConvertString_wide_def Let_def split_def)
qed

lemma ConvertString_narrow_api:
  assumes "code_page_api dec w" "b \<noteq> []" "length b < 2 ^ 31" "length (dec b) < 2 ^ 31" "dec b \<noteq> []"
  shows "fst (ConvertString_narrow w b tr) = Inr (dec b)"
proof -
  have "conv_int (w tr' (MultiByteToWideChar CP_UTF8 0 b (int (length b)) None)) = int (length (dec b)) \<and>
      conv_int (w tr' (MultiByteToWideChar CP_UTF8 0 b (int (length b)) (Some (int (length (dec b)))))) = int (length (dec b)) \<and>
      conv_units (w tr' (MultiByteToWideChar CP_UTF8 0 b (int (length b)) (Some (int (length (dec b)))))) = dec b" for tr'
    using assms(1,2) unfolding code_page_api_def Let_def by blast
  then show ?thesis
    using assms(2-) by (simp add: ConvertString_narrow_def int_of_size_small Let_def split_def)
qed

text \<open>A world with the calls of a code page that keeps the low byte of each unit.\<close>

definition ascii_world :: conv_world where
  "ascii_world tr c =
     (case c of
        WideCharToMultiByte cp flags s n buf \<Rightarrow>
          if flags \<in> {0, WC_ERR_INVALID_CHARS}
          then \<lparr>conv_int = int (length s), conv_bytes = map ucast s, conv_units = [], conv_code = 0\<rparr>
          else \<lparr>conv_int = 0, conv_bytes = [], conv_units = [], conv_code = 0\<rparr>
      | MultiByteToWideChar cp flags b n buf \<Rightarrow>
          \<lparr>conv_int = int (length b), conv_bytes = [], conv_units = map ucast b, conv_code = 0\<rparr>
      | Wcsrtombs_s s n \<Rightarrow>
          \<lparr>conv_int = 0, conv_bytes = map ucast s, conv_units = [], conv_code = 0\<rparr>
      | GetLastError \<Rightarrow> \<lparr>conv_int = 0, conv_bytes = [], conv_units = [], conv_code = ERROR_INVALID_FLAGS\<rparr>
      | _ \<Rightarrow> \<lparr>conv_int = 0, conv_bytes = [], conv_units = [], conv_code = 0\<rparr>)"

lemma ascii_world_api: "code_page_api (map ucast) ascii_world"
  by (simp add: code_page_api_def ascii_world_def Let_def)

section \<open>Properties\<close>

text \<open>
  C37: with a non-empty delimiter \<^verbatim>\<open>TokeniseString\<close> returns and never throws; its tokens, joined
  with the delimiter, give the input back; there is at least one; and no token contains the
  delimiter.
\<close>

theorem tokenise_returns_the_fields:
  assumes "delimiter \<noteq> []"
  shows "\<exists>tokens. TokeniseString s delimiter = Some (Inr tokens) \<and> tokens \<noteq> [] \<and>
    join delimiter tokens = s \<and> (\<forall>t. t \<in> set tokens \<longrightarrow> \<not> sublist delimiter t)"
  using assms by (auto simp: TokeniseString_eq join_split split_tokens_free)

theorem tokenise_returns_the_fields_witness:
  "([44] :: wstring) \<noteq> [] \<and>
   (\<exists>tokens. TokeniseString ([97, 44, 44, 98] :: wstring) [44] = Some (Inr tokens) \<and>
     tokens \<noteq> [] \<and> join [44] tokens = [97, 44, 44, 98])"
  using tokenise_returns_the_fields [of "[44] :: wstring" "[97, 44, 44, 98]"] by auto

text \<open>
  C38: with an empty delimiter \<^verbatim>\<open>TokeniseString\<close> never returns, and with an empty pattern
  \<^verbatim>\<open>Replace\<close> never returns, whatever the string: the search finds the empty string where it
  starts, so neither the string nor the position changes.
\<close>

theorem empty_pattern_hangs: "TokeniseString s [] = None \<and> Replace s [] to = None"
proof
  show "TokeniseString s [] = None"
    using tokenise_loop_returns [of "[]" s "[]"]
    by (cases "tokenise_loop [] s []") (auto simp: TokeniseString_def wfind.find_empty)
  show "Replace s [] to = None"
    using replace_loop_returns [of s "[]" to "[]" 0]
    by (cases "replace_loop s [] to [] 0") (auto simp: Replace_def)
qed

text \<open>
  C39: \<^verbatim>\<open>Replace\<close> with a non-empty pattern returns, never throws, and is the tokens of the source
  joined with the replacement: the two loops, one over a shrinking string and one over a
  growing position, cut at the same places.
\<close>

theorem replace_joins_the_tokens:
  assumes "pat \<noteq> []"
  shows "\<exists>tokens. TokeniseString source pat = Some (Inr tokens) \<and>
    Replace source pat to = Some (Inr (join to tokens))"
  using assms by (simp add: TokeniseString_eq Replace_eq)

theorem replace_joins_the_tokens_witness:
  "([97] :: wstring) \<noteq> [] \<and>
   (\<exists>tokens. TokeniseString ([98, 97, 99] :: wstring) [97] = Some (Inr tokens) \<and>
     Replace [98, 97, 99] [97] [120, 121] = Some (Inr (join [120, 121] tokens)))"
  using replace_joins_the_tokens [of "[97] :: wstring" "[98, 97, 99]" "[120, 121]"] by simp

text \<open>
  \<^verbatim>\<open>Erase\<close> (remove and erase) is \<^verbatim>\<open>Replace\<close> of the one-unit pattern by nothing, and leaves
  no copy of the unit.
\<close>

theorem erase_is_replace_by_nothing:
  "Replace source [what] [] = Some (Inr (Erase source what)) \<and> what \<notin> set (Erase source what)"
  by (simp add: Replace_eq join_Nil_split_single Erase_filter)

text \<open>
  The wide case-insensitive match is undefined exactly when some unit is above 255, where
  \<^verbatim>\<open>tolower\<close> has no defined result; otherwise it compares the strings unit by unit up to the
  case of the letters A to Z.
\<close>

theorem wide_match_folds_ascii:
  "DoCaseInsensitiveMatch_wide s t =
     (if \<exists>c \<in> set (s @ t). 255 < c then None
      else Some (list_all2 (\<lambda>a b. a = b \<or> (65 \<le> a \<and> a \<le> 90 \<and> b = a + 32) \<or>
                                    (65 \<le> b \<and> b \<le> 90 \<and> a = b + 32)) s t))"
proof -
  have unit: "lower_unit a = lower_unit b \<longleftrightarrow>
      a = b \<or> (65 \<le> a \<and> a \<le> 90 \<and> b = a + 32) \<or> (65 \<le> b \<and> b \<le> 90 \<and> a = b + 32)"
    for a b :: wchar
    by (rule lower_unit_eq_iff) simp
  have "map lower_unit s = map lower_unit t \<longleftrightarrow>
      list_all2 (\<lambda>a b. lower_unit a = lower_unit b) s t"
    by (auto simp: list_all2_conv_all_nth list_eq_iff_nth_eq)
  then show ?thesis by (auto simp: DoCaseInsensitiveMatch_wide_def lower_wide_eq unit)
qed

text \<open>
  With calls that behave as documented, the conversion from UTF-16 to UTF-8 never succeeds on a string that is
  not empty: its flag is not one that UTF-8 allows, so the first call fails. The conversion from UTF-8 gives the decoding.
\<close>

theorem conversion_outcome:
  assumes "code_page_api dec w" "length b < 2 ^ 31" "length (dec b) < 2 ^ 31" "dec b = [] \<longleftrightarrow> b = []"
  shows "fst (ConvertString_wide w s tr) = (if s = [] then Inr []
      else Inl (Win32Error ''WideCharToMultiByte() [1] failed'' ERROR_INVALID_FLAGS)) \<and>
    fst (ConvertString_narrow w b tr) = Inr (dec b)"
proof (intro conjI)
  show "fst (ConvertString_wide w s tr) = (if s = [] then Inr []
      else Inl (Win32Error ''WideCharToMultiByte() [1] failed'' ERROR_INVALID_FLAGS))"
    using ConvertString_wide_api [OF assms(1)] by (simp add: ConvertString_wide_def)
  show "fst (ConvertString_narrow w b tr) = Inr (dec b)"
    using assms ConvertString_narrow_api [OF assms(1)] by (cases "b = []") (simp_all add: ConvertString_narrow_def)
qed

theorem conversion_outcome_witness:
  "fst (ConvertString_wide ascii_world [72, 105] []) = Inl (Win32Error ''WideCharToMultiByte() [1] failed'' 1004) \<and>
   fst (ConvertString_narrow ascii_world [72, 105] []) = Inr [72, 105]"
  using conversion_outcome [OF ascii_world_api, of "[72, 105]" "[72, 105]" "[]"] by (simp add: ERROR_INVALID_FLAGS_def)

text \<open>
  \<^verbatim>\<open>ConvertWStringToStringOld\<close> throws, before any call to the C runtime, exactly when a NUL
  stands before the last unit of the string (or the runtime reports an error); and what it
  returns has one char per unit of the string without a final NUL.
\<close>

theorem old_conversion_rejects_embedded_nul:
  "(fst (ConvertWStringToStringOld w s tr) =
      Inl (RuntimeErrorPointer ''Unexpected null terminator found in string'') \<longleftrightarrow>
    0 \<in> set (butlast s)) \<and>
   (0 \<in> set (butlast s) \<longrightarrow> snd (ConvertWStringToStringOld w s tr) = tr) \<and>
   (\<forall>d. fst (ConvertWStringToStringOld w s tr) = Inr d \<longrightarrow>
     length d = (if s \<noteq> [] \<and> last s = 0 then length s - 1 else length s))"
  by (auto simp: ConvertWStringToStringOld_def nul_scan_eq Let_def split_def split: if_splits)

theorem old_conversion_rejects_embedded_nul_witness:
  "(0 :: wchar) \<in> set (butlast [0, 72]) \<and>
   fst (ConvertWStringToStringOld ascii_world [0, 72] []) =
     Inl (RuntimeErrorPointer ''Unexpected null terminator found in string'') \<and>
   fst (ConvertWStringToStringOld ascii_world [72, 0] []) = Inr [72]"
  using old_conversion_rejects_embedded_nul [of ascii_world "[0, 72]" "[]"]
  by (simp add: ConvertWStringToStringOld_def ascii_world_def fill_buffer_def Let_def split_def)

end
