(* ===== verification/Filter_Progress.thy ===== *)
theory Filter_Progress imports Filter_Properties begin

text \<open>
  Progress of the NDIS filter: whatever NDIS has done with the loaded driver, it can go on to unload it.
  Handlers that are inside a call return, running modules are paused, and every module is detached.
\<close>

section \<open>Handlers that return\<close>

lemma handlers_return:
  assumes "filters s p = Some f"
  shows "\<exists>s'. receive_settle P w p n fl s = Inr s'" "\<exists>s'. return_settle P w p n fl s = Inr s'"
    "\<exists>s'. FilterPause w p s = Inr (NDIS_STATUS_SUCCESS, s')" "\<exists>s'. FilterDetach P w p s = Inr s'"
  using assms by (auto simp: receive_settle_def return_settle_def FilterPause_def FilterDetach_def FILTER_ASSERT_def
      nfd_simps Let_def)

lemma module_exists:
  assumes "ndis_inv P e"
  shows "frame \<in> set (frames e) \<Longrightarrow> \<exists>f. filters (drv e) (frame_module frame) = Some f"
    and "phases e p = Some ph \<Longrightarrow> \<exists>f. filters (drv e) p = Some f"
  using assms by (auto simp: ndis_inv_def modules_inv_def)

section \<open>Going on to the end\<close>

lemma frames_return:
  assumes w: "ndis_answers P w" and lists: "kernel_lists (kernel_list P)" and "ndis_inv P e"
  shows "\<exists>e'. (ndis_step P w)\<^sup>*\<^sup>* e e' \<and> ndis_inv P e' \<and> frames e' = [] \<and> load e' = load e"
  using assms(3)
proof (induction "length (frames e)" arbitrary: e)
  case (Suc n)
  then obtain frame rest where fr: "frames e = frame # rest" by (cases "frames e") auto
  obtain f where f: "filters (drv e) (frame_module frame) = Some f"
    using module_exists(1) [OF Suc.prems, of frame] fr by auto
  have "\<exists>s'. ndis_step P w e (e\<lparr>drv := s', frames := rest\<rparr>)"
  proof (cases frame)
    case (InReceive p m fl)
    then have "filters (drv e) p = Some f" using f by simp
    then obtain s' where "receive_settle P w p m fl (drv e) = Inr s'" using handlers_return(1) by blast
    then show ?thesis using ndis_step.receive_back [of p m fl e P w s'] fr InReceive by auto
  next
    case (InReturn p m fl)
    then have "filters (drv e) p = Some f" using f by simp
    then obtain s' where "return_settle P w p m fl (drv e) = Inr s'" using handlers_return(2) by blast
    then show ?thesis using ndis_step.return_back [of p m fl e P w s'] fr InReturn by auto
  qed
  then obtain s' where s': "ndis_step P w e (e\<lparr>drv := s', frames := rest\<rparr>)" by blast
  from inv_step [OF s' w lists Suc.prems] Suc.hyps(2) fr
  obtain e' where "(ndis_step P w)\<^sup>*\<^sup>* (e\<lparr>drv := s', frames := rest\<rparr>) e'" "ndis_inv P e'" "frames e' = []" "load e' = load e"
    using Suc.hyps(1) [of "e\<lparr>drv := s', frames := rest\<rparr>"] by auto
  with s' show ?case by (meson converse_rtranclp_into_rtranclp)
qed auto

lemma pause_if_running:
  assumes w: "ndis_answers P w" and lists: "kernel_lists (kernel_list P)" and inv: "ndis_inv P e"
    and up: "up e" and ph: "phases e p = Some ph" and fr: "frames e = []"
  shows "\<exists>s'. (ndis_step P w)\<^sup>*\<^sup>* e (e\<lparr>drv := s', phases := (phases e)(p \<mapsto> Paused)\<rparr>)"
proof (cases ph)
  case Paused
  then have "(phases e)(p \<mapsto> Paused) = phases e" using ph by auto
  then have "e\<lparr>drv := drv e, phases := (phases e)(p \<mapsto> Paused)\<rparr> = e" by simp
  then show ?thesis by (metis rtranclp.rtrancl_refl)
next
  case Running
  obtain f where "filters (drv e) p = Some f" using module_exists(2) [OF inv ph] by blast
  then obtain s' where "FilterPause w p (drv e) = Inr (NDIS_STATUS_SUCCESS, s')" using handlers_return(3) by blast
  then show ?thesis using ndis_step.pause [of e p w s' P] inv_serving [OF inv ph] ph Running by auto
qed

lemma module_leaves:
  assumes w: "ndis_answers P w" and lists: "kernel_lists (kernel_list P)" and inv: "ndis_inv P e"
    and up: "up e" and ph: "phases e p = Some ph" and fr: "frames e = []"
  shows "\<exists>e'. (ndis_step P w)\<^sup>*\<^sup>* e e' \<and> ndis_inv P e' \<and> frames e' = [] \<and> load e' = load e \<and> phases e' = (phases e)(p := None)"
proof -
  obtain s1 where s1: "(ndis_step P w)\<^sup>*\<^sup>* e (e\<lparr>drv := s1, phases := (phases e)(p \<mapsto> Paused)\<rparr>)"
    using pause_if_running [OF assms] by blast
  let ?e1 = "e\<lparr>drv := s1, phases := (phases e)(p \<mapsto> Paused)\<rparr>"
  have inv1: "ndis_inv P ?e1"
    using s1 inv by (induction rule: rtranclp_induct) (auto intro: inv_step [OF _ w lists])
  then obtain f where "filters s1 p = Some f" using module_exists(2) [of P ?e1 p Paused] by auto
  then obtain s2 where s2: "FilterDetach P w p s1 = Inr s2" using handlers_return(4) by blast
  let ?e2 = "?e1\<lparr>drv := s2, phases := (phases ?e1)(p := None)\<rparr>"
  have step: "ndis_step P w ?e1 ?e2"
    using s2 inv_serving [OF inv ph] fr by (intro ndis_step.detach) auto
  have "ndis_inv P ?e2" by (rule inv_step [OF step w lists inv1])
  moreover have "(ndis_step P w)\<^sup>*\<^sup>* e ?e2" using s1 step by (rule rtranclp.rtrancl_into_rtrancl)
  ultimately show ?thesis using fr by (intro exI [of _ ?e2]) simp
qed

lemma finite_phases:
  assumes "ndis_inv P e" "up e"
  shows "finite (dom (phases e))"
proof -
  obtain xs where "set xs = dom (filters (drv e))" using assms by (auto simp: ndis_inv_def list_inv_def)
  then show ?thesis using assms(1) by (metis List.finite_set modules_inv_def ndis_inv_def)
qed

lemma modules_leave:
  assumes w: "ndis_answers P w" and lists: "kernel_lists (kernel_list P)" and "ndis_inv P e" "up e" "frames e = []"
  shows "\<exists>e'. (ndis_step P w)\<^sup>*\<^sup>* e e' \<and> ndis_inv P e' \<and> load e' = load e \<and> phases e' = (\<lambda>_. None)"
  using assms(3-)
proof (induction "card (dom (phases e))" arbitrary: e)
  case 0
  then have "dom (phases e) = {}" using finite_phases [of P e] by simp
  then show ?case using 0 by (intro exI [of _ e]) auto
next
  case (Suc n)
  then obtain p ph where p: "phases e p = Some ph" by (metis card.empty domIff equals0I nat.distinct(1) option.exhaust)
  obtain e1 where e1: "(ndis_step P w)\<^sup>*\<^sup>* e e1" "ndis_inv P e1" "frames e1 = []" "load e1 = load e"
      "phases e1 = (phases e)(p := None)"
    using module_leaves [OF w lists Suc.prems(1,2) p Suc.prems(3)] by blast
  have "dom (phases e1) = dom (phases e) - {p}" by (simp add: e1(5))
  then have "n = card (dom (phases e1))" using Suc.hyps(2) p card_Diff_singleton [of p "dom (phases e)"] by (simp add: domI)
  moreover have "up e1" using Suc.prems(2) e1(4) by (simp add: up_def)
  ultimately obtain e' where e': "(ndis_step P w)\<^sup>*\<^sup>* e1 e'" "ndis_inv P e'" "load e' = load e1" "phases e' = (\<lambda>_. None)"
    using Suc.hyps(1) [of e1] e1(2,3) by blast
  from rtranclp_trans [OF e1(1) e'(1)] e'(2-) e1(4) show ?case by (intro exI [of _ e']) simp
qed

section \<open>Properties\<close>

text \<open>
  C6: A loaded driver can always be unloaded. From every state that NDIS can bring the driver into, with any
  modules attached, running or not, and any handlers inside a call, NDIS can go on to a state in
  which the driver is unloaded and holds nothing.
\<close>

theorem loaded_driver_can_be_unloaded:
  assumes "reachable P w e" "ndis_answers P w" "kernel_lists (kernel_list P)" "load e \<in> {Loaded, Unloading}"
  shows "\<exists>e'. (ndis_step P w)\<^sup>*\<^sup>* e e' \<and> load e' = Unloaded \<and> resources (log (drv e')) = {} \<and> filters (drv e') = (\<lambda>_. None)"
proof -
  have up: "up e" using assms(4) by (auto simp: up_def)
  obtain e1 where e1: "(ndis_step P w)\<^sup>*\<^sup>* e e1" "ndis_inv P e1" "frames e1 = []" "load e1 = load e"
    using frames_return [OF assms(2,3) inv_reachable [OF assms(1-3)]] by blast
  then obtain e2 where e2: "(ndis_step P w)\<^sup>*\<^sup>* e1 e2" "ndis_inv P e2" "load e2 = load e" "phases e2 = (\<lambda>_. None)"
    using modules_leave [OF assms(2,3), of e1] up by (auto simp: up_def)
  obtain e3 where e3: "(ndis_step P w)\<^sup>*\<^sup>* e2 e3" "ndis_inv P e3" "load e3 = Unloading" "phases e3 = (\<lambda>_. None)"
  proof (cases "load e2 = Unloading")
    case False
    then have "load e2 = Loaded" using e2(3) assms(4) by simp
    then have step: "ndis_step P w e2 (e2\<lparr>drv := unload_deregister w (drv e2), load := Unloading\<rparr>)" by (rule ndis_step.unload)
    show ?thesis
      by (rule that [OF r_into_rtranclp [of "ndis_step P w", OF step] inv_step [OF step assms(2,3) e2(2)]]) (simp_all add: e2(4))
  qed (use e2 that in blast)
  let ?e = "e3\<lparr>drv := unload_finish P w (drv e3), load := Unloaded\<rparr>"
  have step: "ndis_step P w e3 ?e" using e3(3,4) by (rule ndis_step.unload_done)
  from inv_step [OF step assms(2,3) e3(2)]
  have "resources (log (drv ?e)) = {} \<and> filters (drv ?e) = (\<lambda>_. None)"
    by (auto simp: ndis_inv_def inv_parts up_def)
  moreover have "(ndis_step P w)\<^sup>*\<^sup>* e ?e"
    using e1(1) e2(1) e3(1) step by (meson rtranclp.rtrancl_into_rtrancl rtranclp_trans)
  ultimately show ?thesis by (intro exI [of _ ?e]) simp
qed

theorem loaded_driver_can_be_unloaded_witness:
  "\<exists>e'. (ndis_step sample_platform sample_world)\<^sup>*\<^sup>* env_sending e' \<and> load e' = Unloaded"
  using loaded_driver_can_be_unloaded [OF env_sending_reachable sample_answers sample_lists] env_sending_fields(2) by auto

end
