(* ===== verification/Int_List.thy ===== *)
theory Int_List imports Prelude List_Entry begin

text \<open>
  The sample WDM driver (\<^verbatim>\<open>src/SampleWdmDriver\<close>): a list of integers, each with a list of its own, on
  the kernel's interlocked list routines. The loops of the class may not end, so they are partial
  functions into \<open>option\<close> (\<open>None\<close> is not returning), and what is undefined in C++ or a bug check in
  the kernel is an outcome of its own that keeps the state it happened in.
\<close>

section \<open>State\<close>

text \<open>Sizes, offsets and pool types of the build.\<close>

record wdm_layout =
  sizeof_Branch :: nat
  sizeof_Trunk :: nat
  sizeof_IntList :: nat
  sizeof_wchar :: nat
  BranchRoot_offset :: nat
  SpinLock_offset :: nat
  NonPagedPool :: nat
  PagedPool :: nat

datatype wdm_call =
    ExAllocatePool2 nat nat "32 word"
  | ExFreePoolWithTag addr "32 word"
  | KeInitializeSpinLock addr
  | KeAcquireSpinLockRaiseToDpc addr
  | KeReleaseSpinLock addr nat
  | RtlCopyUnicodeString UNICODE_STRING UNICODE_STRING

text \<open>Every call answers one number: a pointer, an old interrupt level, or nothing of interest.\<close>

type_synonym wdm_world = "(wdm_call, nat) world"

text \<open>
  The memory of links, the trunk and branch entries that exist with their values, the two globals,
  the unload routine of the driver object, and the calls made so far. The link of an entry is at
  the address of the entry, the head of its branch list behind it.
\<close>

record wdm_state =
  mem :: links
  trunks :: "addr \<Rightarrow> UINT32 option"
  branches :: "addr \<Rightarrow> UINT32 option"
  g_RegistryPath :: UNICODE_STRING
  g_list :: addr
  unload_set :: bool
  wdm_log :: "(wdm_call, nat) trace"

datatype wdm_fault = AccessViolation addr | UninitialisedHead addr | MissingReturn

datatype 'a outcome = Done 'a wdm_state | Stopped wdm_fault wdm_state

section \<open>Operators and locks\<close>

definition DriverPoolTag :: "32 word" where "DriverPoolTag = 0x64636261"

definition wdm_ask :: "wdm_world \<Rightarrow> wdm_call \<Rightarrow> wdm_state \<Rightarrow> nat \<times> wdm_state" where
  "wdm_ask w c s = (let (r, tr) = ask w c (wdm_log s) in (r, s\<lparr>wdm_log := tr\<rparr>))"

definition operator_new :: "wdm_world \<Rightarrow> nat \<Rightarrow> nat \<Rightarrow> wdm_state \<Rightarrow> addr \<times> wdm_state" where
  "operator_new w poolType n s = wdm_ask w (ExAllocatePool2 poolType n DriverPoolTag) s"

definition operator_delete :: "wdm_world \<Rightarrow> addr \<Rightarrow> wdm_state \<Rightarrow> wdm_state" where
  "operator_delete w p s =
     (if p \<noteq> NULL
      then (snd (wdm_ask w (ExFreePoolWithTag p 0) s))
             \<lparr>trunks := (trunks s)(p := None), branches := (branches s)(p := None)\<rparr>
      else s)"

definition SpinLock :: "wdm_world \<Rightarrow> addr \<Rightarrow> wdm_state \<Rightarrow> wdm_state" where
  "SpinLock w l s = snd (wdm_ask w (KeInitializeSpinLock l) s)"

definition ScopedSpinLock :: "wdm_world \<Rightarrow> addr \<Rightarrow> wdm_state \<Rightarrow> nat \<times> wdm_state" where
  "ScopedSpinLock w l s = wdm_ask w (KeAcquireSpinLockRaiseToDpc l) s"

definition ScopedSpinLock_destructor :: "wdm_world \<Rightarrow> addr \<Rightarrow> nat \<Rightarrow> wdm_state \<Rightarrow> wdm_state" where
  "ScopedSpinLock_destructor w l oldIRQL s = snd (wdm_ask w (KeReleaseSpinLock l oldIRQL) s)"

text \<open>
  The interlocked routines follow the links of the head they are given; on a head whose links are
  NULL, one that was never initialised, that is an access through NULL.
\<close>

definition remove_head :: "list_routines \<Rightarrow> addr \<Rightarrow> wdm_state \<Rightarrow> addr outcome" where
  "remove_head R h s =
     (if Flink (mem s h) = NULL then Stopped (UninitialisedHead h) s
      else let (e, m) = ExInterlockedRemoveHeadList R h (mem s) in Done e (s\<lparr>mem := m\<rparr>))"

definition insert_tail :: "list_routines \<Rightarrow> addr \<Rightarrow> addr \<Rightarrow> wdm_state \<Rightarrow> unit outcome" where
  "insert_tail R h x s =
     (if Blink (mem s h) = NULL then Stopped (UninitialisedHead h) s
      else Done () (s\<lparr>mem := ExInterlockedInsertTailList R h x (mem s)\<rparr>))"

section \<open>The class IntList\<close>

text \<open>
  The loop that both \<^verbatim>\<open>Destroy\<close> and \<^verbatim>\<open>DeleteTrunkEntry\<close> run over the branch list at \<open>root\<close>: delete the
  removed entry and remove the next until the removed one is \<open>stop\<close>.
\<close>

partial_function (option) drain_branches ::
  "list_routines \<Rightarrow> wdm_world \<Rightarrow> addr \<Rightarrow> addr \<Rightarrow> addr \<Rightarrow> wdm_state \<Rightarrow> unit outcome option" where
  "drain_branches R w root stop removed s =
     (if removed = stop then Some (Done () s)
      else
        let s = operator_delete w removed s in
        case remove_head R root s of
          Stopped f s \<Rightarrow> Some (Stopped f s)
        | Done removed s \<Rightarrow> drain_branches R w root stop removed s)"

text \<open>The outer loop of \<^verbatim>\<open>Destroy\<close>; the head of the trunk list is the list object itself.\<close>

partial_function (option) destroy_loop ::
  "wdm_layout \<Rightarrow> list_routines \<Rightarrow> wdm_world \<Rightarrow> addr \<Rightarrow> wdm_state \<Rightarrow> unit outcome option" where
  "destroy_loop Y R w root s =
     (case remove_head R root s of
        Stopped f s \<Rightarrow> Some (Stopped f s)
      | Done entry s \<Rightarrow>
          if entry = root then Some (Done () s)
          else if trunks s entry = None then Some (Stopped (AccessViolation entry) s)
          else
            let branchRoot = entry + BranchRoot_offset Y in
            case remove_head R branchRoot s of
              Stopped f s \<Rightarrow> Some (Stopped f s)
            | Done removed s \<Rightarrow>
                (case drain_branches R w branchRoot branchRoot removed s of
                   None \<Rightarrow> None
                 | Some (Stopped f s) \<Rightarrow> Some (Stopped f s)
                 | Some (Done _ s) \<Rightarrow> destroy_loop Y R w root (operator_delete w entry s)))"

definition Destroy ::
  "wdm_layout \<Rightarrow> list_routines \<Rightarrow> wdm_world \<Rightarrow> addr \<Rightarrow> wdm_state \<Rightarrow> unit outcome option" where
  "Destroy Y R w root s =
     (if IsListEmpty R root (mem s) then Some (Done () s) else destroy_loop Y R w root s)"

text \<open>
  A new-expression with an initialiser. The replaced operator is declared \<^verbatim>\<open>noexcept(false)\<close>, so the
  compiler does not test its result before it initialises the object.
\<close>

definition new_trunk :: "wdm_layout \<Rightarrow> wdm_world \<Rightarrow> UINT32 \<Rightarrow> wdm_state \<Rightarrow> addr outcome" where
  "new_trunk Y w v s =
     (let (p, s) = operator_new w (NonPagedPool Y) (sizeof_Trunk Y) s in
      if p = NULL then Stopped (AccessViolation NULL) s
      else Done p (s\<lparr>trunks := (trunks s)(p \<mapsto> v),
             mem := (mem s)(p := \<lparr>Flink = NULL, Blink = NULL\<rparr>,
                            p + BranchRoot_offset Y := \<lparr>Flink = NULL, Blink = NULL\<rparr>)\<rparr>))"

definition new_branch :: "wdm_layout \<Rightarrow> wdm_world \<Rightarrow> UINT32 \<Rightarrow> wdm_state \<Rightarrow> addr outcome" where
  "new_branch Y w v s =
     (let (p, s) = operator_new w (NonPagedPool Y) (sizeof_Branch Y) s in
      if p = NULL then Stopped (AccessViolation NULL) s
      else Done p (s\<lparr>branches := (branches s)(p \<mapsto> v),
             mem := (mem s)(p := \<lparr>Flink = NULL, Blink = NULL\<rparr>)\<rparr>))"

text \<open>\<^verbatim>\<open>AddTrunkEntry\<close> runs off its end after a successful insertion: its result is undefined.\<close>

definition AddTrunkEntry ::
  "wdm_layout \<Rightarrow> list_routines \<Rightarrow> wdm_world \<Rightarrow> addr \<Rightarrow> UINT32 \<Rightarrow> wdm_state \<Rightarrow> NTSTATUS outcome" where
  "AddTrunkEntry Y R w root v s =
     (case new_trunk Y w v s of
        Stopped f s \<Rightarrow> Stopped f s
      | Done newEntry s \<Rightarrow>
          if newEntry = NULL then Done STATUS_INSUFFICIENT_RESOURCES s
          else
            let s = s\<lparr>mem := InitializeListHead R (newEntry + BranchRoot_offset Y) (mem s)\<rparr> in
            case insert_tail R root newEntry s of
              Stopped f s \<Rightarrow> Stopped f s
            | Done _ s \<Rightarrow> Stopped MissingReturn s)"

definition append_branch ::
  "wdm_layout \<Rightarrow> list_routines \<Rightarrow> wdm_world \<Rightarrow> UINT32 \<Rightarrow> addr \<Rightarrow> wdm_state \<Rightarrow> NTSTATUS outcome" where
  "append_branch Y R w b trunkEntry s =
     (case new_branch Y w b s of
        Stopped f s \<Rightarrow> Stopped f s
      | Done cEntry s \<Rightarrow>
          if cEntry = NULL then Done STATUS_INSUFFICIENT_RESOURCES s
          else (case insert_tail R (trunkEntry + BranchRoot_offset Y) cEntry s of
                  Stopped f s \<Rightarrow> Stopped f s
                | Done _ s \<Rightarrow> Done STATUS_SUCCESS s))"

partial_function (option) branch_loop ::
  "wdm_layout \<Rightarrow> list_routines \<Rightarrow> wdm_world \<Rightarrow> addr \<Rightarrow> UINT32 \<Rightarrow> UINT32 \<Rightarrow> addr \<Rightarrow> wdm_state \<Rightarrow>
   NTSTATUS outcome option" where
  "branch_loop Y R w root rootValueToFind branchValueToAdd trunkEntry s =
     (case trunks s trunkEntry of
        None \<Rightarrow> Some (Stopped (AccessViolation trunkEntry) s)
      | Some TrunkValue \<Rightarrow>
          if TrunkValue = rootValueToFind then Some (Done STATUS_SUCCESS s)
          else if Flink (mem s trunkEntry) = root
            then Some (append_branch Y R w branchValueToAdd trunkEntry s)
          else branch_loop Y R w root rootValueToFind branchValueToAdd (Flink (mem s trunkEntry)) s)"

definition AddBranchEntry ::
  "wdm_layout \<Rightarrow> list_routines \<Rightarrow> wdm_world \<Rightarrow> addr \<Rightarrow> UINT32 \<Rightarrow> UINT32 \<Rightarrow> wdm_state \<Rightarrow>
   NTSTATUS outcome option" where
  "AddBranchEntry Y R w root rootValueToFind branchValueToAdd s =
     (if IsListEmpty R root (mem s) then Some (Done STATUS_NOT_FOUND s)
      else branch_loop Y R w root rootValueToFind branchValueToAdd (Flink (mem s root)) s)"

text \<open>
  \<^verbatim>\<open>DeleteTrunkEntry\<close> copies the branch head into a local and compares the removed entries with the
  address of the copy, \<open>slot\<close>.
\<close>

partial_function (option) delete_loop ::
  "wdm_layout \<Rightarrow> list_routines \<Rightarrow> wdm_world \<Rightarrow> addr \<Rightarrow> addr \<Rightarrow> UINT32 \<Rightarrow> addr \<Rightarrow> wdm_state \<Rightarrow>
   NTSTATUS outcome option" where
  "delete_loop Y R w slot root v trunkEntry s =
     (case trunks s trunkEntry of
        None \<Rightarrow> Some (Stopped (AccessViolation trunkEntry) s)
      | Some TrunkValue \<Rightarrow>
          if TrunkValue = v then
            let branchRoot = trunkEntry + BranchRoot_offset Y in
            case remove_head R branchRoot s of
              Stopped f s \<Rightarrow> Some (Stopped f s)
            | Done removed s \<Rightarrow>
                (case drain_branches R w branchRoot slot removed s of
                   None \<Rightarrow> None
                 | Some (Stopped f s) \<Rightarrow> Some (Stopped f s)
                 | Some (Done _ s) \<Rightarrow>
                     let l = root + SpinLock_offset Y;
                         (oldIRQL, s) = ScopedSpinLock w l s;
                         s = s\<lparr>mem := snd (RemoveEntryList R trunkEntry (mem s))\<rparr>;
                         s = operator_delete w trunkEntry s
                     in Some (Done STATUS_SUCCESS (ScopedSpinLock_destructor w l oldIRQL s)))
          else if Flink (mem s trunkEntry) = root then Some (Done STATUS_NOT_FOUND s)
          else delete_loop Y R w slot root v (Flink (mem s trunkEntry)) s)"

definition DeleteTrunkEntry ::
  "wdm_layout \<Rightarrow> list_routines \<Rightarrow> wdm_world \<Rightarrow> addr \<Rightarrow> addr \<Rightarrow> UINT32 \<Rightarrow> wdm_state \<Rightarrow>
   NTSTATUS outcome option" where
  "DeleteTrunkEntry Y R w slot root v s =
     (if IsListEmpty R root (mem s) then Some (Done STATUS_NOT_FOUND s)
      else delete_loop Y R w slot root v (Flink (mem s root)) s)"

section \<open>The driver\<close>

text \<open>\<^verbatim>\<open>AllocateMemory\<close>, which nothing calls.\<close>

definition AllocateMemory ::
  "wdm_layout \<Rightarrow> wdm_world \<Rightarrow> UNICODE_STRING \<Rightarrow> wdm_state \<Rightarrow> NTSTATUS \<times> wdm_state" where
  "AllocateMemory Y w RegistryPath s =
     (let (p, s) = operator_new w (PagedPool Y) (sizeof_wchar Y * unat (Length RegistryPath)) s;
          s = s\<lparr>g_RegistryPath := (g_RegistryPath s)\<lparr>Buffer := p\<rparr>\<rparr>
      in if p = NULL then (STATUS_INSUFFICIENT_RESOURCES, s)
         else
           let s = s\<lparr>g_RegistryPath := (g_RegistryPath s)\<lparr>MaximumLength := Length RegistryPath\<rparr>\<rparr>
           in (STATUS_SUCCESS, snd (wdm_ask w (RtlCopyUnicodeString (g_RegistryPath s) RegistryPath) s)))"

text \<open>
  \<^verbatim>\<open>new IntList()\<close> zeroes the object before it constructs the spin lock; \<^verbatim>\<open>delete\<close> runs the destructor,
  which is \<^verbatim>\<open>Destroy\<close>, and then frees the object.
\<close>

definition DriverEntry_wdm ::
  "wdm_layout \<Rightarrow> list_routines \<Rightarrow> wdm_world \<Rightarrow> wdm_state \<Rightarrow> NTSTATUS outcome option" where
  "DriverEntry_wdm Y R w s =
     (let s = s\<lparr>unload_set := True\<rparr>;
          (p, s) = operator_new w (NonPagedPool Y) (sizeof_IntList Y) s
      in if p = NULL then Some (Stopped (AccessViolation NULL) s)
         else
           let s = s\<lparr>mem := (mem s)(p := \<lparr>Flink = NULL, Blink = NULL\<rparr>)\<rparr>;
               s = SpinLock w (p + SpinLock_offset Y) s;
               s = s\<lparr>g_list := p\<rparr>
           in case Destroy Y R w p s of
                None \<Rightarrow> None
              | Some (Stopped f s) \<Rightarrow> Some (Stopped f s)
              | Some (Done _ s) \<Rightarrow> Some (Done STATUS_SUCCESS (operator_delete w p s)))"

definition DriverUnload_wdm :: "wdm_world \<Rightarrow> wdm_state \<Rightarrow> wdm_state" where
  "DriverUnload_wdm w s = operator_delete w (Buffer (g_RegistryPath s)) s"

section \<open>Loops over well-formed lists\<close>

text \<open>A list that the routines can walk: a ring without NULL.\<close>

definition list_at :: "wdm_state \<Rightarrow> addr \<Rightarrow> addr list \<Rightarrow> bool" where
  "list_at s h xs \<longleftrightarrow> ring (mem s) h xs \<and> NULL \<notin> set (h # xs)"

lemma list_at_Flink: "list_at s h xs \<Longrightarrow> Flink (mem s h) = hd (xs @ [h])"
  by (cases xs) (auto simp: list_at_def ring_def)

lemma list_at_not_null:
  assumes "list_at s h xs"
  shows "0 < Flink (mem s h) \<and> 0 < Blink (mem s h)"
proof -
  have "Blink (mem s h) \<in> set (h # xs)"
    using ring_last [of "mem s" h xs] assms last_in_set [of "h # xs"] by (simp add: list_at_def)
  moreover have "Flink (mem s h) \<in> set (h # xs)"
    using list_at_Flink [OF assms] by (cases xs) auto
  ultimately show ?thesis using assms by (metis gr0I list_at_def)
qed

lemma mem_operator_delete [simp]: "mem (operator_delete w p s) = mem s"
  by (simp add: operator_delete_def wdm_ask_def ask_def Let_def)

lemma list_at_operator_delete [simp]: "list_at (operator_delete w p s) h xs = list_at s h xs"
  by (simp add: list_at_def)

text \<open>Removing from such a list answers its first entry, and NULL for ever once it is empty.\<close>

lemma remove_head_list_at:
  assumes R: "kernel_lists R" and l: "list_at s h xs"
  shows "\<exists>s'. remove_head R h s = Done (case xs of [] \<Rightarrow> NULL | x # _ \<Rightarrow> x) s' \<and> list_at s' h (tl xs) \<and>
    trunks s' = trunks s \<and> (xs = [] \<longrightarrow> s' = s)"
proof (cases xs)
  case Nil
  then show ?thesis using l list_at_not_null [OF l] kernel_lists.remove_head_empty [OF R, of "mem s" h]
    by (simp add: remove_head_def list_at_def)
next
  case (Cons x ys)
  have r: "ring (mem s) h (x # ys)" using l Cons by (simp add: list_at_def)
  have "ring (snd (RemoveEntryList R x (mem s))) h ys"
    using kernel_lists.remove_entry [OF R r, of x] by simp
  then show ?thesis using l list_at_not_null [OF l] kernel_lists.remove_head [OF R r] Cons
    by (simp add: remove_head_def list_at_def)
qed

lemma drain_never_stops:
  "drain_branches R w root stop removed s = Some y \<Longrightarrow>
     kernel_lists R \<longrightarrow> (\<exists>bs. list_at s root bs \<and> stop \<notin> set bs) \<longrightarrow> stop \<noteq> NULL \<longrightarrow> removed = stop"
proof (rule drain_branches.raw_induct [where P = "\<lambda>R w root stop removed s y. kernel_lists R \<longrightarrow>
    (\<exists>bs. list_at s root bs \<and> stop \<notin> set bs) \<longrightarrow> stop \<noteq> NULL \<longrightarrow> removed = stop"], goal_cases)
  case (1 f R w root stop removed s y)
  show ?case
  proof (intro impI, rule ccontr)
    assume R: "kernel_lists R" and l: "\<exists>bs. list_at s root bs \<and> stop \<notin> set bs"
      and stop: "stop \<noteq> NULL" and ne: "removed \<noteq> stop"
    obtain bs where bs: "list_at (operator_delete w removed s) root bs" "stop \<notin> set bs" using l by auto
    obtain s' where s': "remove_head R root (operator_delete w removed s) =
        Done (case bs of [] \<Rightarrow> NULL | x # _ \<Rightarrow> x) s'" "list_at s' root (tl bs)"
      using remove_head_list_at [OF R bs(1)] by blast
    have "(case bs of [] \<Rightarrow> NULL | x # _ \<Rightarrow> x) = stop"
    proof -
      have "f R w root stop (case bs of [] \<Rightarrow> NULL | x # _ \<Rightarrow> x) s' = Some y"
        using 1(3) ne s'(1) by (simp add: Let_def)
      from 1(2) [OF this] show ?thesis
        using R stop s'(2) bs(2) by (metis list.set_sel(2) tl_Nil)
    qed
    then show False using bs(2) stop by (cases bs) auto
  qed
qed

text \<open>
  A well-formed list object: the trunk list at \<open>root\<close> holds \<open>xs\<close>, every one an existing entry whose
  branch list holds \<open>bs t\<close> and lies apart from the trunk list.
\<close>

definition int_list_ok ::
  "wdm_layout \<Rightarrow> wdm_state \<Rightarrow> addr \<Rightarrow> addr list \<Rightarrow> (addr \<Rightarrow> addr list) \<Rightarrow> bool" where
  "int_list_ok Y s root xs bs \<longleftrightarrow> list_at s root xs \<and> set xs \<subseteq> dom (trunks s) \<and>
     (\<forall>t \<in> set xs. list_at s (t + BranchRoot_offset Y) (bs t) \<and>
        set ((t + BranchRoot_offset Y) # bs t) \<inter> set (root # xs) = {})"

definition trunk_values :: "wdm_state \<Rightarrow> addr list \<Rightarrow> UINT32 set" where
  "trunk_values s xs = (\<lambda>t. the (trunks s t)) ` set xs"

lemma trunk_values_Cons: "trunk_values s (t # xs) = insert (the (trunks s t)) (trunk_values s xs)"
  by (simp add: trunk_values_def)

lemma branch_loop_walk:
  assumes "list_at s root (ys @ t # zs)" "set (t # zs) \<subseteq> dom (trunks s)"
  shows "branch_loop Y R w root v b t s =
    Some (if v \<in> trunk_values s (t # zs) then Done STATUS_SUCCESS s
          else append_branch Y R w b (last (t # zs)) s)"
  using assms
proof (induction zs arbitrary: ys t)
  case Nil
  then have "Flink (mem s t) = root" using ring_next [of "mem s" root ys t "[]"] by (simp add: list_at_def)
  then show ?case using Nil by (auto simp: branch_loop.simps trunk_values_def)
next
  case (Cons z zs)
  have nxt: "Flink (mem s t) = z" "z \<noteq> root"
    using Cons.prems(1) ring_next [of "mem s" root ys t "z # zs"] by (auto simp: list_at_def ring_def)
  have "branch_loop Y R w root v b z s =
    Some (if v \<in> trunk_values s (z # zs) then Done STATUS_SUCCESS s
          else append_branch Y R w b (last (z # zs)) s)"
    using Cons.IH [of "ys @ [t]" z] Cons.prems by simp
  then show ?case using Cons.prems(2) nxt
    by (subst branch_loop.simps) (auto simp: trunk_values_Cons)
qed

lemma delete_found:
  assumes R: "kernel_lists R" and "\<exists>bs. list_at s (t + BranchRoot_offset Y) bs \<and> slot \<notin> set bs"
    and slot: "slot \<noteq> NULL" and t: "t \<in> dom (trunks s)" "v = the (trunks s t)"
  shows "delete_loop Y R w slot root v t s = None"
proof -
  obtain bs where bs: "list_at s (t + BranchRoot_offset Y) bs" "slot \<notin> set bs" using assms(2) by blast
  obtain s' where s': "remove_head R (t + BranchRoot_offset Y) s = Done (case bs of [] \<Rightarrow> NULL | x # _ \<Rightarrow> x) s'"
      "list_at s' (t + BranchRoot_offset Y) (tl bs)"
    using remove_head_list_at [OF R bs(1)] by blast
  have "(case bs of [] \<Rightarrow> NULL | x # _ \<Rightarrow> x) \<noteq> slot" "slot \<notin> set (tl bs)"
    using bs(2) slot by (cases bs; simp)+
  then have "drain_branches R w (t + BranchRoot_offset Y) slot (case bs of [] \<Rightarrow> NULL | x # _ \<Rightarrow> x) s' = None"
    using drain_never_stops R slot s'(2) by (metis option.exhaust)
  then show ?thesis using t s'(1) by (subst delete_loop.simps) (auto simp: Let_def)
qed

lemma delete_loop_walk:
  assumes "list_at s root (ys @ t # zs)" "set (t # zs) \<subseteq> dom (trunks s)" "kernel_lists R"
    and branches: "\<forall>u \<in> set (t # zs). \<exists>bs. list_at s (u + BranchRoot_offset Y) bs \<and> slot \<notin> set bs"
    and slot: "slot \<noteq> NULL"
  shows "delete_loop Y R w slot root v t s =
    (if v \<in> trunk_values s (t # zs) then None else Some (Done STATUS_NOT_FOUND s))"
  using assms(1,2) branches
proof (induction zs arbitrary: ys t)
  case (Nil ys t)
  have here: "delete_loop Y R w slot root v t s = None" if "v = the (trunks s t)"
    using Nil assms(3) slot that by (intro delete_found) auto
  have "Flink (mem s t) = root" using Nil ring_next [of "mem s" root ys t "[]"] by (simp add: list_at_def)
  then show ?case using Nil here by (auto simp: delete_loop.simps [of _ _ _ _ _ _ t] trunk_values_def)
next
  case (Cons z zs ys t)
  have here: "delete_loop Y R w slot root v t s = None" if "v = the (trunks s t)"
    using Cons.prems assms(3) slot that by (intro delete_found) auto
  have nxt: "Flink (mem s t) = z" "z \<noteq> root"
    using Cons.prems(1) ring_next [of "mem s" root ys t "z # zs"] by (auto simp: list_at_def ring_def)
  have "delete_loop Y R w slot root v z s =
      (if v \<in> trunk_values s (z # zs) then None else Some (Done STATUS_NOT_FOUND s))"
    using Cons.IH [of "ys @ [t]" z] Cons.prems by simp
  moreover have "delete_loop Y R w slot root v t s = delete_loop Y R w slot root v z s" if "v \<noteq> the (trunks s t)"
    using Cons.prems(2) nxt that by (subst delete_loop.simps) auto
  ultimately show ?case using here
    by (cases "v = the (trunks s t)") (simp_all add: trunk_values_Cons [of s t])
qed

lemma int_list_ok_parts:
  assumes "int_list_ok Y s root xs bs"
  shows "list_at s root xs" "set xs \<subseteq> dom (trunks s)"
    and "t \<in> set xs \<Longrightarrow> list_at s (t + BranchRoot_offset Y) (bs t)"
    and "t \<in> set xs \<Longrightarrow> set ((t + BranchRoot_offset Y) # bs t) \<inter> set (root # xs) = {}"
  using assms by (simp_all add: int_list_ok_def)

lemma list_at_first: "list_at s root (t # zs) \<Longrightarrow> \<not> IsListEmpty R root (mem s) \<or> \<not> kernel_lists R"
  using kernel_lists.empty [of R "mem s" root "t # zs"] by (auto simp: list_at_def)

text \<open>What the walk over the trunks comes to.\<close>

lemma AddBranchEntry_walk:
  assumes R: "kernel_lists R" and ok: "int_list_ok Y s root xs bs" and xs: "xs \<noteq> []"
  shows "AddBranchEntry Y R w root v b s =
    Some (if v \<in> trunk_values s xs then Done STATUS_SUCCESS s else append_branch Y R w b (last xs) s)"
proof -
  obtain t zs where t: "xs = t # zs" using xs by (cases xs) auto
  note ok' = int_list_ok_parts [OF ok]
  have "\<not> IsListEmpty R root (mem s)" using list_at_first [of s root t zs R] R ok'(1) t by blast
  then have "AddBranchEntry Y R w root v b s = branch_loop Y R w root v b t s"
    using list_at_Flink [OF ok'(1)] t by (simp add: AddBranchEntry_def)
  then show ?thesis
    using branch_loop_walk [of s root "[]" t zs Y R w v b] ok'(1,2) unfolding t by (simp only: append_Nil)
qed

section \<open>A concrete list\<close>

definition sample_layout :: wdm_layout where
  "sample_layout =
     \<lparr>sizeof_Branch = 24, sizeof_Trunk = 40, sizeof_IntList = 32, sizeof_wchar = 2,
      BranchRoot_offset = 16, SpinLock_offset = 24, NonPagedPool = 0, PagedPool = 1\<rparr>"

text \<open>The list object at 100 with one trunk at 200, whose value is 7 and whose branch list is empty.\<close>

definition sample_list :: wdm_state where
  "sample_list =
     \<lparr>mem = (\<lambda>_. \<lparr>Flink = 0, Blink = 0\<rparr>)(100 := \<lparr>Flink = 200, Blink = 200\<rparr>,
        200 := \<lparr>Flink = 100, Blink = 100\<rparr>, 216 := \<lparr>Flink = 216, Blink = 216\<rparr>),
      trunks = [200 \<mapsto> 7], branches = (\<lambda>_. None),
      g_RegistryPath = \<lparr>Length = 0, MaximumLength = 0, Buffer = 0\<rparr>, g_list = 100, unload_set = True,
      wdm_log = []\<rparr>"

lemma sample_list_ok: "int_list_ok sample_layout sample_list 100 [200] (\<lambda>_. [])"
  by (simp add: int_list_ok_def list_at_def ring_def sample_list_def sample_layout_def)

lemma sample_values: "trunk_values sample_list [200] = {7}"
  by (simp add: trunk_values_def sample_list_def)

section \<open>Properties\<close>

text \<open>
  \<^verbatim>\<open>Destroy\<close>, and with it the destructor, returns exactly when the list is empty: on every other
  well-formed list it never returns, because the interlocked removal answers NULL, and not the
  head, for an empty branch list.
\<close>

theorem destroy_returns_iff_empty:
  assumes R: "kernel_lists R" and ok: "int_list_ok Y s root xs bs"
  shows "Destroy Y R w root s = (if xs = [] then Some (Done () s) else None)"
proof (cases xs)
  case Nil
  then have "IsListEmpty R root (mem s)"
    using kernel_lists.empty [OF R] int_list_ok_parts(1) [OF ok] by (auto simp: list_at_def)
  then show ?thesis using Nil by (simp add: Destroy_def)
next
  case (Cons t zs)
  let ?h = "t + BranchRoot_offset Y"
  note ok' = int_list_ok_parts [OF ok, unfolded Cons]
  have ring: "ring (mem s) root (t # zs)" using ok'(1) by (simp add: list_at_def)
  let ?m = "snd (RemoveEntryList R t (mem s))"
  have remove: "remove_head R root s = Done t (s\<lparr>mem := ?m\<rparr>)"
    using kernel_lists.remove_head [OF R ring] list_at_not_null [OF ok'(1)] by (simp add: remove_head_def)
  have "ring ?m ?h (bs t)"
  proof (rule ring_frame)
    show "ring (mem s) ?h (bs t)" using ok'(3) [of t] by (simp add: list_at_def)
    show "\<forall>a \<in> set (?h # bs t). ?m a = mem s a"
    proof
      fix a assume "a \<in> set (?h # bs t)"
      then have "a \<notin> set (root # t # zs)" using ok'(4) [of t] by auto
      then show "?m a = mem s a" by (intro kernel_lists.remove_frame [OF R ring]) simp_all
    qed
  qed
  then have l: "list_at (s\<lparr>mem := ?m\<rparr>) ?h (bs t)" using ok'(3) [of t] by (simp add: list_at_def)
  obtain s' where s': "remove_head R ?h (s\<lparr>mem := ?m\<rparr>) = Done (case bs t of [] \<Rightarrow> NULL | x # _ \<Rightarrow> x) s'"
      "list_at s' ?h (tl (bs t))"
    using remove_head_list_at [OF R l] by blast
  have h: "?h \<notin> set (NULL # bs t)" using l by (auto simp: list_at_def ring_def)
  then have "(case bs t of [] \<Rightarrow> NULL | x # _ \<Rightarrow> x) \<noteq> ?h" "?h \<notin> set (tl (bs t))" "?h \<noteq> NULL"
    by (cases "bs t"; simp)+
  then have "drain_branches R w ?h ?h (case bs t of [] \<Rightarrow> NULL | x # _ \<Rightarrow> x) s' = None"
    using drain_never_stops R s'(2) by (metis option.exhaust)
  moreover have "t \<noteq> root" "t \<in> dom (trunks s)" using ring ok'(2) by (auto simp: ring_def)
  ultimately have "destroy_loop Y R w root s = None"
    using remove s'(1) by (subst destroy_loop.simps) (auto simp: Let_def)
  then show ?thesis using Cons list_at_first [OF ok'(1), of R] R by (simp add: Destroy_def)
qed

theorem destroy_returns_iff_empty_witness: "Destroy sample_layout wdm_lists (\<lambda>_ _. 500) 100 sample_list = None"
  using destroy_returns_iff_empty [OF wdm.kernel_lists_axioms sample_list_ok] by simp

text \<open>
  \<^verbatim>\<open>AddBranchEntry\<close> does the opposite of what it is asked to. When a trunk with the wanted value is
  in the list it reports success and adds nothing; when none is, and the allocation succeeds, it
  puts the new branch at the end of the branch list of the last trunk and reports success.
\<close>

theorem add_branch_inverted:
  assumes R: "kernel_lists R" and ok: "int_list_ok Y s root xs bs" and xs: "xs \<noteq> []"
    and p: "p = w (wdm_log s) (ExAllocatePool2 (NonPagedPool Y) (sizeof_Branch Y) DriverPoolTag)"
    and fresh: "p \<noteq> NULL" "p \<notin> set ((last xs + BranchRoot_offset Y) # bs (last xs))"
  shows "if v \<in> trunk_values s xs then AddBranchEntry Y R w root v b s = Some (Done STATUS_SUCCESS s)
    else \<exists>s'. AddBranchEntry Y R w root v b s = Some (Done STATUS_SUCCESS s') \<and>
      list_at s' (last xs + BranchRoot_offset Y) (bs (last xs) @ [p]) \<and> branches s' p = Some b"
proof -
  note ok' = int_list_ok_parts [OF ok] and walk = AddBranchEntry_walk [OF R ok xs, of w v b]
  let ?h = "last xs + BranchRoot_offset Y"
  have l: "list_at s ?h (bs (last xs))" using ok'(3) xs by simp
  let ?m = "(mem s)(p := \<lparr>Flink = NULL, Blink = NULL\<rparr>)"
  have ring: "ring ?m ?h (bs (last xs))"
  proof (rule ring_frame)
    show "ring (mem s) ?h (bs (last xs))" using l by (simp add: list_at_def)
    show "\<forall>a \<in> set (?h # bs (last xs)). ?m a = mem s a" using fresh(2) by auto
  qed
  then have "ring (InsertTailList R ?h p ?m) ?h (bs (last xs) @ [p])"
    using fresh(2) by (rule kernel_lists.insert_tail [OF R])
  moreover have "Blink (?m ?h) \<noteq> NULL" using list_at_not_null [OF l] fresh(2) by auto
  ultimately have "\<exists>s'. append_branch Y R w b (last xs) s = Done STATUS_SUCCESS s' \<and>
      list_at s' ?h (bs (last xs) @ [p]) \<and> branches s' p = Some b"
    using fresh l p kernel_lists.interlocked_insert_tail [OF R]
    by (simp add: append_branch_def new_branch_def operator_new_def wdm_ask_def ask_def Let_def
        insert_tail_def list_at_def)
  then show ?thesis using walk by simp
qed

theorem add_branch_inverted_witness:
  "AddBranchEntry sample_layout wdm_lists (\<lambda>_ _. 500) 100 7 1 sample_list = Some (Done STATUS_SUCCESS sample_list) \<and>
   (\<exists>s'. AddBranchEntry sample_layout wdm_lists (\<lambda>_ _. 500) 100 8 1 sample_list = Some (Done STATUS_SUCCESS s') \<and>
     list_at s' 216 [500])"
proof -
  have fresh: "(500 :: nat) \<noteq> NULL" "500 \<notin> set ((last [200] + BranchRoot_offset sample_layout) # [])"
    by (simp_all add: sample_layout_def)
  note add = add_branch_inverted [OF wdm.kernel_lists_axioms sample_list_ok _ refl, where w = "\<lambda>_ _. 500",
      OF _ fresh, simplified sample_values]
  show ?thesis using add [of 7 1] add [of 8 1] by (auto simp: sample_layout_def)
qed

text \<open>
  \<^verbatim>\<open>DeleteTrunkEntry\<close> reports not found, changing nothing, exactly when no trunk has the value (the
  empty list included); when one has, it never returns.
\<close>

theorem delete_trunk_returns_iff_absent:
  assumes R: "kernel_lists R" and ok: "int_list_ok Y s root xs bs"
    and slot: "slot \<noteq> NULL" "\<forall>t \<in> set xs. slot \<notin> set (bs t)"
  shows "DeleteTrunkEntry Y R w slot root v s =
    (if v \<in> trunk_values s xs then None else Some (Done STATUS_NOT_FOUND s))"
proof (cases xs)
  case Nil
  then have "IsListEmpty R root (mem s)"
    using kernel_lists.empty [OF R] int_list_ok_parts(1) [OF ok] by (auto simp: list_at_def)
  then show ?thesis using Nil by (simp add: DeleteTrunkEntry_def trunk_values_def)
next
  case (Cons t zs)
  note ok' = int_list_ok_parts [OF ok, unfolded Cons]
  have "\<forall>u \<in> set (t # zs). \<exists>bs. list_at s (u + BranchRoot_offset Y) bs \<and> slot \<notin> set bs"
    using ok'(3) slot(2) Cons by blast
  with delete_loop_walk [of s root "[]" t zs R Y slot w v] ok'(1,2) R slot(1)
  have "delete_loop Y R w slot root v t s =
      (if v \<in> trunk_values s (t # zs) then None else Some (Done STATUS_NOT_FOUND s))"
    by simp
  then show ?thesis using Cons list_at_first [OF ok'(1), of R] R list_at_Flink [OF ok'(1)]
    by (simp add: DeleteTrunkEntry_def)
qed

theorem delete_trunk_returns_iff_absent_witness:
  "DeleteTrunkEntry sample_layout wdm_lists (\<lambda>_ _. 500) 900 100 7 sample_list = None \<and>
   DeleteTrunkEntry sample_layout wdm_lists (\<lambda>_ _. 500) 900 100 8 sample_list = Some (Done STATUS_NOT_FOUND sample_list)"
  using delete_trunk_returns_iff_absent [OF wdm.kernel_lists_axioms sample_list_ok, of 900]
  by (simp add: sample_values)

text \<open>
  \<^verbatim>\<open>AddTrunkEntry\<close> appends a new trunk with an empty branch list and then runs off the end of a
  function that must return a status; and when the pool is exhausted it writes through NULL before
  it can report so. It has no execution that returns a value.
\<close>

theorem add_trunk_never_returns_a_status:
  assumes R: "kernel_lists R" and l: "list_at s root xs" and off: "0 < BranchRoot_offset Y"
    and p: "p = w (wdm_log s) (ExAllocatePool2 (NonPagedPool Y) (sizeof_Trunk Y) DriverPoolTag)"
    and fresh: "p \<notin> set (root # xs)" "p + BranchRoot_offset Y \<notin> set (root # xs)"
  shows "\<exists>s'. if p = NULL then AddTrunkEntry Y R w root v s = Stopped (AccessViolation NULL) s'
    else AddTrunkEntry Y R w root v s = Stopped MissingReturn s' \<and>
      list_at s' root (xs @ [p]) \<and> trunks s' = (trunks s)(p \<mapsto> v) \<and>
      list_at s' (p + BranchRoot_offset Y) []"
proof (cases "p = NULL")
  case True
  then show ?thesis using p
    by (simp add: AddTrunkEntry_def new_trunk_def operator_new_def wdm_ask_def ask_def Let_def)
next
  case False
  let ?h = "p + BranchRoot_offset Y"
  let ?m = "InitializeListHead R ?h ((mem s)(p := \<lparr>Flink = NULL, Blink = NULL\<rparr>, ?h := \<lparr>Flink = NULL, Blink = NULL\<rparr>))"
  have same: "\<forall>a \<in> set (root # xs). ?m a = mem s a"
  proof
    fix a assume "a \<in> set (root # xs)"
    then have "a \<noteq> p" "a \<noteq> ?h" using fresh by auto
    then show "?m a = mem s a" by (simp add: kernel_lists.initialize_frame [OF R])
  qed
  have ring: "ring ?m root xs" using l by (intro ring_frame [OF _ same]) (simp add: list_at_def)
  have "?m root = mem s root" using same by simp
  then have "Blink (?m root) \<noteq> NULL" using list_at_not_null [OF l] by simp
  moreover have "ring (InsertTailList R root p ?m) root (xs @ [p])"
    using ring fresh(1) by (rule kernel_lists.insert_tail [OF R])
  moreover have "ring (InsertTailList R root p ?m) ?h []"
  proof (rule ring_frame)
    show "ring ?m ?h []" by (rule kernel_lists.initialize [OF R])
    show "\<forall>a \<in> set [?h]. InsertTailList R root p ?m a = ?m a"
      using kernel_lists.insert_frame [OF R ring, of ?h p] fresh off by simp
  qed
  ultimately show ?thesis using False p l kernel_lists.interlocked_insert_tail [OF R]
    by (simp add: AddTrunkEntry_def new_trunk_def operator_new_def wdm_ask_def ask_def Let_def
        insert_tail_def list_at_def)
qed

theorem add_trunk_never_returns_a_status_witness:
  "\<exists>s'. AddTrunkEntry sample_layout wdm_lists (\<lambda>_ _. 500) 100 9 sample_list = Stopped MissingReturn s' \<and>
     list_at s' 100 [200, 500]"
proof -
  have "list_at sample_list 100 [200]" using sample_list_ok by (simp add: int_list_ok_def)
  from add_trunk_never_returns_a_status [OF wdm.kernel_lists_axioms this, of sample_layout 500 "\<lambda>_ _. 500" 9]
  show ?thesis by (auto simp: sample_layout_def)
qed

text \<open>
  The driver cannot be loaded. Its entry routine allocates the list object, whose head is only
  zeroed, and deletes it at once; the destructor takes the zeroed head for a non-empty list and
  follows its NULL link.
\<close>

theorem entry_follows_null:
  assumes R: "kernel_lists R"
    and p: "p = w (wdm_log s) (ExAllocatePool2 (NonPagedPool Y) (sizeof_IntList Y) DriverPoolTag)"
  shows "\<exists>s'. DriverEntry_wdm Y R w s =
    Some (Stopped (if p = NULL then AccessViolation NULL else UninitialisedHead p) s')"
proof -
  have "\<not> IsListEmpty R p m" if "m p = \<lparr>Flink = NULL, Blink = NULL\<rparr>" "p \<noteq> NULL" for m
    using that by (simp add: kernel_lists.empty_test [OF R])
  then show ?thesis using p
    by (auto simp: DriverEntry_wdm_def operator_new_def wdm_ask_def ask_def Let_def SpinLock_def
        Destroy_def destroy_loop.simps remove_head_def)
qed

theorem entry_follows_null_witness:
  "\<exists>s'. DriverEntry_wdm sample_layout wdm_lists (\<lambda>_ _. 500) sample_list = Some (Stopped (UninitialisedHead 500) s')"
  using entry_follows_null [OF wdm.kernel_lists_axioms, of 500 "\<lambda>_ _. 500"] by simp

end
