(* ===== verification/Int_Forest.thy ===== *)
theory Int_Forest imports Int_List begin

text \<open>
  The class \<^verbatim>\<open>IntList\<close> of \<open>Int_List\<close> as an abstract data type: the memory represents a list of values, each
  with the list of its branches, and every method of the class is a function on such lists.
\<close>

section \<open>The abstract operations\<close>

type_synonym forest = "(UINT32 \<times> UINT32 list) list"

datatype list_op = Add_Trunk UINT32 | Add_Branch UINT32 UINT32 | Delete_Trunk UINT32 | Destroy_All

text \<open>How a call ends: with a status, with nothing, without the status it owes, with a fault, or not at all.\<close>

datatype ending = Returns NTSTATUS | Returns_void | Falls_off_end | Faults | Never_returns

text \<open>What each method does to the values, when the pool has \<open>room\<close> for another entry and when not.\<close>

fun list_spec :: "bool \<Rightarrow> list_op \<Rightarrow> forest \<Rightarrow> ending \<times> forest" where
  "list_spec room (Add_Trunk v) f = (if room then (Falls_off_end, f @ [(v, [])]) else (Faults, f))"
| "list_spec room (Add_Branch v b) f =
     (if f = [] then (Returns STATUS_NOT_FOUND, f)
      else if v \<in> fst ` set f then (Returns STATUS_SUCCESS, f)
      else if room then (Returns STATUS_SUCCESS, butlast f @ [(fst (last f), snd (last f) @ [b])])
      else (Faults, f))"
| "list_spec room (Delete_Trunk v) f = (if v \<in> fst ` set f then (Never_returns, f) else (Returns STATUS_NOT_FOUND, f))"
| "list_spec room Destroy_All f = (if f = [] then (Returns_void, f) else (Never_returns, f))"

section \<open>The methods and how they end\<close>

fun run_op ::
  "wdm_layout \<Rightarrow> list_routines \<Rightarrow> wdm_world \<Rightarrow> addr \<Rightarrow> addr \<Rightarrow> list_op \<Rightarrow> wdm_state \<Rightarrow> NTSTATUS option outcome option" where
  "run_op Y R w slot root (Add_Trunk v) s = Some (map_outcome Some (AddTrunkEntry Y R w root v s))"
| "run_op Y R w slot root (Add_Branch v b) s = map_option (map_outcome Some) (AddBranchEntry Y R w root v b s)"
| "run_op Y R w slot root (Delete_Trunk v) s = map_option (map_outcome Some) (DeleteTrunkEntry Y R w slot root v s)"
| "run_op Y R w slot root Destroy_All s = map_option (map_outcome (\<lambda>_. None)) (Destroy Y R w root s)"

text \<open>A call that does not return leaves no state, so the one it started in stands for it.\<close>

fun ending_of :: "wdm_state \<Rightarrow> NTSTATUS option outcome option \<Rightarrow> ending \<times> wdm_state" where
  "ending_of s None = (Never_returns, s)"
| "ending_of s (Some (Done None s')) = (Returns_void, s')"
| "ending_of s (Some (Done (Some st) s')) = (Returns st, s')"
| "ending_of s (Some (Stopped f s')) = (if f = MissingReturn then Falls_off_end else Faults, s')"

section \<open>What the memory represents\<close>

text \<open>The links that belong to the list: its head, and for each trunk its link, its branch head and its branches.\<close>

definition list_cells :: "wdm_layout \<Rightarrow> addr \<Rightarrow> addr list \<Rightarrow> (addr \<Rightarrow> addr list) \<Rightarrow> addr list" where
  "list_cells Y root xs bs = root # concat (map (\<lambda>t. t # (t + BranchRoot_offset Y) # bs t) xs)"

definition represents ::
  "wdm_layout \<Rightarrow> wdm_state \<Rightarrow> addr \<Rightarrow> addr list \<Rightarrow> (addr \<Rightarrow> addr list) \<Rightarrow> forest \<Rightarrow> bool" where
  "represents Y s root xs bs f \<longleftrightarrow>
     distinct (list_cells Y root xs bs) \<and> NULL \<notin> set (list_cells Y root xs bs) \<and>
     ring (mem s) root xs \<and> (\<forall>t \<in> set xs. ring (mem s) (t + BranchRoot_offset Y) (bs t)) \<and>
     map (\<lambda>t. (trunks s t, map (branches s) (bs t))) xs = map (\<lambda>(v, vs). (Some v, map Some vs)) f"

text \<open>The pool has no room, or hands out memory outside the list.\<close>

definition pool_answers :: "wdm_layout \<Rightarrow> wdm_world \<Rightarrow> wdm_state \<Rightarrow> bool \<Rightarrow> addr list \<Rightarrow> bool" where
  "pool_answers Y w s room cells \<longleftrightarrow>
     (\<forall>n. let p = w (wdm_log s) (ExAllocatePool2 (NonPagedPool Y) n DriverPoolTag)
          in if room then p \<noteq> NULL \<and> p \<notin> set cells \<and> p + BranchRoot_offset Y \<notin> set cells else p = NULL)"

lemma list_cells_snoc:
  "list_cells Y root (xs @ [t]) bs = list_cells Y root xs bs @ [t, t + BranchRoot_offset Y] @ bs t"
  by (simp add: list_cells_def)

lemma list_cells_upd [simp]: "t \<notin> set xs \<Longrightarrow> list_cells Y root xs (bs(t := ys)) = list_cells Y root xs bs"
  by (auto simp: list_cells_def intro!: arg_cong [of _ _ concat])

lemma cells_of_members:
  "set (root # xs) \<subseteq> set (list_cells Y root xs bs)"
  "t \<in> set xs \<Longrightarrow> set ((t + BranchRoot_offset Y) # bs t) \<subseteq> set (list_cells Y root xs bs)"
  by (auto simp: list_cells_def)

lemma distinct_cells_apart:
  assumes "distinct (list_cells Y root xs bs)" "t \<in> set xs"
  shows "set ((t + BranchRoot_offset Y) # bs t) \<inter> set (root # xs) = {}"
proof -
  obtain ys zs where xs: "xs = ys @ t # zs" using assms(2) by (meson split_list)
  have "set us \<subseteq> set (concat (map (\<lambda>t. t # (t + BranchRoot_offset Y) # bs t) us))" for us by auto
  from this [of ys] this [of zs] show ?thesis
    using assms(1) unfolding xs list_cells_def by (auto simp del: set_concat set_map)
qed

lemma represents_list_at:
  assumes "represents Y s root xs bs f"
  shows "list_at s root xs" "t \<in> set xs \<Longrightarrow> list_at s (t + BranchRoot_offset Y) (bs t)"
proof -
  have *: "NULL \<notin> set (list_cells Y root xs bs)" "ring (mem s) root xs"
    "\<forall>t \<in> set xs. ring (mem s) (t + BranchRoot_offset Y) (bs t)"
    using assms by (simp_all add: represents_def)
  show "list_at s root xs"
    using * cells_of_members(1) [of root xs Y bs] unfolding list_at_def by blast
  show "list_at s (t + BranchRoot_offset Y) (bs t)" if "t \<in> set xs"
    using * cells_of_members(2) [OF that, of Y bs root] that unfolding list_at_def by blast
qed

lemma represents_dom:
  assumes "represents Y s root xs bs f"
  shows "set xs \<subseteq> dom (trunks s)" "trunk_values s xs = fst ` set f" "xs = [] \<longleftrightarrow> f = []"
proof -
  have m: "map (\<lambda>t. (trunks s t, map (branches s) (bs t))) xs = map (\<lambda>(v, vs). (Some v, map Some vs)) f"
    using assms by (simp add: represents_def)
  from arg_cong [OF m, of "map fst"] have t: "map (trunks s) xs = map (\<lambda>x. Some (fst x)) f"
    by (simp add: comp_def split_def)
  have "\<exists>v. trunks s x = Some v" if "x \<in> set xs" for x
  proof -
    have "trunks s x \<in> set (map (trunks s) xs)" using that by simp
    then show ?thesis unfolding t by auto
  qed
  then show "set xs \<subseteq> dom (trunks s)" by blast
  from arg_cong [OF t, of "\<lambda>ys. the ` set ys"] show "trunk_values s xs = fst ` set f"
    by (simp add: trunk_values_def image_image)
  show "xs = [] \<longleftrightarrow> f = []" using m by auto
qed

lemma represents_ok: "represents Y s root xs bs f \<Longrightarrow> int_list_ok Y s root xs bs"
  using represents_list_at [of Y s root xs bs f] represents_dom(1) [of Y s root xs bs f]
    distinct_cells_apart [of Y root xs bs]
  by (simp add: int_list_ok_def represents_def)

text \<open>Calls that only lengthen the trace change nothing.\<close>

lemma represents_log [simp]: "represents Y (s\<lparr>wdm_log := tr\<rparr>) root xs bs f = represents Y s root xs bs f"
  by (simp add: represents_def)

section \<open>Each method implements its specification\<close>

lemma other_ring_kept:
  assumes R: "kernel_lists R" and m: "ring m h xs" and k: "ring m k ys" "set (k # ys) \<inter> set (x # h # xs) = {}"
  shows "ring (InsertTailList R h x m) k ys"
proof (rule ring_frame [OF k(1)])
  show "\<forall>a \<in> set (k # ys). InsertTailList R h x m a = m a"
    using k(2) by (intro ballI kernel_lists.insert_frame [OF R m]) auto
qed

text \<open>A branch that is new to the list, at the end of the branches of the last trunk.\<close>

lemma represents_new_branch:
  assumes R: "kernel_lists R" and rep: "represents Y s root (zs @ [t]) bs f"
    and p: "p \<noteq> NULL" "p \<notin> set (list_cells Y root (zs @ [t]) bs)"
    and m: "m = (mem s)(p := \<lparr>Flink = NULL, Blink = NULL\<rparr>)"
  shows "represents Y (s\<lparr>wdm_log := l, branches := (branches s)(p \<mapsto> b), mem := InsertTailList R (t + BranchRoot_offset Y) p m\<rparr>)
      root (zs @ [t]) (bs(t := bs t @ [p])) (butlast f @ [(fst (last f), snd (last f) @ [b])])"
proof -
  let ?h = "t + BranchRoot_offset Y" and ?C = "list_cells Y root (zs @ [t]) bs" and ?bs = "bs(t := bs t @ [p])"
  let ?m = "InsertTailList R ?h p m"
  have C: "?C = list_cells Y root zs bs @ [t, ?h] @ bs t" by (rule list_cells_snoc)
  have dist: "distinct ?C" "NULL \<notin> set ?C" using rep by (simp_all add: represents_def)
  have tz: "t \<notin> set zs" using dist(1) cells_of_members(1) [of root zs Y bs] unfolding C by auto
  have cells: "list_cells Y root (zs @ [t]) ?bs = ?C @ [p]" using tz by (simp add: list_cells_snoc)
  have kept: "ring m k ys" if "ring (mem s) k ys" "set (k # ys) \<subseteq> set ?C" for k ys
    using that p(2) by (intro ring_frame [OF that(1)]) (auto simp: m)
  have mt: "ring m ?h (bs t)"
    using rep cells_of_members(2) [of t "zs @ [t]" Y bs root] by (intro kept) (auto simp: represents_def)
  have new: "ring ?m ?h (bs t @ [p])"
    using p(2) unfolding C by (intro kernel_lists.insert_tail [OF R mt]) auto
  have other: "ring ?m k ys"
    if "ring (mem s) k ys" "set (k # ys) \<subseteq> set (t # list_cells Y root zs bs)" for k ys
    using that dist(1) p(2) unfolding C by (intro other_ring_kept [OF R mt] kept) (auto simp: C)
  have "ring ?m root (zs @ [t])"
    using rep cells_of_members(1) [of root zs Y bs] by (intro other) (auto simp: represents_def)
  moreover have "ring ?m (u + BranchRoot_offset Y) (?bs u)" if "u \<in> set (zs @ [t])" for u
    using rep that new cells_of_members(2) [of u zs Y bs root]
    by (cases "u = t") (simp, simp, intro other, auto simp: represents_def)
  moreover obtain f0 v vs where f: "f = f0 @ [(v, vs)]"
    using represents_dom(3) [OF rep] by (metis rev_exhaust snoc_eq_iff_butlast surj_pair)
  moreover have vals: "map (\<lambda>t. (trunks s t, map (branches s) (bs t))) zs = map (\<lambda>(v, vs). (Some v, map Some vs)) f0"
    "trunks s t = Some v" "map (branches s) (bs t) = map Some vs"
    using rep by (simp_all add: represents_def f)
  moreover have "map (\<lambda>t. (trunks s t, map ((branches s)(p \<mapsto> b)) (?bs t))) zs = map (\<lambda>(v, vs). (Some v, map Some vs)) f0"
  proof -
    have "p \<notin> set (bs u)" if "u \<in> set zs" for u
      using p(2) cells_of_members(2) [OF that, of Y bs root] unfolding C by auto
    then show ?thesis unfolding vals(1) [symmetric] using tz by (intro map_cong) auto
  qed
  moreover have "p \<notin> set (bs t)" using p(2) unfolding C by simp
  ultimately show ?thesis using p dist by (simp add: represents_def cells)
qed

lemma append_branch_spec:
  assumes R: "kernel_lists R"
    and rep: "represents Y s root (zs @ [t]) bs f" and pool: "pool_answers Y w s True (list_cells Y root (zs @ [t]) bs)"
  shows "\<exists>p s'. append_branch Y R w b t s = Done STATUS_SUCCESS s' \<and>
    represents Y s' root (zs @ [t]) (bs(t := bs t @ [p])) (butlast f @ [(fst (last f), snd (last f) @ [b])])"
proof -
  let ?h = "t + BranchRoot_offset Y"
  define p where "p = w (wdm_log s) (ExAllocatePool2 (NonPagedPool Y) (sizeof_Branch Y) DriverPoolTag)"
  have p: "p \<noteq> NULL" "p \<notin> set (list_cells Y root (zs @ [t]) bs)"
    using pool by (auto simp: pool_answers_def p_def Let_def)
  define m where "m = (mem s)(p := \<lparr>Flink = NULL, Blink = NULL\<rparr>)"
  have "Blink (m ?h) \<noteq> NULL"
    using list_at_not_null [OF represents_list_at(2) [OF rep, of t]] p(2) unfolding list_cells_snoc m_def by auto
  then have "append_branch Y R w b t s = Done STATUS_SUCCESS
      (s\<lparr>wdm_log := wdm_log s @ [(ExAllocatePool2 (NonPagedPool Y) (sizeof_Branch Y) DriverPoolTag, p)],
         branches := (branches s)(p \<mapsto> b), mem := InsertTailList R ?h p m\<rparr>)"
    using p kernel_lists.interlocked_insert_tail [OF R]
    by (simp add: append_branch_def new_branch_def operator_new_def wdm_ask_def ask_def Let_def
        insert_tail_def p_def [symmetric] m_def)
  then show ?thesis using represents_new_branch [OF R rep p m_def] by blast
qed

lemma represents_new_trunk:
  fixes Y s root xs bs R p
  defines "h \<equiv> p + BranchRoot_offset Y"
  defines "m \<equiv> InitializeListHead R h ((mem s)(p := \<lparr>Flink = NULL, Blink = NULL\<rparr>, h := \<lparr>Flink = NULL, Blink = NULL\<rparr>))"
  defines "C \<equiv> list_cells Y root xs bs"
  assumes R: "kernel_lists R" and off: "0 < BranchRoot_offset Y" and rep: "represents Y s root xs bs f"
    and p: "p \<noteq> NULL" "p \<notin> set C" "h \<notin> set C"
  shows "Blink (m root) \<noteq> NULL"
    and "represents Y (s\<lparr>wdm_log := l, trunks := (trunks s)(p \<mapsto> v), mem := InsertTailList R root p m\<rparr>)
      root (xs @ [p]) (bs(p := [])) (f @ [(v, [])])" (is "represents Y ?s _ _ _ _")
proof -
  let ?m = "InsertTailList R root p m"
  have same: "m a = mem s a" if "a \<in> set C" for a
  proof -
    have "a \<noteq> p" "a \<noteq> h" using that p(2,3) by auto
    then show ?thesis by (simp add: m_def kernel_lists.initialize_frame [OF R])
  qed
  have dist: "distinct C" "NULL \<notin> set C" using rep by (simp_all add: represents_def C_def)
  have root: "set (root # xs) \<subseteq> set C" unfolding C_def by (rule cells_of_members(1))
  show "Blink (m root) \<noteq> NULL"
    using list_at_not_null [OF represents_list_at(1) [OF rep]] same [of root] root by simp
  have mr: "ring m root xs"
    by (rule ring_frame [of "mem s"]) (use rep root same in \<open>unfold represents_def, blast+\<close>)
  have outside: "p \<notin> set (root # xs)" "h \<notin> set (root # xs)" using p(2,3) root by blast+
  have trunk: "ring ?m root (xs @ [p])" by (rule kernel_lists.insert_tail [OF R mr outside(1)])
  have "ring m h []" unfolding m_def by (rule kernel_lists.initialize [OF R])
  then have new: "ring ?m h []"
    using outside(2) off by (intro other_ring_kept [OF R mr]) (auto simp: h_def)
  have other: "ring ?m (t + BranchRoot_offset Y) (bs t)" if t: "t \<in> set xs" for t
  proof (rule other_ring_kept [OF R mr])
    have c: "set ((t + BranchRoot_offset Y) # bs t) \<subseteq> set C" unfolding C_def by (rule cells_of_members(2) [OF t])
    have "ring (mem s) (t + BranchRoot_offset Y) (bs t)" using rep t by (simp add: represents_def)
    then show "ring m (t + BranchRoot_offset Y) (bs t)"
      by (rule ring_frame) (intro ballI same, rule subsetD [OF c])
    show "set ((t + BranchRoot_offset Y) # bs t) \<inter> set (p # root # xs) = {}"
      using c p(2) distinct_cells_apart [OF dist(1) [unfolded C_def] t] by auto
  qed
  have px: "p \<notin> set xs" using outside(1) by simp
  then have cells: "list_cells Y root (xs @ [p]) (bs(p := [])) = C @ [p, h]" by (simp add: list_cells_snoc C_def h_def)
  have "map (\<lambda>t. (((trunks s)(p \<mapsto> v)) t, map (branches s) ((bs(p := [])) t))) xs =
      map (\<lambda>t. (trunks s t, map (branches s) (bs t))) xs"
    using px by (intro map_cong) auto
  then show "represents Y ?s root (xs @ [p]) (bs(p := [])) (f @ [(v, [])])"
    using rep p dist off trunk new other unfolding represents_def cells by (auto simp: h_def)
qed

lemma add_trunk_spec:
  assumes R: "kernel_lists R" and off: "0 < BranchRoot_offset Y"
    and rep: "represents Y s root xs bs f" and pool: "pool_answers Y w s True (list_cells Y root xs bs)"
  shows "\<exists>p s'. AddTrunkEntry Y R w root v s = Stopped MissingReturn s' \<and>
    represents Y s' root (xs @ [p]) (bs(p := [])) (f @ [(v, [])])"
proof -
  define p where "p = w (wdm_log s) (ExAllocatePool2 (NonPagedPool Y) (sizeof_Trunk Y) DriverPoolTag)"
  let ?h = "p + BranchRoot_offset Y"
  have p: "p \<noteq> NULL" "p \<notin> set (list_cells Y root xs bs)" "?h \<notin> set (list_cells Y root xs bs)"
    using pool by (auto simp: pool_answers_def p_def Let_def)
  define m where "m = InitializeListHead R ?h
    ((mem s)(p := \<lparr>Flink = NULL, Blink = NULL\<rparr>, ?h := \<lparr>Flink = NULL, Blink = NULL\<rparr>))"
  note new = represents_new_trunk [OF R off rep p, folded m_def]
  from new(1) have "AddTrunkEntry Y R w root v s = Stopped MissingReturn
    (s\<lparr>wdm_log := wdm_log s @ [(ExAllocatePool2 (NonPagedPool Y) (sizeof_Trunk Y) DriverPoolTag, p)],
       trunks := (trunks s)(p \<mapsto> v), mem := InsertTailList R root p m\<rparr>)"
    using p kernel_lists.interlocked_insert_tail [OF R]
    by (simp add: AddTrunkEntry_def new_trunk_def operator_new_def wdm_ask_def ask_def Let_def
        insert_tail_def p_def [symmetric] m_def)
  then show ?thesis using new(2) by blast
qed

text \<open>Without room the new-expression writes through NULL, and the list is as it was.\<close>

lemma no_room:
  assumes "pool_answers Y w s False cells" and rep: "represents Y s root xs bs f"
  shows "\<exists>s'. AddTrunkEntry Y R w root v s = Stopped (AccessViolation NULL) s' \<and> represents Y s' root xs bs f"
    "\<exists>s'. append_branch Y R w b t s = Stopped (AccessViolation NULL) s' \<and> represents Y s' root xs bs f"
  using assms by (simp_all add: pool_answers_def Let_def AddTrunkEntry_def new_trunk_def append_branch_def
      new_branch_def operator_new_def wdm_ask_def ask_def)

lemma add_branch_refines:
  assumes R: "kernel_lists R" and off: "0 < BranchRoot_offset Y" and rep: "represents Y s root xs bs f"
    and pool: "pool_answers Y w s room (list_cells Y root xs bs)"
    and run: "ending_of s (map_option (map_outcome Some) (AddBranchEntry Y R w root v b s)) = (e, s')"
  shows "e = fst (list_spec room (Add_Branch v b) f) \<and>
    (\<exists>xs' bs'. represents Y s' root xs' bs' (snd (list_spec room (Add_Branch v b) f)))"
proof -
  note ok = represents_ok [OF rep] and vals = represents_dom(2,3) [OF rep]
  consider "xs = []" | "xs \<noteq> []" "v \<in> fst ` set f" | "xs \<noteq> []" "v \<notin> fst ` set f" "room"
    | "xs \<noteq> []" "v \<notin> fst ` set f" "\<not> room" by blast
  then show ?thesis
  proof cases
    case 1
    then have "IsListEmpty R root (mem s)"
      using kernel_lists.empty [OF R] rep by (auto simp: represents_def)
    then show ?thesis using 1 vals(2) rep run by (auto simp: AddBranchEntry_def)
  next
    case 2
    then show ?thesis
      using AddBranchEntry_walk [OF R ok 2(1), of w v b] vals rep run by auto
  next
    case 3
    from 3(1) have xs: "xs = butlast xs @ [last xs]" by simp
    show ?thesis
      using append_branch_spec [OF R, of Y s root "butlast xs" "last xs" bs f w b] xs
        AddBranchEntry_walk [OF R ok 3(1), of w v b] vals 3 rep pool run by fastforce
  next
    case 4
    then show ?thesis
      using no_room(2) [of Y w s _ root xs bs f R b "last xs"] AddBranchEntry_walk [OF R ok 4(1), of w v b]
        vals rep pool run by fastforce
  qed
qed

section \<open>Properties\<close>

text \<open>
  C35: Every method of the class is its specification on the values. When the memory represents a list of
  trunks and branches, and the pool either has no room or hands out memory outside the list, each
  call ends the way the specification says and leaves memory that represents the list the
  specification says: a trunk is appended but the status is missing, a branch is appended to the
  last trunk unless the wanted trunk is there, and deleting a trunk that is there, or destroying a
  list that is not empty, never returns.
\<close>

theorem methods_refine_the_lists:
  assumes R: "kernel_lists R" and off: "0 < BranchRoot_offset Y" and rep: "represents Y s root xs bs f"
    and pool: "pool_answers Y w s room (list_cells Y root xs bs)"
    and slot: "slot \<noteq> NULL" "slot \<notin> set (list_cells Y root xs bs)"
    and run: "ending_of s (run_op Y R w slot root op s) = (e, s')"
  shows "e = fst (list_spec room op f) \<and> (\<exists>xs' bs'. represents Y s' root xs' bs' (snd (list_spec room op f)))"
proof -
  note ok = represents_ok [OF rep] and vals = represents_dom(2,3) [OF rep]
  show ?thesis
  proof (cases op)
    case (Add_Trunk v)
    show ?thesis
    proof (cases room)
      case True
      then show ?thesis using add_trunk_spec [OF R off rep, of w v] pool run Add_Trunk by fastforce
    next
      case False
      then show ?thesis using no_room(1) [of Y w s _ root xs bs f R v] rep pool run Add_Trunk by fastforce
    qed
  next
    case (Add_Branch v b)
    then show ?thesis using add_branch_refines [OF R off rep pool] run by simp
  next
    case (Delete_Trunk v)
    have "\<forall>t \<in> set xs. slot \<notin> set (bs t)" using slot(2) cells_of_members(2) [of _ xs Y bs root] by auto
    then show ?thesis
      using delete_trunk_returns_iff_absent [OF R ok slot(1), of w v] vals(1) rep run Delete_Trunk
      by (cases "v \<in> fst ` set f") auto
  next
    case Destroy_All
    then show ?thesis
      using destroy_returns_iff_empty [OF R ok, of w] vals(2) rep run by (cases "f = []"; fastforce)
  qed
qed

lemma sample_represents: "represents sample_layout sample_list 100 [200] (\<lambda>_. []) [(7, [])]"
  by (simp add: represents_def list_cells_def ring_def sample_list_def sample_layout_def)

theorem methods_refine_the_lists_witness:
  "\<exists>s' xs' bs'. ending_of sample_list (run_op sample_layout wdm_lists (\<lambda>_ _. 500) 900 100 (Add_Branch 8 1) sample_list) =
     (Returns STATUS_SUCCESS, s') \<and> represents sample_layout s' 100 xs' bs' [(7, [1])]"
proof -
  let ?r = "ending_of sample_list (run_op sample_layout wdm_lists (\<lambda>_ _. 500) 900 100 (Add_Branch 8 1) sample_list)"
  have "pool_answers sample_layout (\<lambda>_ _. 500) sample_list True (list_cells sample_layout 100 [200] (\<lambda>_. []))"
    "(900 :: nat) \<noteq> NULL" "900 \<notin> set (list_cells sample_layout 100 [200] (\<lambda>_. []))" "0 < BranchRoot_offset sample_layout"
    by (simp_all add: pool_answers_def list_cells_def sample_layout_def)
  then show ?thesis
    using methods_refine_the_lists [OF wdm.kernel_lists_axioms _ sample_represents, of "\<lambda>_ _. 500" True 900 "Add_Branch 8 1" "fst ?r" "snd ?r"]
    by (cases ?r) auto
qed

end
