(* ===== verification/Priority_Booster.thy ===== *)
theory Priority_Booster imports Prelude "HOL-Library.Multiset" begin

text \<open>
  The priority booster: the driver (\<^verbatim>\<open>src/PriorityBooster\<close>), whose control request raises the
  priority of a thread, and the console client that sends the request
  (\<^verbatim>\<open>src/PriorityBoosterClient\<close>). The request uses the method that hands the driver the caller's own
  pointer, so every read through it is a call that the world answers, at the time it is made.
\<close>

unbundle bit_operations_syntax

section \<open>What both sides share\<close>

text \<open>The macros and constants of the kernel headers that the two programs are compiled with.\<close>

record pb_platform =
  NT_SUCCESS :: "NTSTATUS \<Rightarrow> bool"
  CTL_CODE :: "ULONG \<Rightarrow> ULONG \<Rightarrow> ULONG \<Rightarrow> ULONG \<Rightarrow> ULONG"
  METHOD_NEITHER :: ULONG
  FILE_ANY_ACCESS :: ULONG
  FILE_DEVICE_UNKNOWN :: ULONG
  sizeof_ThreadData :: nat
  Priority_offset :: nat
  pb_IRP_MJ_CREATE :: nat
  pb_IRP_MJ_CLOSE :: nat
  pb_IRP_MJ_DEVICE_CONTROL :: nat

record ThreadData =
  ThreadId :: ULONG
  Priority :: UINT32

definition PRIORITY_BOOSTER_DEVICE :: ULONG where "PRIORITY_BOOSTER_DEVICE = 0x8000"

definition IOCTL_PRIORITY_BOOSTER_SET_PRIORITY :: "pb_platform \<Rightarrow> ULONG" where
  "IOCTL_PRIORITY_BOOSTER_SET_PRIORITY P =
     CTL_CODE P PRIORITY_BOOSTER_DEVICE 0x800 (METHOD_NEITHER P) (FILE_ANY_ACCESS P)"

definition IoctlPriorityBoosterSetPriority :: "pb_platform \<Rightarrow> ULONG" where
  "IoctlPriorityBoosterSetPriority P =
     CTL_CODE P PRIORITY_BOOSTER_DEVICE 0x800 (METHOD_NEITHER P) (FILE_ANY_ACCESS P)"

section \<open>The driver\<close>

datatype pb_routine = DriverUnload_pb | CreateClose_pb | DeviceControl_pb

datatype pb_call =
    IoCreateDevice addr string ULONG
  | IoCreateSymbolicLink string string
  | IoDeleteSymbolicLink string
  | IoDeleteDevice addr
  | IoCompleteRequest addr NTSTATUS nat
  | ReadUser addr
  | PsLookupThreadByThreadId ULONG
  | KeSetPriorityThread addr UINT32
  | ObDereferenceObject addr

text \<open>A read through a user pointer answers the value, or nothing where the memory is not readable.\<close>

record pb_ret = os_ret +
  ret_read :: "UINT32 option"

type_synonym pb_trace = "(pb_call, pb_ret) trace"
type_synonym pb_world = "(pb_call, pb_ret) world"

text \<open>A dispatch routine returns a status, or the machine stops on an access that is not handled.\<close>

datatype pb_result = Returned NTSTATUS pb_trace | BugCheck pb_trace

text \<open>What the entry routine puts into the driver object.\<close>

record driver_object =
  unload :: "pb_routine option"
  MajorFunction :: "nat \<Rightarrow> pb_routine option"

definition pb_device_name :: string where
  "pb_device_name = CHR 0x5C # ''Device'' @ CHR 0x5C # ''PriorityBooster''"

definition pb_link_name :: string where
  "pb_link_name = CHR 0x5C # ''??'' @ CHR 0x5C # ''PriorityBooster''"

definition DriverUnload_booster :: "pb_world \<Rightarrow> addr \<Rightarrow> pb_trace \<Rightarrow> pb_trace" where
  "DriverUnload_booster w DeviceObject tr =
     (let tr = snd (ask w (IoDeleteSymbolicLink pb_link_name) tr)
      in snd (ask w (IoDeleteDevice DeviceObject) tr))"

definition PriorityBoosterCreateClose :: "pb_world \<Rightarrow> addr \<Rightarrow> pb_trace \<Rightarrow> pb_result" where
  "PriorityBoosterCreateClose w irp tr =
     Returned STATUS_SUCCESS (snd (ask w (IoCompleteRequest irp STATUS_SUCCESS 0) tr))"

text \<open>Reading a field of the caller's structure.\<close>

definition read_user :: "pb_world \<Rightarrow> addr \<Rightarrow> pb_trace \<Rightarrow> UINT32 option \<times> pb_trace" where
  "read_user w a tr = (let (r, tr) = ask w (ReadUser a) tr in (ret_read r, tr))"

text \<open>The case of the switch that raises the priority: its status, or nothing for a failed read.\<close>

definition set_priority ::
  "pb_platform \<Rightarrow> pb_world \<Rightarrow> nat \<Rightarrow> addr \<Rightarrow> pb_trace \<Rightarrow> NTSTATUS option \<times> pb_trace" where
  "set_priority P w InputBufferLength data tr =
     (if InputBufferLength < sizeof_ThreadData P then (Some STATUS_BUFFER_TOO_SMALL, tr)
      else if data = NULL then (Some STATUS_INVALID_PARAMETER, tr)
      else
        case read_user w (data + Priority_offset P) tr of
          (None, tr) \<Rightarrow> (None, tr)
        | (Some priority, tr) \<Rightarrow>
            if sint priority < 1 then (Some STATUS_INVALID_PARAMETER, tr)
            else
              case read_user w (data + Priority_offset P) tr of
                (None, tr) \<Rightarrow> (None, tr)
              | (Some priority, tr) \<Rightarrow>
                  if sint priority > 31 then (Some STATUS_INVALID_PARAMETER, tr)
                  else
                    case read_user w data tr of
                      (None, tr) \<Rightarrow> (None, tr)
                    | (Some threadId, tr) \<Rightarrow>
                        let (r, tr) = ask w (PsLookupThreadByThreadId threadId) tr;
                            thread = ret_out r
                        in if \<not> NT_SUCCESS P (ret_status r) then (Some (ret_status r), tr)
                           else
                             case read_user w (data + Priority_offset P) tr of
                               (None, tr) \<Rightarrow> (None, tr)
                             | (Some priority, tr) \<Rightarrow>
                                 let tr = snd (ask w (KeSetPriorityThread thread priority) tr);
                                     tr = snd (ask w (ObDereferenceObject thread) tr)
                                 in (Some (ret_status r), tr))"

definition PriorityBoosterDeviceControl ::
  "pb_platform \<Rightarrow> pb_world \<Rightarrow> addr \<Rightarrow> ULONG \<Rightarrow> nat \<Rightarrow> addr \<Rightarrow> pb_trace \<Rightarrow> pb_result" where
  "PriorityBoosterDeviceControl P w irp IoControlCode InputBufferLength Type3InputBuffer tr =
     (let (status, tr) =
            (if IoControlCode = IOCTL_PRIORITY_BOOSTER_SET_PRIORITY P
             then set_priority P w InputBufferLength Type3InputBuffer tr
             else (Some STATUS_INVALID_DEVICE_REQUEST, tr))
      in case status of
           None \<Rightarrow> BugCheck tr
         | Some status \<Rightarrow> Returned status (snd (ask w (IoCompleteRequest irp status 0) tr)))"

definition DriverEntry_booster ::
  "pb_platform \<Rightarrow> pb_world \<Rightarrow> addr \<Rightarrow> driver_object \<Rightarrow> pb_trace \<Rightarrow> NTSTATUS \<times> driver_object \<times> pb_trace" where
  "DriverEntry_booster P w driverObject d tr =
     (let d = d\<lparr>unload := Some DriverUnload_pb,
                MajorFunction := (MajorFunction d)(pb_IRP_MJ_CREATE P \<mapsto> CreateClose_pb,
                  pb_IRP_MJ_CLOSE P \<mapsto> CreateClose_pb, pb_IRP_MJ_DEVICE_CONTROL P \<mapsto> DeviceControl_pb)\<rparr>;
          (r, tr) = ask w (IoCreateDevice driverObject pb_device_name (FILE_DEVICE_UNKNOWN P)) tr
      in if \<not> NT_SUCCESS P (ret_status r) then (ret_status r, d, tr)
         else
           let (r, tr) = ask w (IoCreateSymbolicLink pb_link_name pb_device_name) tr
           in if \<not> NT_SUCCESS P (ret_status r) then (ret_status r, d, tr)
              else (STATUS_SUCCESS, d, tr))"

section \<open>The client\<close>

datatype client_call =
    CreateFileW string
  | DeviceIoControl handle ULONG ThreadData nat
  | GetLastError
  | Wcout string
  | Wcerr string

type_synonym client_world = "(client_call, nat) world"
type_synonym client_trace = "(client_call, nat) trace"

datatype client_end = Exit int | Uncaught string

text \<open>
  \<^verbatim>\<open>std::stoul\<close> and \<^verbatim>\<open>std::stoi\<close>: white space, a sign, decimal digits; text behind the digits is
  ignored. Long integers have 32 bits.
\<close>

definition is_space :: "char \<Rightarrow> bool" where
  "is_space c \<longleftrightarrow> of_char c = (32 :: nat) \<or> 9 \<le> (of_char c :: nat) \<and> (of_char c :: nat) \<le> 13"

definition is_digit :: "char \<Rightarrow> bool" where
  "is_digit c \<longleftrightarrow> 48 \<le> (of_char c :: nat) \<and> (of_char c :: nat) \<le> 57"

definition digit_value :: "char \<Rightarrow> nat" where "digit_value c = of_char c - 48"

definition parse_number :: "string \<Rightarrow> (bool \<times> nat) option" where
  "parse_number s =
     (let s = dropWhile is_space s;
          negative = (s \<noteq> [] \<and> hd s = CHR ''-'');
          s = (if s \<noteq> [] \<and> (hd s = CHR ''-'' \<or> hd s = CHR ''+'') then tl s else s);
          ds = takeWhile is_digit s
      in if ds = [] then None
         else Some (negative, foldl (\<lambda>n c. 10 * n + digit_value c) 0 ds))"

definition stoul :: "string \<Rightarrow> string + ULONG" where
  "stoul s =
     (case parse_number s of
        None \<Rightarrow> Inl ''invalid_argument''
      | Some (negative, n) \<Rightarrow>
          if 2 ^ 32 \<le> n then Inl ''out_of_range''
          else Inr (if negative then - of_nat n else of_nat n))"

definition stoi :: "string \<Rightarrow> string + UINT32" where
  "stoi s =
     (case parse_number s of
        None \<Rightarrow> Inl ''invalid_argument''
      | Some (negative, n) \<Rightarrow>
          if (if negative then 2 ^ 31 < n else 2 ^ 31 \<le> n) then Inl ''out_of_range''
          else Inr (if negative then - of_nat n else of_nat n))"

definition client_device :: string where
  "client_device = [CHR 0x5C, CHR 0x5C, CHR ''.'', CHR 0x5C] @ ''PriorityBooster''"

definition client_main ::
  "pb_platform \<Rightarrow> client_world \<Rightarrow> string list \<Rightarrow> client_trace \<Rightarrow> client_end \<times> client_trace" where
  "client_main P w args tr =
     (if length args < 3
      then (Exit 0, snd (ask w (Wcout ''Usage: Booster <threadid> <priority>'') tr))
      else
        let (hDevice, tr) = ask w (CreateFileW client_device) tr in
        if hDevice = NULL
        then (let (_, tr) = ask w GetLastError tr
              in (Exit 1, snd (ask w (Wcerr ''CreateFileW() failed: '') tr)))
        else
          case stoul (args ! 1) of
            Inl x \<Rightarrow> (Uncaught x, tr)
          | Inr tid \<Rightarrow>
              (case stoi (args ! 2) of
                 Inl x \<Rightarrow> (Uncaught x, tr)
               | Inr priority \<Rightarrow>
                   let (success, tr) = ask w (DeviceIoControl hDevice (IoctlPriorityBoosterSetPriority P)
                         \<lparr>ThreadId = tid, Priority = priority\<rparr> (sizeof_ThreadData P)) tr
                   in if success = 0
                      then (let (_, tr) = ask w GetLastError tr
                            in (Exit 1, snd (ask w (Wcerr ''DeviceIoControl() failed: '') tr)))
                      else (Exit 0, snd (ask w (Wcout ''Success!'') tr))))"

section \<open>What a control request does\<close>

text \<open>The calls a routine has added to the trace, and those among them that are not reads.\<close>

definition added :: "('c, 'r) trace \<Rightarrow> ('c, 'r) trace \<Rightarrow> ('c, 'r) trace" where
  "added tr tr' = drop (length tr) tr'"

fun is_read :: "pb_call \<Rightarrow> bool" where
  "is_read (ReadUser a) = True"
| "is_read _ = False"

definition effects :: "pb_trace \<Rightarrow> pb_trace \<Rightarrow> pb_call list" where
  "effects tr tr' = filter (\<lambda>c. \<not> is_read c) (map fst (added tr tr'))"

fun is_completion :: "pb_call \<Rightarrow> bool" where
  "is_completion (IoCompleteRequest irp st n) = True"
| "is_completion _ = False"

text \<open>
  The thread references a trace takes and drops: every successful lookup takes one of the thread it answers,
  and the reference is dropped by \<^verbatim>\<open>ObDereferenceObject\<close>. The flag goes down when the driver drops a reference it
  does not hold or sets the priority of a thread it has no reference to.
\<close>

fun reference_step :: "pb_platform \<Rightarrow> addr multiset \<times> bool \<Rightarrow> pb_call \<times> pb_ret \<Rightarrow> addr multiset \<times> bool" where
  "reference_step P (H, ok) (PsLookupThreadByThreadId t, r) =
     (if NT_SUCCESS P (ret_status r) then (add_mset (ret_out r) H, ok) else (H, ok))"
| "reference_step P (H, ok) (KeSetPriorityThread t v, r) = (H, ok \<and> t \<in># H)"
| "reference_step P (H, ok) (ObDereferenceObject t, r) = (H - {#t#}, ok \<and> t \<in># H)"
| "reference_step P m (_, r) = m"

definition references :: "pb_platform \<Rightarrow> pb_trace \<Rightarrow> addr multiset \<times> bool" where
  "references P tr = foldl (reference_step P) ({#}, True) tr"

interpretation references: trace_monitor "references P" "reference_step P" "({#}, True)" for P
  by unfold_locales (simp_all add: references_def)

text \<open>The caller's structure is readable and does not change while the request is served.\<close>

definition steady_memory :: "pb_platform \<Rightarrow> pb_world \<Rightarrow> addr \<Rightarrow> ThreadData \<Rightarrow> bool" where
  "steady_memory P w p d \<longleftrightarrow> (\<forall>tr. ret_read (w tr (ReadUser p)) = Some (ThreadId d) \<and>
     ret_read (w tr (ReadUser (p + Priority_offset P))) = Some (Priority d))"

definition in_range :: "UINT32 \<Rightarrow> bool" where
  "in_range v \<longleftrightarrow> 1 \<le> sint v \<and> sint v \<le> 31"

lemma set_priority_steady:
  assumes "steady_memory P w p d" "p \<noteq> NULL" "sizeof_ThreadData P \<le> n"
  shows "\<exists>tr' st. PriorityBoosterDeviceControl P w irp (IOCTL_PRIORITY_BOOSTER_SET_PRIORITY P) n p tr =
      Returned st tr' \<and>
    (if in_range (Priority d)
     then \<exists>r. (PsLookupThreadByThreadId (ThreadId d), r) \<in> set (added tr tr') \<and> st = ret_status r \<and>
       effects tr tr' = PsLookupThreadByThreadId (ThreadId d) #
         (if NT_SUCCESS P (ret_status r)
          then [KeSetPriorityThread (ret_out r) (Priority d), ObDereferenceObject (ret_out r)] else []) @
         [IoCompleteRequest irp st 0]
     else st = STATUS_INVALID_PARAMETER \<and> effects tr tr' = [IoCompleteRequest irp st 0])"
proof -
  have user: "ret_read (w tr (ReadUser p)) = Some (ThreadId d)"
    "ret_read (w tr (ReadUser (p + Priority_offset P))) = Some (Priority d)" for tr
    using assms(1) by (simp_all add: steady_memory_def)
  have reads: "read_user w p tr = (Some (ThreadId d), tr @ [(ReadUser p, w tr (ReadUser p))])"
    "read_user w (p + Priority_offset P) tr = (Some (Priority d),
       tr @ [(ReadUser (p + Priority_offset P), w tr (ReadUser (p + Priority_offset P)))])" for tr
    by (simp_all add: read_user_def ask_def Let_def user)
  consider "sint (Priority d) < 1" | "1 \<le> sint (Priority d)" "31 < sint (Priority d)" | "in_range (Priority d)"
    unfolding in_range_def using not_le by blast
  then show ?thesis
  proof cases
    case 1
    then show ?thesis using assms(2,3)
      by (simp add: PriorityBoosterDeviceControl_def set_priority_def reads ask_def Let_def effects_def
          added_def in_range_def)
  next
    case 2
    then show ?thesis using assms(2,3)
      by (simp add: PriorityBoosterDeviceControl_def set_priority_def reads ask_def Let_def effects_def
          added_def in_range_def)
  next
    case 3
    then have "\<not> sint (Priority d) < 1" "\<not> 31 < sint (Priority d)" by (auto simp: in_range_def)
    then show ?thesis using assms(2,3) 3
      by (auto simp: PriorityBoosterDeviceControl_def set_priority_def reads ask_def Let_def effects_def
          added_def)
  qed
qed

section \<open>Properties\<close>

text \<open>
  C21: every control request that does not stop the machine is completed exactly once, by the last
  call and with the status that is returned. On every way out, that of the machine stopping apart, the request
  has dropped the references it took and no other, on the threads that the lookups answered; and on every way
  it sets the priority of no thread but one it holds a reference to. The machine stops only on a read of the
  caller's memory that fails.
\<close>

theorem request_completed_once:
  "case PriorityBoosterDeviceControl P w irp code n p tr of
     Returned st tr' \<Rightarrow> \<exists>new. tr' = tr @ new \<and> new \<noteq> [] \<and> fst (last new) = IoCompleteRequest irp st 0 \<and>
       occurrences (is_completion \<circ> fst) new = 1 \<and> references P new = ({#}, True)
   | BugCheck tr' \<Rightarrow> \<exists>new a r. tr' = tr @ new @ [(ReadUser a, r)] \<and> ret_read r = None \<and> snd (references P new)"
proof (cases "code = IOCTL_PRIORITY_BOOSTER_SET_PRIORITY P")
  case True
  then show ?thesis
    by (auto simp: PriorityBoosterDeviceControl_def set_priority_def read_user_def ask_def Let_def references_def
        split: option.splits)
next
  case False
  then show ?thesis by (simp add: PriorityBoosterDeviceControl_def ask_def Let_def references_def)
qed

text \<open>
  C24: the outcome of a set-priority request with a large enough buffer, over memory that stays the same: the priority is
  checked against 1 to 31 as a signed number before anything else happens; then the thread is
  looked up, and only if that succeeds its priority is set to the requested one and the reference
  dropped. The thread is the one the lookup has answered, and the status of the request is the status
  of the lookup.
\<close>

theorem set_priority_outcome:
  assumes "steady_memory P w p d" "p \<noteq> NULL" "sizeof_ThreadData P \<le> n"
  shows "\<exists>tr' st. PriorityBoosterDeviceControl P w irp (IOCTL_PRIORITY_BOOSTER_SET_PRIORITY P) n p tr =
      Returned st tr' \<and>
    (if in_range (Priority d)
     then \<exists>r. (PsLookupThreadByThreadId (ThreadId d), r) \<in> set (added tr tr') \<and> st = ret_status r \<and>
       effects tr tr' = PsLookupThreadByThreadId (ThreadId d) #
         (if NT_SUCCESS P (ret_status r)
          then [KeSetPriorityThread (ret_out r) (Priority d), ObDereferenceObject (ret_out r)] else []) @
         [IoCompleteRequest irp st 0]
     else st = STATUS_INVALID_PARAMETER \<and> effects tr tr' = [IoCompleteRequest irp st 0])"
  by (rule set_priority_steady [OF assms])

definition booster_platform :: pb_platform where
  "booster_platform =
     \<lparr>NT_SUCCESS = (\<lambda>st. 0 \<le> sint st),
      CTL_CODE = (\<lambda>dev fn meth acc. push_bit 16 dev OR push_bit 14 acc OR push_bit 2 fn OR meth),
      METHOD_NEITHER = 3, FILE_ANY_ACCESS = 0, FILE_DEVICE_UNKNOWN = 0x22, sizeof_ThreadData = 8,
      Priority_offset = 4, pb_IRP_MJ_CREATE = 0, pb_IRP_MJ_CLOSE = 2, pb_IRP_MJ_DEVICE_CONTROL = 14\<rparr>"

text \<open>A world that succeeds and whose memory holds the thread 1234 at 4096 and the priority 25 behind it.\<close>

definition booster_world :: pb_world where
  "booster_world = (\<lambda>tr c. \<lparr>ret_status = 0, ret_out = 77,
     ret_read = (if c = ReadUser 4096 then Some 1234 else if c = ReadUser 4100 then Some 25 else None)\<rparr>)"

theorem set_priority_outcome_witness:
  "\<exists>tr'. PriorityBoosterDeviceControl booster_platform booster_world 5
      (IOCTL_PRIORITY_BOOSTER_SET_PRIORITY booster_platform) 8 4096 [] = Returned 0 tr' \<and>
    effects [] tr' = [PsLookupThreadByThreadId 1234, KeSetPriorityThread 77 25, ObDereferenceObject 77,
      IoCompleteRequest 5 0 0]"
proof -
  have steady: "steady_memory booster_platform booster_world 4096 \<lparr>ThreadId = 1234, Priority = 25\<rparr>"
    by (simp add: steady_memory_def booster_world_def booster_platform_def)
  have range: "in_range (25 :: UINT32)" by (simp add: in_range_def)
  have size: "sizeof_ThreadData booster_platform \<le> 8" by (simp add: booster_platform_def)
  obtain tr' st r where run: "PriorityBoosterDeviceControl booster_platform booster_world 5
      (IOCTL_PRIORITY_BOOSTER_SET_PRIORITY booster_platform) 8 4096 [] = Returned st tr'"
    and r: "(PsLookupThreadByThreadId 1234, r) \<in> set (added [] tr')" "st = ret_status r"
    and calls: "effects [] tr' = PsLookupThreadByThreadId 1234 # (if NT_SUCCESS booster_platform (ret_status r)
          then [KeSetPriorityThread (ret_out r) 25, ObDereferenceObject (ret_out r)] else []) @
         [IoCompleteRequest 5 st 0]"
    using set_priority_outcome [OF steady _ size, of 5 "[]", unfolded ThreadData.select_convs if_P [OF range]]
    by auto
  have "\<forall>e \<in> set tr'. ret_status (snd e) = 0 \<and> ret_out (snd e) = 77"
    using run by (auto simp: PriorityBoosterDeviceControl_def set_priority_def read_user_def ask_def Let_def
        booster_world_def split: option.splits if_splits)
  then have "ret_status r = 0" "ret_out r = 77" using r(1) by (auto simp: added_def)
  then show ?thesis using run r(2) calls by (simp add: booster_platform_def)
qed

text \<open>
  C25: the range check does not bind the value that is used. The priority is read again after the
  check, from memory the caller shares, so for every value there is a caller whose memory is
  always readable and for whom the driver sets just that priority.
\<close>

theorem priority_is_fetched_again:
  assumes "p \<noteq> NULL" "sizeof_ThreadData P \<le> n" "NT_SUCCESS P STATUS_SUCCESS"
  shows "\<exists>w tr' thread. (\<forall>tr a. ret_read (w tr (ReadUser a)) \<noteq> None) \<and>
    PriorityBoosterDeviceControl P w irp (IOCTL_PRIORITY_BOOSTER_SET_PRIORITY P) n p [] =
      Returned STATUS_SUCCESS tr' \<and>
    KeSetPriorityThread thread v \<in> set (map fst tr')"
proof -
  let ?w = "\<lambda>tr c. \<lparr>ret_status = STATUS_SUCCESS, ret_out = 1,
      ret_read = Some (if length tr < 4 then 1 else v)\<rparr> :: pb_ret"
  show ?thesis using assms
    by (intro exI [of _ ?w])
      (auto simp: PriorityBoosterDeviceControl_def set_priority_def read_user_def ask_def Let_def)
qed

theorem priority_is_fetched_again_witness:
  "\<exists>w tr' thread. PriorityBoosterDeviceControl booster_platform w 5
      (IOCTL_PRIORITY_BOOSTER_SET_PRIORITY booster_platform) 8 4096 [] = Returned STATUS_SUCCESS tr' \<and>
    KeSetPriorityThread thread 100 \<in> set (map fst tr')"
proof -
  have "(4096 :: addr) \<noteq> NULL" "sizeof_ThreadData booster_platform \<le> 8" "NT_SUCCESS booster_platform STATUS_SUCCESS"
    by (simp_all add: booster_platform_def)
  from priority_is_fetched_again [OF this, of 5 100] show ?thesis by blast
qed

text \<open>
  C26: what the client sends is what the driver understands. For two numbers the client can parse,
  its one request carries them with the control code and the length the driver expects: served
  over that structure, the driver reports an invalid parameter exactly when the priority is out of
  range, and looks up the thread with the parsed number otherwise. The request is sent for every
  handle but NULL, so also for the value \<^verbatim>\<open>CreateFileW\<close> returns when it fails.
\<close>

theorem client_and_driver_agree:
  assumes "stoul (args ! 1) = Inr tid" "stoi (args ! 2) = Inr prio" "3 \<le> length args"
    and "cw tr (CreateFileW client_device) = h" "h \<noteq> NULL"
    and "steady_memory P w p \<lparr>ThreadId = tid, Priority = prio\<rparr>" "p \<noteq> NULL"
  shows "\<exists>code d n st tr'. map fst (take 1 (drop 1 (added tr (snd (client_main P cw args tr))))) =
      [DeviceIoControl h code d n] \<and> ThreadId d = tid \<and> Priority d = prio \<and>
    PriorityBoosterDeviceControl P w irp code n p dtr = Returned st tr' \<and>
    (if in_range prio then hd (effects dtr tr') = PsLookupThreadByThreadId tid
     else st = STATUS_INVALID_PARAMETER \<and> effects dtr tr' = [IoCompleteRequest irp st 0])"
proof -
  obtain tr' st where d: "PriorityBoosterDeviceControl P w irp (IOCTL_PRIORITY_BOOSTER_SET_PRIORITY P)
        (sizeof_ThreadData P) p dtr = Returned st tr'"
    "if in_range prio then hd (effects dtr tr') = PsLookupThreadByThreadId tid
     else st = STATUS_INVALID_PARAMETER \<and> effects dtr tr' = [IoCompleteRequest irp st 0]"
    using set_priority_steady [OF assms(6,7) order_refl, of irp dtr, unfolded ThreadData.select_convs]
    by (auto split: if_splits)
  have code: "IoctlPriorityBoosterSetPriority P = IOCTL_PRIORITY_BOOSTER_SET_PRIORITY P"
    by (simp add: IoctlPriorityBoosterSetPriority_def IOCTL_PRIORITY_BOOSTER_SET_PRIORITY_def)
  have c: "map fst (take 1 (drop 1 (added tr (snd (client_main P cw args tr))))) =
      [DeviceIoControl h (IOCTL_PRIORITY_BOOSTER_SET_PRIORITY P) \<lparr>ThreadId = tid, Priority = prio\<rparr> (sizeof_ThreadData P)]"
    using assms(1-5) by (simp add: client_main_def ask_def Let_def added_def code)
  show ?thesis
    by (rule exI, rule exI [of _ "\<lparr>ThreadId = tid, Priority = prio\<rparr>"], rule exI [of _ "sizeof_ThreadData P"],
        rule exI [of _ st], rule exI [of _ tr']) (use c d in \<open>auto split: if_splits\<close>)
qed

theorem client_and_driver_agree_witness:
  "stoul ''1234'' = Inr 1234 \<and> stoi ''25'' = Inr 25 \<and>
   (\<exists>code d n. map fst (take 1 (drop 1 (added [] (snd (client_main booster_platform (\<lambda>_ _. 9) [''booster'', ''1234'', ''25''] []))))) =
      [DeviceIoControl 9 code d n] \<and> Priority d = 25)"
proof -
  have p: "stoul ''1234'' = Inr 1234" "stoi ''25'' = Inr 25"
    by (simp_all add: stoul_def stoi_def parse_number_def is_space_def is_digit_def digit_value_def)
  have steady: "steady_memory booster_platform booster_world 4096 \<lparr>ThreadId = 1234, Priority = 25\<rparr>"
    by (simp add: steady_memory_def booster_world_def booster_platform_def)
  have "stoul ([''booster'', ''1234'', ''25''] ! 1) = Inr 1234" "stoi ([''booster'', ''1234'', ''25''] ! 2) = Inr 25"
    using p by simp_all
  then have "\<exists>code d n. map fst (take 1 (drop 1 (added [] (snd (client_main booster_platform (\<lambda>_ _. 9)
      [''booster'', ''1234'', ''25''] []))))) = [DeviceIoControl 9 code d n] \<and> Priority d = 25"
    using client_and_driver_agree [OF _ _ _ refl _ steady, of "[''booster'', ''1234'', ''25'']" "\<lambda>_ _. 9" "[]" 5 "[]"]
    by (simp del: take_Suc_Cons drop_Suc_Cons One_nat_def) (elim exE conjE, intro exI conjI, assumption, assumption)
  then show ?thesis using p by blast
qed

text \<open>
  A load whose symbolic link cannot be created fails and leaves its device behind: the last
  call is the one for the link, and no call deletes the device.
\<close>

theorem failed_link_leaves_device:
  assumes "NT_SUCCESS P (ret_status (w tr (IoCreateDevice o1 pb_device_name (FILE_DEVICE_UNKNOWN P))))"
    and "DriverEntry_booster P w o1 d tr = (st, d', tr')" "\<not> NT_SUCCESS P st" "NT_SUCCESS P STATUS_SUCCESS"
  shows "map fst (added tr tr') = [IoCreateDevice o1 pb_device_name (FILE_DEVICE_UNKNOWN P),
      IoCreateSymbolicLink pb_link_name pb_device_name]"
  using assms by (auto simp: DriverEntry_booster_def ask_def Let_def added_def split: if_splits)

definition no_link_world :: pb_world where
  "no_link_world = (\<lambda>tr c. \<lparr>ret_status = (if c = IoCreateSymbolicLink pb_link_name pb_device_name
     then STATUS_UNSUCCESSFUL else 0), ret_out = 1, ret_read = None\<rparr>)"

theorem failed_link_leaves_device_witness:
  "IoDeleteDevice 1 \<notin> set (map fst (snd (snd (DriverEntry_booster booster_platform no_link_world 3
     \<lparr>unload = None, MajorFunction = (\<lambda>_. None)\<rparr> []))))"
proof -
  let ?r = "DriverEntry_booster booster_platform no_link_world 3 \<lparr>unload = None, MajorFunction = (\<lambda>_. None)\<rparr> []"
  have "fst ?r = STATUS_UNSUCCESSFUL"
    by (simp add: DriverEntry_booster_def ask_def Let_def no_link_world_def booster_platform_def)
  then have "\<not> NT_SUCCESS booster_platform (fst ?r)" "NT_SUCCESS booster_platform STATUS_SUCCESS"
    "NT_SUCCESS booster_platform (ret_status (no_link_world [] (IoCreateDevice 3 pb_device_name (FILE_DEVICE_UNKNOWN booster_platform))))"
    by (simp_all add: booster_platform_def no_link_world_def)
  then have "map fst (added [] (snd (snd ?r))) = [IoCreateDevice 3 pb_device_name (FILE_DEVICE_UNKNOWN booster_platform),
      IoCreateSymbolicLink pb_link_name pb_device_name]"
    by (intro failed_link_leaves_device [of booster_platform no_link_world "[]" 3 _ "fst ?r" "fst (snd ?r)"])
      simp_all
  then show ?thesis by (simp add: added_def)
qed

end
