(* ===== verification/Callout_Driver.thy ===== *)
theory Callout_Driver imports Prelude begin

text \<open>
  The callout driver of the Windows Filtering Platform (\<^verbatim>\<open>src/WPFCalloutDriver\<close>): its identifiers,
  the registration of its callouts, the classify functions that watch the traffic of one process,
  and the entry and unload routines. The identifiers the user-mode controller declares
  (\<^verbatim>\<open>src/WFPController/wfpcontroller.identifiers.ixx\<close>) are here as well, because they must be the
  driver's.
\<close>

section \<open>Identifiers\<close>

definition Outbound_TCP_Key :: GUID where
  "Outbound_TCP_Key = GUID 0x6a7cea1 0x7826 0x4330 [0xb2, 0xf9, 0x4d, 0x80, 0x1b, 0xdc, 0xb, 0x37]"
definition Outbound_IPv4_Key :: GUID where
  "Outbound_IPv4_Key = GUID 0x2cc08215 0x458 0x4b8b [0x9b, 0x3, 0x1a, 0x0, 0xf4, 0x91, 0x45, 0x99]"
definition Outbound_ICMPError_Key :: GUID where
  "Outbound_ICMPError_Key = GUID 0xeb79f29b 0xccb 0x48d7 [0x8a, 0x33, 0x45, 0xcb, 0x31, 0x1e, 0x71, 0x25]"
definition Inbound_IPv4_Key :: GUID where
  "Inbound_IPv4_Key = GUID 0xb0440efa 0x87cc 0x4727 [0x8d, 0x95, 0x97, 0x2f, 0xc0, 0x2f, 0xa4, 0xca]"
definition Inbound_TCP_Key :: GUID where
  "Inbound_TCP_Key = GUID 0xdfb38ef 0x59f8 0x4602 [0xb9, 0x2e, 0x41, 0x70, 0x92, 0xb4, 0xee, 0x79]"
definition Inbound_ICMPError_Key :: GUID where
  "Inbound_ICMPError_Key = GUID 0x56e4c747 0xb3f4 0x464f [0x89, 0xcc, 0x51, 0x1d, 0x19, 0x99, 0xb2, 0x7b]"

definition OutboundIPv4CalloutKey :: GUID where
  "OutboundIPv4CalloutKey = GUID 0x2CC08215 0x0458 0x4B8B [0x9B, 0x03, 0x1A, 0x00, 0xF4, 0x91, 0x45, 0x99]"
definition InboundICMPErrorCalloutKey :: GUID where
  "InboundICMPErrorCalloutKey = GUID 0x56e4c747 0xb3f4 0x464f [0x89, 0xcc, 0x51, 0x1d, 0x19, 0x99, 0xb2, 0x7b]"
definition OutboundICMPErrorCalloutKey :: GUID where
  "OutboundICMPErrorCalloutKey = GUID 0xeb79f29b 0xccb 0x48d7 [0x8a, 0x33, 0x45, 0xcb, 0x31, 0x1e, 0x71, 0x25]"
definition InboundIPV4CalloutKey :: GUID where
  "InboundIPV4CalloutKey = GUID 0xb0440efa 0x87cc 0x4727 [0x8d, 0x95, 0x97, 0x2f, 0xc0, 0x2f, 0xa4, 0xca]"
definition OutboundTCPCalloutKey :: GUID where
  "OutboundTCPCalloutKey = GUID 0x6a7cea1 0x7826 0x4330 [0xb2, 0xf9, 0x4d, 0x80, 0x1b, 0xdc, 0xb, 0x37]"
definition ProviderKey :: GUID where
  "ProviderKey = GUID 0x270B7DD9 0x17E7 0x480E [0x52, 0x5F, 0x04, 0xBB, 0x81, 0xF4, 0x24, 0x95]"
definition SublayerKey :: GUID where
  "SublayerKey = GUID 0x91a8a45b 0x9504 0x407e [0xa2, 0x8c, 0xfe, 0xa5, 0x1f, 0x8d, 0x6c, 0x6d]"
definition ProviderContextKey :: GUID where
  "ProviderContextKey = GUID 0x7cc93455 0x562a 0x4691 [0xae, 0xa2, 0x62, 0x1f, 0x34, 0xed, 0x37, 0x84]"

lemmas key_defs = Outbound_TCP_Key_def Outbound_IPv4_Key_def Outbound_ICMPError_Key_def
  Inbound_IPv4_Key_def Inbound_TCP_Key_def Inbound_ICMPError_Key_def

lemmas controller_key_defs = OutboundIPv4CalloutKey_def InboundICMPErrorCalloutKey_def
  OutboundICMPErrorCalloutKey_def InboundIPV4CalloutKey_def OutboundTCPCalloutKey_def ProviderKey_def
  SublayerKey_def ProviderContextKey_def

section \<open>Calls, platform and state\<close>

text \<open>The callouts; a classify or a notify function is named by the callout it is written for.\<close>

datatype callout_fns =
    Outbound_IPv4 | Inbound_ICMPError | Outbound_ICMPError | Outbound_TCP | Inbound_TCP | Inbound_IPv4

text \<open>The configuration of a driver: its flags and its callbacks.\<close>

datatype wfp_routine = DriverUnload_wfp

record wfp_config =
  DriverInitFlags :: nat
  EvtDriverUnload :: "wfp_routine option"
  EvtDriverDeviceAdd :: "wfp_routine option"

text \<open>A registration has the device object, the key, the classify function and the notify function.\<close>

datatype wfp_call =
    FwpsCalloutRegister3 addr GUID callout_fns callout_fns
  | FwpsCalloutUnregisterByKey0 GUID
  | WdfDriverCreate addr addr wfp_config
  | WdfControlDeviceInitAllocate handle string
  | WdfDeviceInitSetDeviceType addr ULONG
  | WdfDeviceCreate addr
  | WdfControlFinishInitializing handle
  | WdfDeviceWdmGetDeviceObject handle
  | WdfDeviceInitFree addr
  | PsGetCurrentProcessId
  | KdPrintEx string "nat list"

text \<open>A status, what the out parameter or the result is, and what the init pointer holds afterwards.\<close>

record wfp_ret = os_ret +
  ret_init :: addr

type_synonym wfp_trace = "(wfp_call, wfp_ret) trace"
type_synonym wfp_world = "(wfp_call, wfp_ret) world"

record wfp_platform =
  wfp_DBG :: bool
  NT_ERROR :: "NTSTATUS \<Rightarrow> bool"
  FWP_ACTION_CONTINUE :: ULONG
  WdfDriverInitNonPnpDriver :: nat
  SDDL_DEVOBJ_KERNEL_ONLY :: string
  FILE_DEVICE_NETWORK :: ULONG
  INBOUND_TRANSPORT_V4_IP_LOCAL_PORT :: nat
  OUTBOUND_TRANSPORT_V4_IP_LOCAL_PORT :: nat
  INBOUND_ICMP_ERROR_V4_IP_REMOTE_ADDRESS :: nat
  INBOUND_ICMP_ERROR_V4_EMBEDDED_LOCAL_PORT :: nat
  INBOUND_ICMP_ERROR_V4_ICMP_TYPE :: nat
  INBOUND_ICMP_ERROR_V4_ICMP_CODE :: nat

record wfp_state =
  matchedPort :: UINT16
  WDFDriverDevice :: handle
  DriverDeviceObject :: addr
  wfp_log :: wfp_trace

definition wfp_ask :: "wfp_world \<Rightarrow> wfp_call \<Rightarrow> wfp_state \<Rightarrow> wfp_ret \<times> wfp_state" where
  "wfp_ask w c s = (let (r, tr) = ask w c (wfp_log s) in (r, s\<lparr>wfp_log := tr\<rparr>))"

definition wfp_do :: "wfp_world \<Rightarrow> wfp_call \<Rightarrow> wfp_state \<Rightarrow> wfp_state" where
  "wfp_do w c s = snd (wfp_ask w c s)"

text \<open>Debug output, which a free build does not contain.\<close>

definition kd_print :: "wfp_platform \<Rightarrow> wfp_world \<Rightarrow> string \<Rightarrow> nat list \<Rightarrow> wfp_state \<Rightarrow> wfp_state" where
  "kd_print P w fmt args s = (if wfp_DBG P then wfp_do w (KdPrintEx fmt args) s else s)"

section \<open>Registration\<close>

definition unregister ::
  "wfp_platform \<Rightarrow> wfp_world \<Rightarrow> GUID \<Rightarrow> string \<Rightarrow> wfp_state \<Rightarrow> wfp_state" where
  "unregister P w key what s =
     (let (r, s) = wfp_ask w (FwpsCalloutUnregisterByKey0 key) s
      in if NT_ERROR P (ret_status r) then kd_print P w what [unat (ret_status r)] s else s)"

definition UnregisterAllCallouts :: "wfp_platform \<Rightarrow> wfp_world \<Rightarrow> wfp_state \<Rightarrow> NTSTATUS \<times> wfp_state" where
  "UnregisterAllCallouts P w s =
     (let s = unregister P w Outbound_IPv4_Key ''Failed unregistering OutboundIPv4: %lu'' s;
          s = unregister P w Inbound_ICMPError_Key ''Failed unregistering InboundICMPError: %lu'' s;
          s = unregister P w Outbound_ICMPError_Key ''Failed unregistering OutboundICMPError: %lu'' s;
          s = unregister P w Outbound_TCP_Key ''Failed unregistering OutboundTCP: %lu'' s;
          s = unregister P w Inbound_TCP_Key ''Failed unregistering InboundTCP: %lu'' s
      in (STATUS_SUCCESS, s))"

definition RegisterCallout ::
  "wfp_platform \<Rightarrow> wfp_world \<Rightarrow> GUID \<Rightarrow> callout_fns \<Rightarrow> callout_fns \<Rightarrow> wfp_state \<Rightarrow> NTSTATUS \<times> wfp_state" where
  "RegisterCallout P w calloutKey classifyCallout notifyCallout s =
     (if DriverDeviceObject s = NULL
      then (STATUS_INVALID_HANDLE,
            kd_print P w ''RegisterCallouts(): Globals::DriverDeviceObject is nullptr'' [] s)
      else
        let (r, s) = wfp_ask w (FwpsCalloutRegister3 (DriverDeviceObject s) calloutKey classifyCallout notifyCallout) s
        in if NT_ERROR P (ret_status r)
           then (ret_status r, kd_print P w ''FwpsCalloutRegister3() failed %lu'' [unat (ret_status r)] s)
           else (ret_status r, s))"

definition RegisterAllCallouts :: "wfp_platform \<Rightarrow> wfp_world \<Rightarrow> wfp_state \<Rightarrow> NTSTATUS \<times> wfp_state" where
  "RegisterAllCallouts P w s =
     (let (status, s) = RegisterCallout P w Outbound_IPv4_Key Outbound_IPv4 Outbound_IPv4 s in
      if NT_ERROR P status
      then (status, kd_print P w ''Registering OutboundIPv4 failed %lu'' [unat status] s)
      else let (status, s) = RegisterCallout P w Inbound_ICMPError_Key Inbound_ICMPError Inbound_ICMPError s in
      if NT_ERROR P status
      then (status, kd_print P w ''Registering InboundICMP failed %lu'' [unat status] s)
      else let (status, s) = RegisterCallout P w Outbound_ICMPError_Key Outbound_ICMPError Outbound_ICMPError s in
      if NT_ERROR P status
      then (status, kd_print P w ''Registering OutboundICMP failed %lu'' [unat status] s)
      else let (status, s) = RegisterCallout P w Outbound_TCP_Key Outbound_TCP Outbound_TCP s in
      if NT_ERROR P status
      then (status, kd_print P w ''Registering OutboundTCP failed %lu'' [unat status] s)
      else let (status, s) = RegisterCallout P w Inbound_TCP_Key Inbound_TCP Inbound_TCP s in
      if NT_ERROR P status
      then (status, kd_print P w ''Registering InboundTCP failed %lu'' [unat status] s)
      else (status, s))"

section \<open>Classification\<close>

text \<open>
  A filter as far as the driver reads it: its provider context, that context's data blob, the
  blob's size and bytes, each of which may be missing.
\<close>

record blob =
  blob_size :: UINT32
  blob_data :: "UCHAR list option"

record FWPS_FILTER =
  providerContext :: "blob option option"

record CLASSIFY_OUT =
  actionType :: ULONG

text \<open>The values of a layer: the low bits of the union in each field.\<close>

type_synonym incoming = "nat \<Rightarrow> 32 word"

definition uint16 :: "32 word \<Rightarrow> UINT16" where "uint16 v = ucast v"
definition uint8 :: "32 word \<Rightarrow> UCHAR" where "uint8 v = ucast v"

text \<open>The little-endian number in the first four bytes.\<close>

definition read_dword :: "UCHAR list \<Rightarrow> DWORD" where
  "read_dword bs = ucast (bs ! 0) + 0x100 * ucast (bs ! 1) + 0x10000 * ucast (bs ! 2) + 0x1000000 * ucast (bs ! 3)"

text \<open>\<^verbatim>\<open>GetProcessId\<close>; nothing for following a missing data pointer.\<close>

definition GetProcessId ::
  "wfp_platform \<Rightarrow> wfp_world \<Rightarrow> FWPS_FILTER option \<Rightarrow> wfp_state \<Rightarrow> (DWORD \<times> wfp_state) option" where
  "GetProcessId P w filt s =
     (case filt of None \<Rightarrow> Some (0, s)
      | Some f \<Rightarrow> (case providerContext f of None \<Rightarrow> Some (0, s)
      | Some dataBuffer \<Rightarrow> (case dataBuffer of None \<Rightarrow> Some (0, s)
      | Some b \<Rightarrow>
          if blob_size b = 0 then Some (0, s)
          else if blob_size b \<noteq> 4 then Some (0, kd_print P w ''GetProcessId(): data size mismatch'' [] s)
          else (case blob_data b of None \<Rightarrow> None | Some bs \<Rightarrow> Some (read_dword bs, s)))))"

definition LogFilter ::
  "wfp_platform \<Rightarrow> wfp_world \<Rightarrow> FWPS_FILTER option \<Rightarrow> wfp_state \<Rightarrow> wfp_state" where
  "LogFilter P w filt s =
     (case filt of None \<Rightarrow> kd_print P w ''filter is null'' [] s
      | Some f \<Rightarrow> (case providerContext f of None \<Rightarrow> kd_print P w ''providerContext is null'' [] s
      | Some dataBuffer \<Rightarrow> (case dataBuffer of None \<Rightarrow> kd_print P w ''dataBuffer is null'' [] s
      | Some b \<Rightarrow> if blob_size b = 0 then kd_print P w ''dataBuffer is empty'' [] s else s)))"

definition inspect_only :: "wfp_platform \<Rightarrow> CLASSIFY_OUT \<Rightarrow> CLASSIFY_OUT" where
  "inspect_only P out = out\<lparr>actionType := FWP_ACTION_CONTINUE P\<rparr>"

definition Inbound_TCP_ClassifyFn ::
  "wfp_platform \<Rightarrow> wfp_world \<Rightarrow> incoming \<Rightarrow> CLASSIFY_OUT \<Rightarrow> wfp_state \<Rightarrow> CLASSIFY_OUT \<times> wfp_state" where
  "Inbound_TCP_ClassifyFn P w inFixedValues classifyOut s =
     (let classifyOut = inspect_only P classifyOut;
          localPort = uint16 (inFixedValues (INBOUND_TRANSPORT_V4_IP_LOCAL_PORT P));
          s = (if matchedPort s \<noteq> 0 \<and> localPort \<noteq> 0 \<and> localPort = matchedPort s
               then kd_print P w ''matched on port %hu'' [unat localPort] s else s)
      in (classifyOut, kd_print P w ''inbound transport %hu'' [unat localPort] s))"

text \<open>
  The test both outbound callouts make: the process that the filter names is the running one. The
  process identifier is as wide as a pointer, the one in the filter has 32 bits.
\<close>

definition watched_process ::
  "wfp_platform \<Rightarrow> wfp_world \<Rightarrow> FWPS_FILTER option \<Rightarrow> wfp_state \<Rightarrow> (bool \<times> wfp_state) option" where
  "watched_process P w filt s =
     (let (r, s) = wfp_ask w PsGetCurrentProcessId s; runningProcessId = ret_out r in
      case GetProcessId P w filt s of
        None \<Rightarrow> None
      | Some (processId, s) \<Rightarrow>
          Some (\<not> (processId = 0 \<or> runningProcessId = 0 \<or> unat processId \<noteq> runningProcessId), s))"

definition Outbound_TCP_ClassifyFn ::
  "wfp_platform \<Rightarrow> wfp_world \<Rightarrow> incoming \<Rightarrow> FWPS_FILTER option \<Rightarrow> CLASSIFY_OUT \<Rightarrow> wfp_state \<Rightarrow>
   (CLASSIFY_OUT \<times> wfp_state) option" where
  "Outbound_TCP_ClassifyFn P w inFixedValues filt classifyOut s =
     (let classifyOut = inspect_only P classifyOut in
      case watched_process P w filt s of
        None \<Rightarrow> None
      | Some (False, s) \<Rightarrow> Some (classifyOut, s)
      | Some (True, s) \<Rightarrow>
          let localPort = uint16 (inFixedValues (OUTBOUND_TRANSPORT_V4_IP_LOCAL_PORT P));
              s = s\<lparr>matchedPort := localPort\<rparr>
          in Some (classifyOut, kd_print P w ''outbound transport %hu'' [unat localPort] s))"

definition Inbound_IPv4_ClassifyFn :: "wfp_platform \<Rightarrow> CLASSIFY_OUT \<Rightarrow> wfp_state \<Rightarrow> CLASSIFY_OUT \<times> wfp_state" where
  "Inbound_IPv4_ClassifyFn P classifyOut s = (inspect_only P classifyOut, s)"

definition Outbound_ICMPError_ClassifyFn ::
  "wfp_platform \<Rightarrow> wfp_world \<Rightarrow> CLASSIFY_OUT \<Rightarrow> wfp_state \<Rightarrow> CLASSIFY_OUT \<times> wfp_state" where
  "Outbound_ICMPError_ClassifyFn P w classifyOut s =
     (inspect_only P classifyOut, kd_print P w ''ICMP outbound error detected'' [] s)"

definition Inbound_ICMPError_ClassifyFn ::
  "wfp_platform \<Rightarrow> wfp_world \<Rightarrow> incoming \<Rightarrow> CLASSIFY_OUT \<Rightarrow> wfp_state \<Rightarrow> CLASSIFY_OUT \<times> wfp_state" where
  "Inbound_ICMPError_ClassifyFn P w inFixedValues classifyOut s =
     (let classifyOut = inspect_only P classifyOut;
          remoteIpAddress = inFixedValues (INBOUND_ICMP_ERROR_V4_IP_REMOTE_ADDRESS P);
          embeddedLocalPort = uint16 (inFixedValues (INBOUND_ICMP_ERROR_V4_EMBEDDED_LOCAL_PORT P));
          icmpType = uint8 (inFixedValues (INBOUND_ICMP_ERROR_V4_ICMP_TYPE P));
          icmpCode = uint8 (inFixedValues (INBOUND_ICMP_ERROR_V4_ICMP_CODE P))
      in (classifyOut,
          kd_print P w ''ICMP inbound error detected, remote address %lu, embedded local port %hu type %hu, code %hu''
            [unat remoteIpAddress, unat embeddedLocalPort, unat icmpType, unat icmpCode] s))"

definition Outbound_IPv4_ClassifyFn ::
  "wfp_platform \<Rightarrow> wfp_world \<Rightarrow> FWPS_FILTER option \<Rightarrow> addr \<Rightarrow> CLASSIFY_OUT \<Rightarrow> wfp_state \<Rightarrow>
   (CLASSIFY_OUT \<times> wfp_state) option" where
  "Outbound_IPv4_ClassifyFn P w filt layerData classifyOut s =
     (let classifyOut = inspect_only P classifyOut in
      case watched_process P w filt s of
        None \<Rightarrow> None
      | Some (False, s) \<Rightarrow> Some (classifyOut, s)
      | Some (True, s) \<Rightarrow>
          let s = (if layerData \<noteq> NULL then kd_print P w ''Layer data not null'' [] s else s)
          in Some (classifyOut, kd_print P w ''matched process --> outbound IPv4 packet'' [] s))"

text \<open>The notify functions.\<close>

definition Inbound_TCP_NotifyFn :: "wfp_platform \<Rightarrow> wfp_world \<Rightarrow> wfp_state \<Rightarrow> NTSTATUS \<times> wfp_state" where
  "Inbound_TCP_NotifyFn P w s = (STATUS_SUCCESS, kd_print P w ''invoked'' [] s)"
definition Outbound_TCP_NotifyFn :: "wfp_platform \<Rightarrow> wfp_world \<Rightarrow> wfp_state \<Rightarrow> NTSTATUS \<times> wfp_state" where
  "Outbound_TCP_NotifyFn P w s = (STATUS_SUCCESS, kd_print P w ''invoked'' [] s)"
definition Inbound_IPv4_NotifyFn :: "wfp_platform \<Rightarrow> wfp_world \<Rightarrow> wfp_state \<Rightarrow> NTSTATUS \<times> wfp_state" where
  "Inbound_IPv4_NotifyFn P w s = (STATUS_SUCCESS, kd_print P w ''invoked'' [] s)"
definition Outbound_ICMPError_NotifyFn :: "wfp_platform \<Rightarrow> wfp_world \<Rightarrow> wfp_state \<Rightarrow> NTSTATUS \<times> wfp_state" where
  "Outbound_ICMPError_NotifyFn P w s = (STATUS_SUCCESS, kd_print P w ''invoked'' [] s)"
definition Inbound_ICMPError_NotifyFn :: "wfp_platform \<Rightarrow> wfp_world \<Rightarrow> wfp_state \<Rightarrow> NTSTATUS \<times> wfp_state" where
  "Inbound_ICMPError_NotifyFn P w s = (STATUS_SUCCESS, kd_print P w ''invoked'' [] s)"
definition Outbound_IPv4_NotifyFn :: "wfp_platform \<Rightarrow> wfp_world \<Rightarrow> wfp_state \<Rightarrow> NTSTATUS \<times> wfp_state" where
  "Outbound_IPv4_NotifyFn P w s = (STATUS_SUCCESS, kd_print P w ''invoked'' [] s)"

definition notify :: "wfp_platform \<Rightarrow> wfp_world \<Rightarrow> callout_fns \<Rightarrow> wfp_state \<Rightarrow> NTSTATUS \<times> wfp_state" where
  "notify P w fns = (case fns of
       Outbound_IPv4 \<Rightarrow> Outbound_IPv4_NotifyFn P w
     | Inbound_ICMPError \<Rightarrow> Inbound_ICMPError_NotifyFn P w
     | Outbound_ICMPError \<Rightarrow> Outbound_ICMPError_NotifyFn P w
     | Outbound_TCP \<Rightarrow> Outbound_TCP_NotifyFn P w
     | Inbound_TCP \<Rightarrow> Inbound_TCP_NotifyFn P w
     | Inbound_IPv4 \<Rightarrow> Inbound_IPv4_NotifyFn P w)"

section \<open>Loading and unloading\<close>

definition DriverEntry_callout ::
  "wfp_platform \<Rightarrow> wfp_world \<Rightarrow> nat \<Rightarrow> addr \<Rightarrow> addr \<Rightarrow> wfp_state \<Rightarrow> NTSTATUS \<times> wfp_state" where
  "DriverEntry_callout P w InitSafeBootMode DriverObject RegistryPath s =
     (if InitSafeBootMode > 0 then (STATUS_NOT_SAFE_MODE_DRIVER, s)
      else
        let config = \<lparr>DriverInitFlags = WdfDriverInitNonPnpDriver P, EvtDriverUnload = Some DriverUnload_wfp,
              EvtDriverDeviceAdd = None\<rparr>;
            (r, s) = wfp_ask w (WdfDriverCreate DriverObject RegistryPath config) s in
        if NT_ERROR P (ret_status r)
        then (ret_status r, kd_print P w ''WdfDriverCreate() failed %lu'' [unat (ret_status r)] s)
        else
          let status = ret_status r; (r, s) = wfp_ask w (WdfControlDeviceInitAllocate (ret_out r) (SDDL_DEVOBJ_KERNEL_ONLY P)) s;
              deviceInit = ret_out r in
          if deviceInit = NULL
          then (STATUS_FAILED_DRIVER_ENTRY, kd_print P w ''WdfControlDeviceInitAllocate() failed %lu'' [unat status] s)
          else
            let s = wfp_do w (WdfDeviceInitSetDeviceType deviceInit (FILE_DEVICE_NETWORK P)) s;
                (r, s) = wfp_ask w (WdfDeviceCreate deviceInit) s;
                status = ret_status r; deviceInit = ret_init r;
                s = s\<lparr>WDFDriverDevice := ret_out r\<rparr>;
                clean = (\<lambda>(st, s). (st, if deviceInit \<noteq> NULL then wfp_do w (WdfDeviceInitFree deviceInit) s else s))
            in if NT_ERROR P status
               then clean (status, kd_print P w ''WdfDeviceCreate() failed %lu'' [unat status] s)
               else
                 let s = wfp_do w (WdfControlFinishInitializing (WDFDriverDevice s)) s;
                     (r, s) = wfp_ask w (WdfDeviceWdmGetDeviceObject (WDFDriverDevice s)) s;
                     s = s\<lparr>DriverDeviceObject := ret_out r\<rparr>
                 in if DriverDeviceObject s = NULL
                    then clean (status, kd_print P w ''WdfDeviceWdmGetDeviceObject() failed %lu'' [unat status] s)
                    else
                      let (status, s) = RegisterAllCallouts P w s
                      in if NT_ERROR P status
                         then clean (status, kd_print P w ''RegisterCallouts() failed %lu'' [unat status] s)
                         else (status, kd_print P w ''WFP driver initialised successfully'' [] s))"

definition DriverUnload_callout :: "wfp_platform \<Rightarrow> wfp_world \<Rightarrow> wfp_state \<Rightarrow> wfp_state" where
  "DriverUnload_callout P w s = snd (UnregisterAllCallouts P w s)"

section \<open>The callouts that are registered\<close>

fun callout_step :: "wfp_platform \<Rightarrow> GUID set \<Rightarrow> wfp_call \<times> wfp_ret \<Rightarrow> GUID set" where
  "callout_step P K (FwpsCalloutRegister3 d key c n, r) = (if NT_ERROR P (ret_status r) then K else insert key K)"
| "callout_step P K (FwpsCalloutUnregisterByKey0 key, r) = (if NT_ERROR P (ret_status r) then K else K - {key})"
| "callout_step P K (_, r) = K"

definition registered :: "wfp_platform \<Rightarrow> wfp_trace \<Rightarrow> GUID set" where
  "registered P tr = foldl (callout_step P) {} tr"

interpretation registered: trace_monitor "registered P" "callout_step P" "{}" for P
  by unfold_locales (simp_all add: registered_def)

definition all_keys :: "GUID list" where
  "all_keys = [Outbound_IPv4_Key, Inbound_ICMPError_Key, Outbound_ICMPError_Key, Outbound_TCP_Key, Inbound_TCP_Key]"

text \<open>Whether a trace unregisters anything.\<close>

fun is_unregistration :: "wfp_call \<times> wfp_ret \<Rightarrow> bool" where
  "is_unregistration (FwpsCalloutUnregisterByKey0 key, r) = True"
| "is_unregistration _ = False"

named_theorems wfp_simps

lemma wfp_ask_eq [wfp_simps]: "wfp_ask w c s = (w (wfp_log s) c, s\<lparr>wfp_log := wfp_log s @ [(c, w (wfp_log s) c)]\<rparr>)"
  by (simp add: wfp_ask_def ask_def Let_def)

lemma wfp_do_eq [wfp_simps]: "wfp_do w c s = s\<lparr>wfp_log := wfp_log s @ [(c, w (wfp_log s) c)]\<rparr>"
  by (simp add: wfp_do_def wfp_ask_eq)

text \<open>Output changes nothing but the trace, and nothing a monitor sees.\<close>

lemma kd_print_fields [simp]:
  "matchedPort (kd_print P w fmt args s) = matchedPort s"
  "DriverDeviceObject (kd_print P w fmt args s) = DriverDeviceObject s"
  "registered Q (wfp_log (kd_print P w fmt args s)) = registered Q (wfp_log s)"
  "occurrences is_unregistration (wfp_log (kd_print P w fmt args s)) = occurrences is_unregistration (wfp_log s)"
  by (simp_all add: kd_print_def wfp_do_eq registered.run_snoc)

lemma RegisterCallout_effect:
  assumes "RegisterCallout P w key c n s = (st, s')" "DriverDeviceObject s \<noteq> NULL"
  shows "DriverDeviceObject s' = DriverDeviceObject s \<and>
    registered P (wfp_log s') = (if NT_ERROR P st then registered P (wfp_log s) else insert key (registered P (wfp_log s))) \<and>
    occurrences is_unregistration (wfp_log s') = occurrences is_unregistration (wfp_log s)"
  using assms by (auto simp: RegisterCallout_def wfp_ask_eq registered.run_snoc split: if_splits)

text \<open>What the first registrations leave.\<close>

lemma first_keys:
  "\<exists>k < 5. ({} :: GUID set) = set (take k all_keys)"
  "\<exists>k < 5. {Outbound_IPv4_Key} = set (take k all_keys)"
  "\<exists>k < 5. {Inbound_ICMPError_Key, Outbound_IPv4_Key} = set (take k all_keys)"
  "\<exists>k < 5. {Outbound_ICMPError_Key, Inbound_ICMPError_Key, Outbound_IPv4_Key} = set (take k all_keys)"
  "\<exists>k < 5. {Outbound_TCP_Key, Outbound_ICMPError_Key, Inbound_ICMPError_Key, Outbound_IPv4_Key} = set (take k all_keys)"
  "{Inbound_TCP_Key, Outbound_TCP_Key, Outbound_ICMPError_Key, Inbound_ICMPError_Key, Outbound_IPv4_Key} = set all_keys"
  by (rule exI [of _ 0], simp, rule exI [of _ 1], simp add: all_keys_def, rule exI [of _ 2], fastforce simp: all_keys_def,
    rule exI [of _ 3], fastforce simp: all_keys_def eval_nat_numeral, rule exI [of _ 4],
    fastforce simp: all_keys_def eval_nat_numeral, fastforce simp: all_keys_def)

lemma RegisterAllCallouts_effect:
  assumes "RegisterAllCallouts P w s = (st, s')" "DriverDeviceObject s \<noteq> NULL" "registered P (wfp_log s) = {}"
  shows "DriverDeviceObject s' = DriverDeviceObject s \<and>
    occurrences is_unregistration (wfp_log s') = occurrences is_unregistration (wfp_log s) \<and>
    (if NT_ERROR P st then \<exists>k < 5. registered P (wfp_log s') = set (take k all_keys)
     else registered P (wfp_log s') = set all_keys)"
  using assms first_keys
  by (auto simp: RegisterAllCallouts_def dest!: RegisterCallout_effect split: prod.splits if_splits)

text \<open>
  The statuses the driver makes up itself are errors, and a device that is created has taken its
  initialisation structure.
\<close>

definition wfp_documented :: "wfp_platform \<Rightarrow> bool" where
  "wfp_documented P \<longleftrightarrow> NT_ERROR P STATUS_NOT_SAFE_MODE_DRIVER \<and> NT_ERROR P STATUS_FAILED_DRIVER_ENTRY \<and>
     NT_ERROR P STATUS_INVALID_HANDLE \<and> \<not> NT_ERROR P STATUS_SUCCESS"

text \<open>What a call does to what is read off the trace.\<close>

lemma entry_ask: "wfp_ask w c s = (r, s') \<Longrightarrow> registered P (wfp_log s') = callout_step P (registered P (wfp_log s)) (c, r) \<and>
    occurrences is_unregistration (wfp_log s') =
      occurrences is_unregistration (wfp_log s) + (if is_unregistration (c, r) then 1 else 0) \<and>
    DriverDeviceObject s' = DriverDeviceObject s"
  by (auto simp: wfp_ask_eq registered.run_snoc)

lemma entry_do:
  "registered P (wfp_log (wfp_do w c s)) = callout_step P (registered P (wfp_log s)) (c, w (wfp_log s) c)"
  "occurrences is_unregistration (wfp_log (wfp_do w c s)) =
     occurrences is_unregistration (wfp_log s) + (if is_unregistration (c, w (wfp_log s) c) then 1 else 0)"
  "DriverDeviceObject (wfp_do w c s) = DriverDeviceObject s"
  by (simp_all add: wfp_do_eq registered.run_snoc)

lemma DriverEntry_callout_effect:
  assumes run: "DriverEntry_callout P w 0 D R s = (st, s')" and none: "registered P (wfp_log s) = {}"
    and doc: "wfp_documented P"
  shows "occurrences is_unregistration (wfp_log s') = occurrences is_unregistration (wfp_log s) \<and>
    (if NT_ERROR P st then \<exists>k < 5. registered P (wfp_log s') = set (take k all_keys)
     else registered P (wfp_log s') = (if DriverDeviceObject s' = NULL then {} else set all_keys))"
  using assms first_keys(1)
  by (auto simp: DriverEntry_callout_def Let_def wfp_documented_def entry_do
      dest!: entry_ask [of _ _ _ _ _ P] RegisterAllCallouts_effect split: prod.splits if_splits)

section \<open>Unloading\<close>

lemma unregister_effect:
  "registered P (wfp_log (unregister P w key what s)) =
     (if NT_ERROR P (ret_status (w (wfp_log s) (FwpsCalloutUnregisterByKey0 key)))
      then registered P (wfp_log s) else registered P (wfp_log s) - {key})"
  by (simp add: unregister_def wfp_ask_eq registered.run_snoc)

text \<open>The keys for which the trace asks for an unregistration, in order.\<close>

fun asked_key :: "wfp_call \<times> wfp_ret \<Rightarrow> GUID list" where
  "asked_key (FwpsCalloutUnregisterByKey0 k, r) = [k]"
| "asked_key _ = []"

definition asked_keys :: "wfp_trace \<Rightarrow> GUID list" where
  "asked_keys tr = concat (map asked_key tr)"

lemma asked_keys_append [simp]: "asked_keys (xs @ ys) = asked_keys xs @ asked_keys ys"
  by (simp add: asked_keys_def)

lemma asked_keys_kd_print [simp]: "asked_keys (wfp_log (kd_print P w fmt args s)) = asked_keys (wfp_log s)"
  by (simp add: kd_print_def wfp_do_eq asked_keys_def)

lemma asked_keys_unregister [simp]:
  "asked_keys (wfp_log (unregister P w key what s)) = asked_keys (wfp_log s) @ [key]"
  by (simp add: unregister_def wfp_ask_eq) (simp add: asked_keys_def)

text \<open>A world whose every unregistration succeeds, as documented for keys that are registered.\<close>

definition unregistration_succeeds :: "wfp_platform \<Rightarrow> wfp_world \<Rightarrow> bool" where
  "unregistration_succeeds P w \<longleftrightarrow>
     (\<forall>tr key. key \<in> registered P tr \<longrightarrow> \<not> NT_ERROR P (ret_status (w tr (FwpsCalloutUnregisterByKey0 key))))"

lemma unregister_clears:
  assumes "unregistration_succeeds P w"
  shows "registered P (wfp_log (unregister P w key what s)) = registered P (wfp_log s) - {key}"
  using assms by (auto simp: unregister_effect unregistration_succeeds_def)

section \<open>The classify functions together\<close>

text \<open>One classification: the callout that is called and what it is called with.\<close>

record classification =
  cl_fns :: callout_fns
  cl_values :: incoming
  cl_filter :: "FWPS_FILTER option"
  cl_layerData :: addr
  cl_out :: CLASSIFY_OUT

text \<open>The function each callout is registered with.\<close>

definition classify ::
  "wfp_platform \<Rightarrow> wfp_world \<Rightarrow> classification \<Rightarrow> wfp_state \<Rightarrow> (CLASSIFY_OUT \<times> wfp_state) option" where
  "classify P w c s =
     (case cl_fns c of
        Outbound_IPv4 \<Rightarrow> Outbound_IPv4_ClassifyFn P w (cl_filter c) (cl_layerData c) (cl_out c) s
      | Inbound_ICMPError \<Rightarrow> Some (Inbound_ICMPError_ClassifyFn P w (cl_values c) (cl_out c) s)
      | Outbound_ICMPError \<Rightarrow> Some (Outbound_ICMPError_ClassifyFn P w (cl_out c) s)
      | Outbound_TCP \<Rightarrow> Outbound_TCP_ClassifyFn P w (cl_values c) (cl_filter c) (cl_out c) s
      | Inbound_TCP \<Rightarrow> Some (Inbound_TCP_ClassifyFn P w (cl_values c) (cl_out c) s)
      | Inbound_IPv4 \<Rightarrow> Some (Inbound_IPv4_ClassifyFn P (cl_out c) s))"

text \<open>The driver sees one classification after the other; nothing when one of them faults.\<close>

fun classify_all :: "wfp_platform \<Rightarrow> wfp_world \<Rightarrow> classification list \<Rightarrow> wfp_state \<Rightarrow> wfp_state option" where
  "classify_all P w [] s = Some s"
| "classify_all P w (c # cs) s =
     (case classify P w c s of None \<Rightarrow> None | Some (_, s') \<Rightarrow> classify_all P w cs s')"

text \<open>The process a filter names, 0 for none; and whether its blob claims data it does not have.\<close>

definition named_process :: "FWPS_FILTER option \<Rightarrow> DWORD" where
  "named_process filt = (case filt of
       Some f \<Rightarrow> (case providerContext f of
           Some (Some b) \<Rightarrow> (case blob_data b of Some bs \<Rightarrow> if blob_size b = 4 then read_dword bs else 0 | None \<Rightarrow> 0)
         | _ \<Rightarrow> 0)
     | None \<Rightarrow> 0)"

definition dangling_blob :: "FWPS_FILTER option \<Rightarrow> bool" where
  "dangling_blob filt = (case filt of
       Some f \<Rightarrow> (case providerContext f of
           Some (Some b) \<Rightarrow> blob_size b = 4 \<and> blob_data b = None
         | _ \<Rightarrow> False)
     | None \<Rightarrow> False)"

definition runs_in :: "wfp_world \<Rightarrow> DWORD \<Rightarrow> wfp_state \<Rightarrow> bool" where
  "runs_in w p s \<longleftrightarrow> p \<noteq> 0 \<and> ret_out (w (wfp_log s) PsGetCurrentProcessId) = unat p"

lemma GetProcessId_spec:
  "GetProcessId P w filt s = (if dangling_blob filt then None
     else Some (named_process filt,
       if \<exists>f b. filt = Some f \<and> providerContext f = Some (Some b) \<and> blob_size b \<noteq> 0 \<and> blob_size b \<noteq> 4
       then kd_print P w ''GetProcessId(): data size mismatch'' [] s else s))"
  by (simp add: GetProcessId_def named_process_def dangling_blob_def split: option.split)

text \<open>Traces that only print or ask for the running process.\<close>

fun only_inspects :: "wfp_call \<times> wfp_ret \<Rightarrow> bool" where
  "only_inspects (PsGetCurrentProcessId, r) = True"
| "only_inspects (KdPrintEx fmt args, r) = True"
| "only_inspects _ = False"

definition inspected :: "wfp_state \<Rightarrow> wfp_state \<Rightarrow> bool" where
  "inspected s s' \<longleftrightarrow> (\<exists>tr. wfp_log s' = wfp_log s @ tr \<and> list_all only_inspects tr)"

lemma inspected_refl [simp]: "inspected s s"
  by (simp add: inspected_def)

lemma inspected_print [simp]: "inspected s s' \<Longrightarrow> inspected s (kd_print P w fmt args s')"
  by (auto simp: inspected_def kd_print_def wfp_do_eq)

lemma inspected_port [simp]: "inspected s (s'\<lparr>matchedPort := p\<rparr>) = inspected s s'"
  by (simp add: inspected_def)

lemma inspected_ask [simp]:
  "inspected s (s\<lparr>wfp_log := wfp_log s @ [(PsGetCurrentProcessId, r)]\<rparr>)"
  by (simp add: inspected_def)

lemma watched_process_spec:
  "watched_process P w filt s =
     (let (r, s') = wfp_ask w PsGetCurrentProcessId s in
      map_option (\<lambda>(_, s''). (runs_in w (named_process filt) s, s'')) (GetProcessId P w filt s'))"
  by (auto simp: watched_process_def GetProcessId_spec runs_in_def wfp_ask_eq Let_def unat_gt_0)

lemma watched_process_effect:
  assumes "watched_process P w filt s = Some (b, s')"
  shows "b = runs_in w (named_process filt) s \<and> matchedPort s' = matchedPort s \<and> inspected s s' \<and> \<not> dangling_blob filt"
  using assms by (auto simp: watched_process_spec GetProcessId_spec wfp_ask_eq split: if_splits)

lemma watched_process_None: "watched_process P w filt s = None \<longleftrightarrow> dangling_blob filt"
  by (simp add: watched_process_spec GetProcessId_spec wfp_ask_eq)

lemmas classify_defs = Inbound_TCP_ClassifyFn_def Inbound_IPv4_ClassifyFn_def Outbound_ICMPError_ClassifyFn_def
  Inbound_ICMPError_ClassifyFn_def inspect_only_def

lemma classify_effect:
  "classify P w c s = None \<and> cl_fns c \<in> {Outbound_TCP, Outbound_IPv4} \<and> dangling_blob (cl_filter c) \<or>
   (\<exists>out s'. classify P w c s = Some (out, s') \<and> actionType out = FWP_ACTION_CONTINUE P \<and> inspected s s' \<and>
      matchedPort s' =
        (if cl_fns c = Outbound_TCP \<and> runs_in w (named_process (cl_filter c)) s
         then uint16 (cl_values c (OUTBOUND_TRANSPORT_V4_IP_LOCAL_PORT P)) else matchedPort s))"
proof (cases "cl_fns c")
  case Outbound_IPv4
  then show ?thesis
    using watched_process_None [of P w "cl_filter c" s] watched_process_effect [of P w "cl_filter c" s]
    by (cases "watched_process P w (cl_filter c) s")
      (auto simp: classify_def Outbound_IPv4_ClassifyFn_def inspect_only_def Let_def split: bool.split)
next
  case Outbound_TCP
  then show ?thesis
    using watched_process_None [of P w "cl_filter c" s] watched_process_effect [of P w "cl_filter c" s]
    by (cases "watched_process P w (cl_filter c) s")
      (auto simp: classify_def Outbound_TCP_ClassifyFn_def inspect_only_def Let_def split: bool.split)
qed (simp_all add: classify_def classify_defs Let_def)

lemmas notify_defs = Inbound_TCP_NotifyFn_def Outbound_TCP_NotifyFn_def Inbound_IPv4_NotifyFn_def
  Outbound_ICMPError_NotifyFn_def Inbound_ICMPError_NotifyFn_def Outbound_IPv4_NotifyFn_def

lemma notify_effect: "\<exists>s'. notify P w fns s = (STATUS_SUCCESS, s') \<and> inspected s s' \<and> matchedPort s' = matchedPort s"
  by (cases fns) (simp_all add: notify_def notify_defs)

section \<open>Properties\<close>

text \<open>A world that answers success, handle 7 and no init structure, and one that fails at the third registration.\<close>

definition sample_wfp :: wfp_platform where
  "sample_wfp = \<lparr>wfp_DBG = True, NT_ERROR = (\<lambda>st. 0xC0000000 \<le> st), FWP_ACTION_CONTINUE = 0x2006,
     WdfDriverInitNonPnpDriver = 1, SDDL_DEVOBJ_KERNEL_ONLY = ''D:P'', FILE_DEVICE_NETWORK = 0x12,
     INBOUND_TRANSPORT_V4_IP_LOCAL_PORT = 4,
     OUTBOUND_TRANSPORT_V4_IP_LOCAL_PORT = 3, INBOUND_ICMP_ERROR_V4_IP_REMOTE_ADDRESS = 1,
     INBOUND_ICMP_ERROR_V4_EMBEDDED_LOCAL_PORT = 6, INBOUND_ICMP_ERROR_V4_ICMP_TYPE = 8,
     INBOUND_ICMP_ERROR_V4_ICMP_CODE = 9\<rparr>"

definition fresh_wfp :: wfp_state where
  "fresh_wfp = \<lparr>matchedPort = 0, WDFDriverDevice = NULL, DriverDeviceObject = NULL, wfp_log = []\<rparr>"

definition willing :: wfp_world where
  "willing tr c = \<lparr>ret_status = 0, ret_out = 7, ret_init = NULL\<rparr>"

definition no_third :: wfp_world where
  "no_third tr c = (case c of
       FwpsCalloutRegister3 d key cf nf \<Rightarrow>
         \<lparr>ret_status = (if key = Outbound_ICMPError_Key then 0xC0000022 else 0), ret_out = 7, ret_init = NULL\<rparr>
     | _ \<Rightarrow> \<lparr>ret_status = 0, ret_out = 7, ret_init = NULL\<rparr>)"

lemma sample_documented: "wfp_documented sample_wfp"
  by (simp add: wfp_documented_def sample_wfp_def)

lemma willing_unregisters: "unregistration_succeeds sample_wfp willing"
  by (simp add: unregistration_succeeds_def willing_def sample_wfp_def)

text \<open>
  The six callouts of the driver have six different keys, and the five keys the controller
  has for callouts are keys of the driver, each of the callout it is named after.
\<close>

theorem callout_keys_agree:
  "distinct [Outbound_TCP_Key, Outbound_IPv4_Key, Outbound_ICMPError_Key, Inbound_IPv4_Key, Inbound_TCP_Key,
      Inbound_ICMPError_Key] \<and>
   OutboundIPv4CalloutKey = Outbound_IPv4_Key \<and> InboundICMPErrorCalloutKey = Inbound_ICMPError_Key \<and>
   OutboundICMPErrorCalloutKey = Outbound_ICMPError_Key \<and> InboundIPV4CalloutKey = Inbound_IPv4_Key \<and>
   OutboundTCPCalloutKey = Outbound_TCP_Key"
  by (simp add: key_defs controller_key_defs)

text \<open>
  C30: When the driver loads without an error status from a state with no callout registered, and
  has found its device object, the five callouts are registered; unloading asks for the
  unregistration of exactly these five, each once and in that order, and when no unregistration
  of a registered callout fails none is left.
\<close>

theorem load_then_unload:
  assumes "DriverEntry_callout P w 0 D R s = (st, s')" "registered P (wfp_log s) = {}" "wfp_documented P"
    and "\<not> NT_ERROR P st" "DriverDeviceObject s' \<noteq> NULL"
  shows "registered P (wfp_log s') = set all_keys \<and>
    asked_keys (wfp_log (DriverUnload_callout P w' s')) = asked_keys (wfp_log s') @ all_keys \<and>
    (unregistration_succeeds P w' \<longrightarrow> registered P (wfp_log (DriverUnload_callout P w' s')) = {})"
proof -
  have reg: "registered P (wfp_log s') = set all_keys"
    using DriverEntry_callout_effect [OF assms(1-3)] assms(4,5) by simp
  moreover have "asked_keys (wfp_log (DriverUnload_callout P w' s')) = asked_keys (wfp_log s') @ all_keys"
    by (simp add: DriverUnload_callout_def UnregisterAllCallouts_def all_keys_def)
  moreover have "registered P (wfp_log (DriverUnload_callout P w' s')) = {}" if "unregistration_succeeds P w'"
    using reg by (auto simp: DriverUnload_callout_def UnregisterAllCallouts_def unregister_clears [OF that]
        all_keys_def)
  ultimately show ?thesis by simp
qed

theorem load_then_unload_witness:
  "registered sample_wfp (wfp_log (DriverUnload_callout sample_wfp willing
     (snd (DriverEntry_callout sample_wfp willing 0 1 2 fresh_wfp)))) = {}"
proof -
  let ?e = "DriverEntry_callout sample_wfp willing 0 1 2 fresh_wfp"
  have "fst ?e = 0" "DriverDeviceObject (snd ?e) = 7"
    by (simp_all add: DriverEntry_callout_def RegisterAllCallouts_def RegisterCallout_def sample_wfp_def
        fresh_wfp_def willing_def wfp_simps)
  moreover have "?e = (fst ?e, snd ?e)" by simp
  moreover have "registered sample_wfp (wfp_log fresh_wfp) = {}" by (simp add: fresh_wfp_def registered.run_Nil)
  ultimately show ?thesis
    using load_then_unload [of sample_wfp willing 1 2 fresh_wfp "fst ?e" "snd ?e" willing] sample_documented
      willing_unregisters by (simp add: sample_wfp_def)
qed

text \<open>
  C17: A load that fails has registered the first \<open>k\<close> of the five callouts, for some \<open>k\<close> below 5,
  and unregisters none of them: they stay registered although the driver is not loaded.
\<close>

theorem failed_load_keeps_callouts:
  assumes "DriverEntry_callout P w 0 D R s = (st, s')" "registered P (wfp_log s) = {}" "wfp_documented P"
    and "NT_ERROR P st"
  shows "\<exists>k < 5. registered P (wfp_log s') = set (take k all_keys) \<and>
    occurrences is_unregistration (wfp_log s') = occurrences is_unregistration (wfp_log s)"
  using DriverEntry_callout_effect [OF assms(1-3)] assms(4) by auto

theorem failed_load_keeps_callouts_witness:
  "registered sample_wfp (wfp_log (snd (DriverEntry_callout sample_wfp no_third 0 1 2 fresh_wfp))) =
     {Outbound_IPv4_Key, Inbound_ICMPError_Key} \<and>
   (\<exists>k < 5. registered sample_wfp (wfp_log (snd (DriverEntry_callout sample_wfp no_third 0 1 2 fresh_wfp))) =
     set (take k all_keys))"
proof -
  let ?e = "DriverEntry_callout sample_wfp no_third 0 1 2 fresh_wfp"
  have "fst ?e = 0xC0000022" and
    reg: "registered sample_wfp (wfp_log (snd ?e)) = {Outbound_IPv4_Key, Inbound_ICMPError_Key}"
    by (auto simp: DriverEntry_callout_def RegisterAllCallouts_def RegisterCallout_def sample_wfp_def
        fresh_wfp_def no_third_def wfp_simps key_defs registered_def kd_print_def)
  moreover have "?e = (fst ?e, snd ?e)" by simp
  moreover have "registered sample_wfp (wfp_log fresh_wfp) = {}" by (simp add: fresh_wfp_def registered.run_Nil)
  ultimately show ?thesis
    using failed_load_keeps_callouts [of sample_wfp no_third 1 2 fresh_wfp "fst ?e" "snd ?e"] sample_documented
    by (simp add: sample_wfp_def) blast
qed

text \<open>
  C27: Every classification of every callout lets the packet continue and calls nothing but the
  query for the running process and debug output. The remembered port changes only when the
  outbound TCP callout runs in the process its filter names; it is then the local port. The only
  fault is that of the two outbound callouts on a filter whose blob claims four bytes and has no
  data pointer. Every notification succeeds with nothing but debug output.
\<close>

theorem classify_only_inspects:
  "(classify P w c s = None \<and> cl_fns c \<in> {Outbound_TCP, Outbound_IPv4} \<and> dangling_blob (cl_filter c) \<or>
   (\<exists>out s'. classify P w c s = Some (out, s') \<and> actionType out = FWP_ACTION_CONTINUE P \<and> inspected s s' \<and>
      matchedPort s' =
        (if cl_fns c = Outbound_TCP \<and> runs_in w (named_process (cl_filter c)) s
         then uint16 (cl_values c (OUTBOUND_TRANSPORT_V4_IP_LOCAL_PORT P)) else matchedPort s))) \<and>
   (\<exists>s'. notify P w (cl_fns c) s = (STATUS_SUCCESS, s') \<and> inspected s s' \<and> matchedPort s' = matchedPort s)"
  by (intro conjI classify_effect notify_effect)

text \<open>
  What the debug output says: the port last reported by the outbound callout, whether a match has
  just been reported, and whether all reports were right so far. A match must be reported before
  an inbound report exactly when that is for the port of the last outbound report and it is not 0.
\<close>

fun report_step :: "nat \<times> bool \<times> bool \<Rightarrow> wfp_call \<times> wfp_ret \<Rightarrow> nat \<times> bool \<times> bool" where
  "report_step (prev, pending, ok) (KdPrintEx fmt args, r) =
     (if fmt = ''outbound transport %hu'' then (args ! 0, pending, ok)
      else if fmt = ''matched on port %hu'' then (prev, True, ok \<and> \<not> pending \<and> args ! 0 = prev)
      else if fmt = ''inbound transport %hu'' then (prev, False, ok \<and> (pending \<longleftrightarrow> args ! 0 = prev \<and> prev \<noteq> 0))
      else (prev, pending, ok))"
| "report_step m (_, r) = m"

definition reports :: "wfp_trace \<Rightarrow> nat \<times> bool \<times> bool" where
  "reports tr = foldl report_step (0, False, True) tr"

interpretation reports: trace_monitor reports report_step "(0, False, True)"
  by unfold_locales (simp_all add: reports_def)

lemma reports_print:
  "wfp_DBG P \<Longrightarrow> reports (wfp_log (kd_print P w fmt args s)) =
     report_step (reports (wfp_log s)) (KdPrintEx fmt args, w (wfp_log s) (KdPrintEx fmt args))"
  by (simp add: kd_print_def wfp_do_eq reports.run_snoc)

lemma reports_watched:
  assumes "wfp_DBG P" "watched_process P w filt s = Some (b, s')"
  shows "reports (wfp_log s') = reports (wfp_log s)"
  using assms by (cases "reports (wfp_log s)")
    (auto simp: watched_process_spec GetProcessId_spec wfp_ask_eq reports_print reports.run_snoc split: if_splits)

definition reports_right :: "wfp_state \<Rightarrow> bool" where
  "reports_right s \<longleftrightarrow> reports (wfp_log s) = (unat (matchedPort s), False, True)"

lemma reports_right_fields [simp]: "reports_right (s\<lparr>WDFDriverDevice := h\<rparr>) = reports_right s"
  by (simp add: reports_right_def)

lemma unat_eq_imp: "unat (a :: UINT16) = unat b \<Longrightarrow> a = b"
  by (simp add: word_unat_eq_iff)

lemma classify_keeps_reports:
  assumes dbg: "wfp_DBG P" and right: "reports_right s" and run: "classify P w c s = Some (out, s')"
  shows "reports_right s'"
proof (cases "cl_fns c")
  case Outbound_IPv4
  then obtain b s1 where 1: "watched_process P w (cl_filter c) s = Some (b, s1)"
    using run by (auto simp: classify_def Outbound_IPv4_ClassifyFn_def Let_def split: option.splits)
  show ?thesis
    using 1 run right reports_watched [OF dbg 1] watched_process_effect [OF 1] Outbound_IPv4
    by (auto simp: classify_def Outbound_IPv4_ClassifyFn_def reports_right_def reports_print [OF dbg] Let_def
        split: bool.splits if_splits)
next
  case Outbound_TCP
  then obtain b s1 where 1: "watched_process P w (cl_filter c) s = Some (b, s1)"
    using run by (auto simp: classify_def Outbound_TCP_ClassifyFn_def Let_def split: option.splits)
  show ?thesis
    using 1 run right reports_watched [OF dbg 1] watched_process_effect [OF 1] Outbound_TCP
    by (auto simp: classify_def Outbound_TCP_ClassifyFn_def reports_right_def reports_print [OF dbg] Let_def
        split: bool.splits)
next
  case Inbound_TCP
  then show ?thesis
    using run right by (auto simp: classify_def classify_defs reports_right_def reports_print [OF dbg] Let_def unat_gt_0
        dest: unat_eq_imp split: if_splits)
qed (use run right in \<open>auto simp: classify_def classify_defs reports_right_def reports_print [OF dbg] Let_def\<close>)

text \<open>
  C28: In a debug build, after any sequence of classifications from the driver's initial state that
  does not fault, the remembered port is that of the last outbound report, and every inbound
  report of a port was preceded by the report of a match exactly when that port is not 0 and was
  the last one reported outbound.
\<close>

theorem matches_are_reported:
  assumes "wfp_DBG P" "matchedPort s = 0" "wfp_log s = []" "classify_all P w cs s = Some s'"
  shows "reports (wfp_log s') = (unat (matchedPort s'), False, True)"
proof -
  have "classify_all P w cs s = Some s' \<Longrightarrow> reports_right s \<Longrightarrow> reports_right s'" for s
    by (induction cs arbitrary: s) (auto split: option.splits intro: classify_keeps_reports [OF assms(1)])
  moreover have "reports_right s" using assms(2,3) by (simp add: reports_right_def reports.run_Nil)
  ultimately show ?thesis using assms(4) by (simp add: reports_right_def)
qed

text \<open>The process 7 talks from port 80 and gets a packet back.\<close>

definition from_7 :: classification where
  "from_7 = \<lparr>cl_fns = Outbound_TCP, cl_values = (\<lambda>_. 80),
     cl_filter = Some \<lparr>providerContext = Some (Some \<lparr>blob_size = 4, blob_data = Some [7, 0, 0, 0]\<rparr>)\<rparr>,
     cl_layerData = NULL, cl_out = \<lparr>actionType = 0\<rparr>\<rparr>"

theorem matches_are_reported_witness:
  "map_option (\<lambda>s. (reports (wfp_log s), filter (\<lambda>(c, r). case c of KdPrintEx fmt _ \<Rightarrow> fmt = ''matched on port %hu'' | _ \<Rightarrow> False) (wfp_log s) \<noteq> []))
     (classify_all sample_wfp willing [from_7, from_7\<lparr>cl_fns := Inbound_TCP\<rparr>] fresh_wfp) = Some ((80, False, True), True)"
proof -
  obtain s where s: "classify_all sample_wfp willing [from_7, from_7\<lparr>cl_fns := Inbound_TCP\<rparr>] fresh_wfp = Some s"
      "matchedPort s = 80"
      "filter (\<lambda>(c, r). case c of KdPrintEx fmt _ \<Rightarrow> fmt = ''matched on port %hu'' | _ \<Rightarrow> False) (wfp_log s) \<noteq> []"
    by (simp add: classify_def Outbound_TCP_ClassifyFn_def watched_process_def GetProcessId_def read_dword_def
        classify_defs from_7_def fresh_wfp_def sample_wfp_def willing_def wfp_simps kd_print_def uint16_def)
  with matches_are_reported [OF _ _ _ s(1)] show ?thesis
    by (simp add: sample_wfp_def fresh_wfp_def del: classify_all.simps)
qed

text \<open>
  A load that finds no device object behind its new device returns the success status of the
  device's creation with no callout registered at all.
\<close>

theorem load_without_device_object:
  assumes "DriverEntry_callout P w 0 D R s = (st, s')" "registered P (wfp_log s) = {}" "wfp_documented P"
    and "\<And>tr h. ret_out (w tr (WdfDeviceWdmGetDeviceObject h)) = NULL"
    and "\<And>tr c. \<not> NT_ERROR P (ret_status (w tr c))" "\<And>tr h sd. ret_out (w tr (WdfControlDeviceInitAllocate h sd)) \<noteq> NULL"
  shows "\<not> NT_ERROR P st \<and> registered P (wfp_log s') = {}"
proof -
  have answers: "wfp_ask w c x = (r, x') \<Longrightarrow> r = w (wfp_log x) c \<and> \<not> NT_ERROR P (ret_status r)" for c x r x'
    using assms(5) by (auto simp: wfp_ask_eq)
  have "\<not> NT_ERROR P st \<and> DriverDeviceObject s' = NULL"
    using assms(1) by (auto simp: DriverEntry_callout_def Let_def entry_do assms(4,6) dest!: answers split: prod.splits if_splits)
  then show ?thesis using DriverEntry_callout_effect [OF assms(1-3)] by simp
qed

definition no_object :: wfp_world where
  "no_object tr c = (case c of
       WdfDeviceWdmGetDeviceObject h \<Rightarrow> \<lparr>ret_status = 0, ret_out = NULL, ret_init = NULL\<rparr>
     | _ \<Rightarrow> \<lparr>ret_status = 0, ret_out = 7, ret_init = NULL\<rparr>)"

theorem load_without_device_object_witness:
  "\<not> NT_ERROR sample_wfp (fst (DriverEntry_callout sample_wfp no_object 0 1 2 fresh_wfp))"
proof -
  have "registered sample_wfp (wfp_log fresh_wfp) = {}" by (simp add: fresh_wfp_def registered.run_Nil)
  moreover have "\<not> NT_ERROR sample_wfp (ret_status (no_object tr c))" for tr c
    by (simp add: no_object_def sample_wfp_def split: wfp_call.split)
  ultimately show ?thesis
    using load_without_device_object [OF surjective_pairing _ sample_documented, where w = no_object and D = 1 and R = 2 and s = fresh_wfp]
    by (simp add: no_object_def)
qed

end
