(* ===== verification/Callout_Races.thy ===== *)
theory Callout_Races imports Callout_Driver begin

text \<open>
  The transport callouts on several processors. Nothing protects the remembered port, so a classification
  is taken apart into its accesses to it and its calls, and those of different processors interleave.
  The other callouts do not touch the port and run as one step.
\<close>

section \<open>One access at a time\<close>

text \<open>
  What a processor is about to do: the inbound callout reads the remembered port, reads it again for
  the comparison, and reports; the outbound one stores its port and reports.
\<close>

datatype activity =
    Idle
  | Read_Port UINT16 | Compare_Port UINT16 | Report_Match UINT16 | Report_Inbound UINT16
  | Store_Port UINT16 | Report_Outbound UINT16

text \<open>\<open>noted\<close> has the ports stored so far, in their order.\<close>

record race_state =
  cpus :: "nat \<Rightarrow> activity"
  shared :: wfp_state
  noted :: "UINT16 list"

definition goes :: "nat \<Rightarrow> activity \<Rightarrow> race_state \<Rightarrow> race_state" where
  "goes i a c = c\<lparr>cpus := (cpus c)(i := a)\<rparr>"

definition printing :: "wfp_platform \<Rightarrow> wfp_world \<Rightarrow> string \<Rightarrow> UINT16 \<Rightarrow> race_state \<Rightarrow> race_state" where
  "printing P w fmt p c = c\<lparr>shared := kd_print P w fmt [unat p] (shared c)\<rparr>"

inductive race_step :: "wfp_platform \<Rightarrow> wfp_world \<Rightarrow> race_state \<Rightarrow> race_state \<Rightarrow> bool" for P w where
  inbound: "cpus c i = Idle \<Longrightarrow> race_step P w c (goes i (Read_Port p) c)"
| read_port: "cpus c i = Read_Port p \<Longrightarrow>
    race_step P w c (goes i (if matchedPort (shared c) \<noteq> 0 \<and> p \<noteq> 0 then Compare_Port p else Report_Inbound p) c)"
| compare_port: "cpus c i = Compare_Port p \<Longrightarrow>
    race_step P w c (goes i (if p = matchedPort (shared c) then Report_Match p else Report_Inbound p) c)"
| report_match: "cpus c i = Report_Match p \<Longrightarrow>
    race_step P w c (goes i (Report_Inbound p) (printing P w ''matched on port %hu'' p c))"
| report_inbound: "cpus c i = Report_Inbound p \<Longrightarrow>
    race_step P w c (goes i Idle (printing P w ''inbound transport %hu'' p c))"
| outbound: "cpus c i = Idle \<Longrightarrow> watched_process P w filt (shared c) = Some (b, s) \<Longrightarrow>
    race_step P w c (goes i (if b then Store_Port p else Idle) (c\<lparr>shared := s\<rparr>))"
| store_port: "cpus c i = Store_Port p \<Longrightarrow>
    race_step P w c (goes i (Report_Outbound p) (c\<lparr>shared := (shared c)\<lparr>matchedPort := p\<rparr>, noted := noted c @ [p]\<rparr>))"
| report_outbound: "cpus c i = Report_Outbound p \<Longrightarrow>
    race_step P w c (goes i Idle (printing P w ''outbound transport %hu'' p c))"
| other: "cpus c i = Idle \<Longrightarrow> cl_fns k \<notin> {Inbound_TCP, Outbound_TCP} \<Longrightarrow> classify P w k (shared c) = Some (out, s) \<Longrightarrow>
    race_step P w c (c\<lparr>shared := s\<rparr>)"

inductive_cases race_stepE: "race_step P w c c'"

definition race_start :: race_state where
  "race_start = \<lparr>cpus = (\<lambda>_. Idle),
     shared = \<lparr>matchedPort = 0, WDFDriverDevice = NULL, DriverDeviceObject = NULL, wfp_log = []\<rparr>, noted = []\<rparr>"

definition race_reachable :: "wfp_platform \<Rightarrow> wfp_world \<Rightarrow> race_state \<Rightarrow> bool" where
  "race_reachable P w c \<longleftrightarrow> (race_step P w)\<^sup>*\<^sup>* race_start c"

lemma goes_fields [simp]:
  "cpus (goes i a c) = (cpus c)(i := a)" "shared (goes i a c) = shared c" "noted (goes i a c) = noted c"
  by (simp_all add: goes_def)

lemma printing_fields [simp]:
  "cpus (printing P w fmt p c) = cpus c" "noted (printing P w fmt p c) = noted c"
  "shared (printing P w fmt p c) = kd_print P w fmt [unat p] (shared c)"
  by (simp_all add: printing_def)

lemma race_state_eqI: "cpus c = cpus d \<Longrightarrow> shared c = shared d \<Longrightarrow> noted c = noted d \<Longrightarrow> c = (d :: race_state)"
  by simp

section \<open>The handlers are runs of steps\<close>

text \<open>
  Without interference the steps of one processor are the classification of \<open>Callout_Driver\<close>: each that does
  not fault is a run from an idle processor to an idle one, with the same effect.
\<close>

text \<open>The comparison of the inbound callout, from its copy of the port to its last report.\<close>

lemma run_comparison:
  fixes P w c i p
  defines "s \<equiv> if matchedPort (shared c) \<noteq> 0 \<and> p \<noteq> 0 \<and> p = matchedPort (shared c)
    then kd_print P w ''matched on port %hu'' [unat p] (shared c) else shared c"
  shows "(race_step P w)\<^sup>*\<^sup>* (goes i (Read_Port p) c) (goes i (Report_Inbound p) (c\<lparr>shared := s\<rparr>))"
proof (cases "matchedPort (shared c) \<noteq> 0 \<and> p \<noteq> 0")
  case False
  have "race_step P w (goes i (Read_Port p) c) (goes i (Report_Inbound p) (goes i (Read_Port p) c))"
    using race_step.read_port [of "goes i (Read_Port p) c" i p P w] False by auto
  then show ?thesis using False by (auto simp: goes_def s_def)
next
  case True
  let ?c2 = "goes i (Compare_Port p) (goes i (Read_Port p) c)"
  have 2: "race_step P w (goes i (Read_Port p) c) ?c2" using race_step.read_port [of "goes i (Read_Port p) c" i p P w] True by simp
  show ?thesis
  proof (cases "p = matchedPort (shared c)")
    case False
    have "race_step P w ?c2 (goes i (Report_Inbound p) ?c2)"
      using race_step.compare_port [of ?c2 i p P w] False by auto
    with 2 show ?thesis using False by (auto simp: goes_def s_def)
  next
    case eq: True
    let ?c3 = "goes i (Report_Match p) ?c2"
    have "race_step P w ?c2 ?c3" using race_step.compare_port [of ?c2 i p P w] eq by simp
    moreover have "race_step P w ?c3 (goes i (Report_Inbound p) (printing P w ''matched on port %hu'' p ?c3))"
      by (rule race_step.report_match) simp
    moreover have "goes i (Report_Inbound p) (printing P w ''matched on port %hu'' p ?c3) =
        goes i (Report_Inbound p) (c\<lparr>shared := s\<rparr>)"
      using True eq by (intro race_state_eqI) (auto simp: s_def)
    ultimately show ?thesis using 2 by simp
  qed
qed

lemma run_inbound:
  assumes idle: "cpus c i = Idle" and run: "Inbound_TCP_ClassifyFn P w vals out (shared c) = (out', s')"
  shows "(race_step P w)\<^sup>*\<^sup>* c (c\<lparr>shared := s'\<rparr>)"
proof -
  define p where "p = uint16 (vals (INBOUND_TRANSPORT_V4_IP_LOCAL_PORT P))"
  let ?b = "matchedPort (shared c) \<noteq> 0 \<and> p \<noteq> 0 \<and> p = matchedPort (shared c)"
  let ?s = "if ?b then kd_print P w ''matched on port %hu'' [unat p] (shared c) else shared c"
  have s': "s' = kd_print P w ''inbound transport %hu'' [unat p] ?s"
    using run by (auto simp: Inbound_TCP_ClassifyFn_def p_def [symmetric] Let_def)
  let ?c1 = "goes i (Read_Port p) c"
  have 1: "race_step P w c ?c1" using idle by (rule race_step.inbound)
  have 2: "(race_step P w)\<^sup>*\<^sup>* ?c1 (goes i (Report_Inbound p) (c\<lparr>shared := ?s\<rparr>))" by (rule run_comparison)
  have 3: "race_step P w (goes i (Report_Inbound p) (c\<lparr>shared := ?s\<rparr>)) (c\<lparr>shared := s'\<rparr>)"
  proof -
    have "c\<lparr>shared := s'\<rparr> = goes i Idle (printing P w ''inbound transport %hu'' p (goes i (Report_Inbound p) (c\<lparr>shared := ?s\<rparr>)))"
      using idle by (intro race_state_eqI) (simp_all add: s' fun_upd_idem)
    then show ?thesis by (simp only:) (rule race_step.report_inbound, simp)
  qed
  show ?thesis using 1 2 3 by (meson converse_rtranclp_into_rtranclp rtranclp.rtrancl_into_rtrancl)
qed

lemma three_steps: "r a b \<Longrightarrow> r b c \<Longrightarrow> r c d \<Longrightarrow> r\<^sup>*\<^sup>* a d"
  by (meson converse_rtranclp_into_rtranclp r_into_rtranclp)

lemma run_outbound:
  assumes idle: "cpus c i = Idle" and run: "Outbound_TCP_ClassifyFn P w vals filt out (shared c) = Some (out', s')"
  shows "\<exists>ps. (race_step P w)\<^sup>*\<^sup>* c (c\<lparr>shared := s', noted := noted c @ ps\<rparr>)"
proof -
  define p where "p = uint16 (vals (OUTBOUND_TRANSPORT_V4_IP_LOCAL_PORT P))"
  obtain b s where b: "watched_process P w filt (shared c) = Some (b, s)"
    using run by (auto simp: Outbound_TCP_ClassifyFn_def Let_def split: option.splits)
  have 1: "race_step P w c (goes i (if b then Store_Port p else Idle) (c\<lparr>shared := s\<rparr>))"
    using idle b by (rule race_step.outbound)
  show ?thesis
  proof (cases b)
    case False
    then have "s' = s" using run b by (simp add: Outbound_TCP_ClassifyFn_def Let_def)
    moreover have "goes i Idle (c\<lparr>shared := s\<rparr>) = c\<lparr>shared := s, noted := noted c @ []\<rparr>"
      using idle by (intro race_state_eqI) (simp_all add: fun_upd_idem)
    ultimately show ?thesis using 1 False by (metis (full_types) r_into_rtranclp)
  next
    case True
    let ?s = "s\<lparr>matchedPort := p\<rparr>"
    have s': "s' = kd_print P w ''outbound transport %hu'' [unat p] ?s"
      using run b True by (simp add: Outbound_TCP_ClassifyFn_def Let_def p_def)
    let ?c2 = "goes i (Report_Outbound p) (c\<lparr>shared := ?s, noted := noted c @ [p]\<rparr>)"
    have 2: "race_step P w (goes i (Store_Port p) (c\<lparr>shared := s\<rparr>)) ?c2"
      using race_step.store_port [of "goes i (Store_Port p) (c\<lparr>shared := s\<rparr>)" i p P w] by (simp add: goes_def)
    have 3: "race_step P w ?c2 (goes i Idle (printing P w ''outbound transport %hu'' p ?c2))"
      by (rule race_step.report_outbound) simp
    have 4: "goes i Idle (printing P w ''outbound transport %hu'' p ?c2) = c\<lparr>shared := s', noted := noted c @ [p]\<rparr>"
      using idle by (intro race_state_eqI) (simp_all add: s' fun_upd_idem)
    have "race_step P w c (goes i (Store_Port p) (c\<lparr>shared := s\<rparr>))" using 1 True by simp
    note three_steps [of "race_step P w", OF this 2 3]
    then show ?thesis unfolding 4 by blast
  qed
qed

lemma run_classify:
  assumes idle: "cpus c i = Idle" and run: "classify P w k (shared c) = Some (out, s')"
  shows "\<exists>ps. (race_step P w)\<^sup>*\<^sup>* c (c\<lparr>shared := s', noted := noted c @ ps\<rparr>)"
proof -
  consider "cl_fns k = Inbound_TCP" | "cl_fns k = Outbound_TCP" | "cl_fns k \<notin> {Inbound_TCP, Outbound_TCP}" by auto
  then show ?thesis
  proof cases
    case 1
    then have "Inbound_TCP_ClassifyFn P w (cl_values k) (cl_out k) (shared c) = (out, s')"
      using run by (simp add: classify_def)
    from run_inbound [OF idle this] show ?thesis by (intro exI [of _ "[]"]) simp
  next
    case 2
    then have "Outbound_TCP_ClassifyFn P w (cl_values k) (cl_filter k) (cl_out k) (shared c) = Some (out, s')"
      using run by (simp add: classify_def)
    from run_outbound [OF idle this] show ?thesis .
  next
    case 3
    from race_step.other [OF idle 3 run] show ?thesis by (intro exI [of _ "[]"]) simp
  qed
qed

lemma run_all:
  assumes "\<forall>i. cpus c i = Idle" "classify_all P w ks (shared c) = Some s'"
  shows "\<exists>ps. (race_step P w)\<^sup>*\<^sup>* c (c\<lparr>shared := s', noted := noted c @ ps\<rparr>)"
  using assms
proof (induction ks arbitrary: c)
  case (Cons k ks)
  obtain out s where k: "classify P w k (shared c) = Some (out, s)" "classify_all P w ks s = Some s'"
    using Cons.prems(2) by (auto split: option.splits)
  obtain ps where 1: "(race_step P w)\<^sup>*\<^sup>* c (c\<lparr>shared := s, noted := noted c @ ps\<rparr>)"
    using run_classify [OF _ k(1), of 0] Cons.prems(1) by blast
  obtain qs where "(race_step P w)\<^sup>*\<^sup>* (c\<lparr>shared := s, noted := noted c @ ps\<rparr>)
      (c\<lparr>shared := s', noted := noted c @ ps @ qs\<rparr>)"
    using Cons.IH [of "c\<lparr>shared := s, noted := noted c @ ps\<rparr>"] Cons.prems(1) k(2) by auto
  with 1 show ?case by (meson rtranclp_trans)
qed (auto intro!: exI [of _ "[]"])

section \<open>What holds of every interleaving\<close>

text \<open>The ports for which a match was reported.\<close>

fun match_report :: "wfp_call \<times> wfp_ret \<Rightarrow> nat list" where
  "match_report (KdPrintEx fmt args, r) = (if fmt = ''matched on port %hu'' then args else [])"
| "match_report _ = []"

definition match_reports :: "wfp_trace \<Rightarrow> nat list" where
  "match_reports tr = concat (map match_report tr)"

lemma match_reports_print [simp]:
  "match_reports (wfp_log (kd_print P w fmt args s)) =
     match_reports (wfp_log s) @ (if wfp_DBG P \<and> fmt = ''matched on port %hu'' then args else [])"
  by (simp add: kd_print_def wfp_do_eq match_reports_def)

lemma match_reports_watched:
  assumes "watched_process P w filt s = Some (b, s')"
  shows "match_reports (wfp_log s') = match_reports (wfp_log s)"
proof -
  have "match_reports (wfp_log s @ [(PsGetCurrentProcessId, r)]) = match_reports (wfp_log s)" for r
    by (simp add: match_reports_def)
  then show ?thesis using assms by (auto simp: watched_process_spec GetProcessId_spec wfp_ask_eq split: if_splits)
qed

lemma match_reports_other:
  assumes "classify P w k s = Some (out, s')" "cl_fns k \<notin> {Inbound_TCP, Outbound_TCP}"
  shows "match_reports (wfp_log s') = match_reports (wfp_log s) \<and> matchedPort s' = matchedPort s"
proof (cases "cl_fns k")
  case Outbound_IPv4
  then obtain b s1 where 1: "watched_process P w (cl_filter k) s = Some (b, s1)"
    using assms(1) by (auto simp: classify_def Outbound_IPv4_ClassifyFn_def Let_def split: option.splits)
  then show ?thesis
    using assms(1) Outbound_IPv4 match_reports_watched [OF 1] watched_process_effect [OF 1]
    by (auto simp: classify_def Outbound_IPv4_ClassifyFn_def Let_def split: bool.splits if_splits)
qed (use assms in \<open>auto simp: classify_def classify_defs Let_def\<close>)

definition race_inv :: "race_state \<Rightarrow> bool" where
  "race_inv c \<longleftrightarrow> matchedPort (shared c) \<in> insert 0 (set (noted c)) \<and>
     (\<forall>i p. cpus c i = Compare_Port p \<longrightarrow> p \<noteq> 0) \<and>
     (\<forall>i p. cpus c i = Report_Match p \<longrightarrow> p \<noteq> 0 \<and> p \<in> set (noted c)) \<and>
     set (match_reports (wfp_log (shared c))) \<subseteq> unat ` (set (noted c) - {0})"

lemma race_step_inv:
  assumes step: "race_step P w c c'" and inv: "race_inv c"
  shows "race_inv c'"
  using step
proof cases
  case (outbound i filt b s p)
  then show ?thesis
    using inv match_reports_watched [OF outbound(3)] watched_process_effect [OF outbound(3)]
    by (auto simp: race_inv_def)
next
  case (other i k out s)
  then show ?thesis using inv match_reports_other [OF other(4,3)] by (auto simp: race_inv_def)
qed (use inv in \<open>auto simp: race_inv_def split: if_splits\<close>)

lemma race_reachable_inv: "race_reachable P w c \<Longrightarrow> race_inv c"
  unfolding race_reachable_def
proof (induction rule: rtranclp_induct)
  case base
  show ?case by (simp add: race_inv_def race_start_def match_reports_def)
qed (rule race_step_inv)

section \<open>Properties\<close>

text \<open>
  C29: However the accesses of the transport callouts on different processors interleave, a match is reported
  only for a port other than 0 that the outbound callout has noted before, and the remembered port is
  0 or one of those noted. The interleavings include every sequence of whole classifications.
\<close>

theorem interleaved_matches_were_noted:
  "(race_reachable P w c \<longrightarrow> matchedPort (shared c) \<in> insert 0 (set (noted c)) \<and>
      set (match_reports (wfp_log (shared c))) \<subseteq> unat ` (set (noted c) - {0})) \<and>
   (classify_all P w ks (shared race_start) = Some s \<longrightarrow> (\<exists>c'. race_reachable P w c' \<and> shared c' = s))"
proof -
  have "\<forall>i. cpus race_start i = Idle" by (simp add: race_start_def)
  from run_all [OF this, of P w ks s] show ?thesis
    using race_reachable_inv [of P w c] unfolding race_reachable_def race_inv_def by force
qed

theorem interleaved_matches_were_noted_witness:
  "\<exists>c. race_reachable sample_wfp willing c \<and> match_reports (wfp_log (shared c)) = [80] \<and> 80 \<in> set (noted c)"
proof -
  let ?ks = "[from_7, from_7\<lparr>cl_fns := Inbound_TCP\<rparr>]"
  have "\<exists>s. classify_all sample_wfp willing ?ks (shared race_start) = Some s \<and> match_reports (wfp_log s) = [80]"
    by (simp add: classify_def Outbound_TCP_ClassifyFn_def watched_process_def GetProcessId_def read_dword_def
        classify_defs from_7_def race_start_def sample_wfp_def willing_def wfp_simps kd_print_def uint16_def match_reports_def)
  then obtain s where s: "classify_all sample_wfp willing ?ks (shared race_start) = Some s" "match_reports (wfp_log s) = [80]"
    by blast
  then obtain c where c: "race_reachable sample_wfp willing c" "shared c = s"
    using interleaved_matches_were_noted [of sample_wfp willing race_start ?ks s] by blast
  then have "80 \<in> unat ` (set (noted c) - {0})"
    using interleaved_matches_were_noted [of sample_wfp willing c "[]" s] s(2) by auto
  then obtain p where p: "p \<in> set (noted c)" "80 = unat p" by blast
  then have "unat p = unat (80 :: UINT16)" by simp
  with p(1) have "80 \<in> set (noted c)" by (metis unat_eq_imp)
  then show ?thesis using c s(2) by blast
qed

text \<open>
  The guarantee of whole classifications, that what is reported is right at the time, is lost: a port may
  be replaced between the comparison and the report of the match.
\<close>

theorem match_may_be_stale:
  "\<exists>c. race_reachable sample_wfp willing c \<and> matchedPort (shared c) = 443 \<and> \<not> snd (snd (reports (wfp_log (shared c))))"
proof -
  let ?P = sample_wfp and ?w = willing
  let ?from = "\<lambda>p. from_7\<lparr>cl_values := (\<lambda>_. p)\<rparr>"
  obtain s1 where s1: "classify_all ?P ?w [?from 80] (shared race_start) = Some s1" "matchedPort s1 = 80"
      "wfp_log s1 = [(PsGetCurrentProcessId, willing [] PsGetCurrentProcessId),
         (KdPrintEx ''outbound transport %hu'' [80], willing [] PsGetCurrentProcessId)]"
    by (simp add: classify_def Outbound_TCP_ClassifyFn_def watched_process_def GetProcessId_def read_dword_def
        inspect_only_def from_7_def race_start_def sample_wfp_def willing_def wfp_simps kd_print_def uint16_def)
  have idle: "\<forall>i. cpus race_start i = Idle" by (simp add: race_start_def)
  obtain ps where 1: "(race_step ?P ?w)\<^sup>*\<^sup>* race_start (race_start\<lparr>shared := s1, noted := ps\<rparr>)"
    using run_all [OF idle s1(1)] by (auto simp: race_start_def)
  let ?c1 = "race_start\<lparr>shared := s1, noted := ps\<rparr>"
  let ?c2 = "goes 1 (Report_Match 80) ?c1"
  have 2: "(race_step ?P ?w)\<^sup>*\<^sup>* ?c1 ?c2"
    using three_steps [of "race_step ?P ?w" ?c1 "goes 1 (Read_Port 80) ?c1" "goes 1 (Compare_Port 80) ?c1" ?c2]
      race_step.inbound [of ?c1 1 ?P ?w 80] race_step.read_port [of "goes 1 (Read_Port 80) ?c1" 1 80 ?P ?w]
      race_step.compare_port [of "goes 1 (Compare_Port 80) ?c1" 1 80 ?P ?w] s1(2)
    by (simp add: race_start_def goes_def)
  obtain out s3 where s3: "classify ?P ?w (?from 443) s1 = Some (out, s3)" "matchedPort s3 = 443"
      "wfp_log s3 = wfp_log s1 @ [(PsGetCurrentProcessId, willing [] PsGetCurrentProcessId),
         (KdPrintEx ''outbound transport %hu'' [443], willing [] PsGetCurrentProcessId)]"
    by (simp add: classify_def Outbound_TCP_ClassifyFn_def watched_process_def GetProcessId_def read_dword_def
        inspect_only_def from_7_def sample_wfp_def willing_def wfp_simps kd_print_def uint16_def)
  have "cpus ?c2 2 = Idle" "shared ?c2 = s1" by (simp_all add: race_start_def)
  then obtain qs where 3: "(race_step ?P ?w)\<^sup>*\<^sup>* ?c2 (?c2\<lparr>shared := s3, noted := qs\<rparr>)"
    using run_classify [of ?c2 2 ?P ?w "?from 443" out s3] s3(1) by auto
  let ?c3 = "?c2\<lparr>shared := s3, noted := qs\<rparr>"
  let ?c4 = "goes 1 (Report_Inbound 80) (printing ?P ?w ''matched on port %hu'' 80 ?c3)"
  have 4: "race_step ?P ?w ?c3 ?c4" by (rule race_step.report_match) (simp add: goes_def)
  have "race_reachable ?P ?w ?c4"
    unfolding race_reachable_def using 1 2 3 4 by (meson rtranclp.rtrancl_into_rtrancl rtranclp_trans)
  moreover have "matchedPort (shared ?c4) = 443" using s3(2) by simp
  moreover have "\<not> snd (snd (reports (wfp_log (shared ?c4))))"
    using s1(3) s3(3) by (simp add: kd_print_def wfp_do_eq sample_wfp_def reports_def willing_def)
  ultimately show ?thesis by blast
qed

end
