(* ===== verification/Controller_Calls.thy ===== *)
theory Controller_Calls imports Callout_Driver Wide_Strings begin

text \<open>
  What the parts of the controller program (\<^verbatim>\<open>src/WFPController\<close>) share: the calls they make into
  Win32, WinSock, the filtering platform and the console, the constants of the Windows headers,
  the state they run on and the ways in which a function may end.
\<close>

unbundle bit_operations_syntax

section \<open>Data handed to the filtering platform\<close>

datatype wfp_layer =
    OUTBOUND_TRANSPORT_V4 | OUTBOUND_IPPACKET_V4 | INBOUND_ICMP_ERROR_V4 | OUTBOUND_ICMP_ERROR_V4

text \<open>A blob: the size it claims and the bytes its data pointer leads to. Those of a variable are the lowest first.\<close>

record FWP_BYTE_BLOB =
  byte_size :: "32 word"
  byte_data :: "UCHAR list"

definition sizeof_DWORD :: "32 word" where "sizeof_DWORD = 4"

definition dword_bytes :: "DWORD \<Rightarrow> UCHAR list" where
  "dword_bytes d = [ucast d, ucast (drop_bit 8 d), ucast (drop_bit 16 d), ucast (drop_bit 24 d)]"

record FWPM_PROVIDER =
  provider_key :: GUID
  provider_name :: wstring
  provider_data :: FWP_BYTE_BLOB

record FWPM_PROVIDER_CONTEXT =
  context_key :: GUID
  context_name :: wstring
  context_provider :: GUID
  context_type :: ULONG
  context_dataBuffer :: FWP_BYTE_BLOB

record FWPM_SUBLAYER =
  sublayer_key :: GUID
  sublayer_name :: wstring
  sublayer_description :: wstring
  sublayer_flags :: ULONG
  sublayer_provider :: GUID
  sublayer_weight :: ULONG

record FWPM_CALLOUT =
  callout_key :: GUID
  callout_name :: wstring
  callout_flags :: ULONG
  callout_provider :: GUID
  callout_layer :: GUID

record FWPM_CONDITION =
  fieldKey :: GUID
  matchType :: ULONG
  conditionType :: ULONG
  conditionUint8 :: UCHAR

record FWPM_FILTER =
  filter_name :: wstring
  filter_flags :: ULONG
  filter_provider :: GUID
  filter_layer :: GUID
  filter_sublayer :: GUID
  filter_weight :: ULONG
  filter_conditions :: "FWPM_CONDITION list"
  filter_action :: ULONG
  filter_callout :: GUID
  filter_context :: GUID

text \<open>One entry of the list of addresses a name resolves to.\<close>

record ADDRINFO =
  ai_family :: "32 word"
  ai_socktype :: "32 word"
  ai_protocol :: "32 word"
  ai_addr :: addr
  ai_addrlen :: nat

section \<open>Calls and their answers\<close>

datatype ctl_call =
    FwpmEngineOpen0 ULONG ULONG
  | FwpmEngineClose0 handle
  | FwpmProviderAdd0 handle FWPM_PROVIDER
  | FwpmProviderContextAdd3 handle FWPM_PROVIDER_CONTEXT
  | FwpmSubLayerAdd0 handle FWPM_SUBLAYER
  | FwpmCalloutAdd0 handle FWPM_CALLOUT
  | FwpmCalloutDeleteByKey0 handle GUID
  | FwpmFilterAdd0 handle FWPM_FILTER
  | GetCurrentProcessId
  | LoadLibraryW wstring
  | FreeLibrary handle
  | FormatMessageA ULONG handle DWORD
  | FormatMessageW ULONG handle DWORD
  | LocalFree addr
  | LastError
  | WSAStartup USHORT
  | WSACleanup
  | WSAGetLastError
  | GetAddrInfoW wstring "wstring option"
  | FreeAddrInfoW addr
  | Socket "32 word" "32 word" "32 word"
  | Getsockopt handle DWORD DWORD
  | Setsockopt handle DWORD DWORD DWORD nat
  | Connect handle addr "32 word"
  | Closesocket handle
  | Send handle "UCHAR list" "32 word"
  | Recv handle "32 word"
  | Cout string
  | Cerr string
  | Wcerr string
  | Convert conv_call

record ctl_ret = os_ret +
  ret_text :: string
  ret_wtext :: wstring
  ret_addrs :: "ADDRINFO list"
  ret_bytes :: "UCHAR list"
  ret_conv :: conv_ret

type_synonym ctl_trace = "(ctl_call, ctl_ret) trace"
type_synonym ctl_world = "(ctl_call, ctl_ret) world"

section \<open>Constants\<close>

text \<open>Where an exception is thrown, as the compiler sees it.\<close>

record source_location =
  function_name :: string
  file_name :: string
  line :: nat
  column :: nat

record ctl_platform =
  location_of :: "string \<Rightarrow> source_location"
  funcsig :: "string \<Rightarrow> string"
  string_error_text :: "string_error \<Rightarrow> string"
  layer_key :: "wfp_layer \<Rightarrow> GUID"
  FWPM_SESSION_FLAG_DYNAMIC :: ULONG
  RPC_C_AUTHN_DEFAULT :: ULONG
  FWPM_GENERAL_CONTEXT :: ULONG
  FWP_EMPTY :: ULONG
  FWP_UINT8 :: ULONG
  FWP_MATCH_EQUAL :: ULONG
  FWPM_CONDITION_IP_PROTOCOL :: GUID
  FWP_ACTION_CALLOUT_INSPECTION :: ULONG
  FWPM_FILTER_FLAG_HAS_PROVIDER_CONTEXT :: ULONG
  FWPM_CALLOUT_FLAG_USES_PROVIDER_CONTEXT :: ULONG
  FORMAT_MESSAGE_ALLOCATE_BUFFER :: ULONG
  FORMAT_MESSAGE_FROM_SYSTEM :: ULONG
  FORMAT_MESSAGE_IGNORE_INSERTS :: ULONG
  FORMAT_MESSAGE_FROM_HMODULE :: ULONG
  INVALID_SOCKET :: handle
  SOCKET_ERROR :: "32 word"
  AF_INET :: "32 word"
  AF_INET6 :: "32 word"
  IPPROTO_IP :: DWORD
  IP_TTL :: DWORD
  IPPROTO_IPV6 :: DWORD
  IPV6_UNICAST_HOPS :: DWORD

section \<open>State and endings\<close>

text \<open>
  The exceptions, each with the text its \<^verbatim>\<open>what()\<close> returns. What is undefined in C++ is an ending of
  its own, which no handler catches.
\<close>

datatype exn =
    Invalid_argument string
  | WFP_error DWORD string
  | WinSock_error DWORD string
  | Win32_error DWORD string
  | String_error string_error string

datatype stop = Thrown exn | Undefined string

text \<open>The control blocks of shared session handles (the handle and its number of owners), and the trace.\<close>

record ctl =
  blocks :: "(handle \<times> nat) list"
  ctl_log :: ctl_trace

definition ctl_ask :: "ctl_world \<Rightarrow> ctl_call \<Rightarrow> ctl \<Rightarrow> ctl_ret \<times> ctl" where
  "ctl_ask w c s = (let (r, tr) = ask w c (ctl_log s) in (r, s\<lparr>ctl_log := tr\<rparr>))"

definition ctl_do :: "ctl_world \<Rightarrow> ctl_call \<Rightarrow> ctl \<Rightarrow> ctl" where
  "ctl_do w c s = snd (ctl_ask w c s)"

text \<open>One function after the other, unless the first one does not come back normally.\<close>

type_synonym 's action = "'s \<Rightarrow> stop option \<times> 's"

definition and_then :: "'s action \<Rightarrow> 's action \<Rightarrow> 's action" where
  "and_then a b s = (case a s of (None, s) \<Rightarrow> b s | (Some e, s) \<Rightarrow> (Some e, s))"

definition in_order :: "'s action list \<Rightarrow> 's action" where
  "in_order as = foldr and_then as (Pair None)"

lemma in_order_simps [simp]:
  "in_order [] = Pair None" "in_order (a # as) = and_then a (in_order as)"
  by (simp_all add: in_order_def)

named_theorems ctl_simps

lemma ctl_ask_eq [ctl_simps]:
  "ctl_ask w c s = (w (ctl_log s) c, s\<lparr>ctl_log := ctl_log s @ [(c, w (ctl_log s) c)]\<rparr>)"
  by (simp add: ctl_ask_def ask_def Let_def)

lemma ctl_do_eq [ctl_simps]: "ctl_do w c s = s\<lparr>ctl_log := ctl_log s @ [(c, w (ctl_log s) c)]\<rparr>"
  by (simp add: ctl_do_def ctl_ask_eq)

lemma fst_ctl_ask [simp]: "fst (ctl_ask w c s) = w (ctl_log s) c"
  by (simp add: ctl_ask_eq)

text \<open>
  A contract every part of a sequence keeps is kept by the whole of it. The locale is interpreted
  for the relations that say what a function does to the resources it is given.
\<close>

locale action_contract =
  fixes ok :: "'s \<Rightarrow> 's \<Rightarrow> bool"
  assumes ok_refl: "ok s s" and ok_trans: "ok s t \<Longrightarrow> ok t u \<Longrightarrow> ok s u"
begin

lemma and_then_ok:
  assumes "ok s (snd (a s))" "\<And>t. a s = (None, t) \<Longrightarrow> ok t (snd (b t))"
  shows "ok s (snd (and_then a b s))"
  using assms by (auto simp: and_then_def split: prod.split option.split intro: ok_trans)

lemma in_order_ok: "(\<And>a s. a \<in> set as \<Longrightarrow> ok s (snd (a s))) \<Longrightarrow> ok s (snd (in_order as s))"
  by (induction as arbitrary: s) (auto intro!: and_then_ok ok_refl)

end

text \<open>A function that changes nothing but the trace, to which it adds only calls of one kind.\<close>

definition only :: "(ctl_call \<Rightarrow> bool) \<Rightarrow> ctl \<Rightarrow> ctl \<Rightarrow> bool" where
  "only Q s s' \<longleftrightarrow> (\<exists>tr. s' = s\<lparr>ctl_log := ctl_log s @ tr\<rparr> \<and> list_all (Q \<circ> fst) tr)"

interpretation only: action_contract "only Q" for Q
proof
  fix s t u :: ctl
  show "only Q s s" by (auto simp: only_def intro!: exI [of _ "[]"])
  assume "only Q s t" "only Q t u"
  then obtain a b where "t = s\<lparr>ctl_log := ctl_log s @ a\<rparr>" "u = t\<lparr>ctl_log := ctl_log t @ b\<rparr>"
    "list_all (Q \<circ> fst) a" "list_all (Q \<circ> fst) b"
    by (auto simp: only_def)
  then show "only Q s u" by (auto simp: only_def intro!: exI [of _ "a @ b"])
qed

lemma only_do: "Q c \<Longrightarrow> only Q s (ctl_do w c s)"
  by (auto simp: only_def ctl_do_eq)

lemma only_ask: "Q c \<Longrightarrow> only Q s (snd (ctl_ask w c s))"
  by (auto simp: only_def ctl_ask_eq)

lemma only_mono: "only Q s s' \<Longrightarrow> (\<And>c. Q c \<Longrightarrow> Q' c) \<Longrightarrow> only Q' s s'"
  by (auto simp: only_def list_all_iff)

lemma only_blocks: "only Q s s' \<Longrightarrow> blocks s' = blocks s"
  by (auto simp: only_def)

text \<open>What calls of a kind do not touch, a monitor does not see change.\<close>

lemma foldl_unchanged:
  assumes "only Q s s'" "\<And>m c r. Q c \<Longrightarrow> step m (c, r) = m"
  shows "foldl step m (ctl_log s') = foldl step m (ctl_log s)"
proof -
  obtain tr where tr: "ctl_log s' = ctl_log s @ tr" "list_all (Q \<circ> fst) tr" using assms(1) by (auto simp: only_def)
  have "foldl step m tr = m" for m using tr(2) assms(2) by (induction tr arbitrary: m) auto
  then show ?thesis using tr(1) by simp
qed

end
