(* ===== verification/Error_Text.thy ===== *)
theory Error_Text imports Controller_Calls begin

text \<open>
  The error texts of the controller (\<^verbatim>\<open>src/WFPController/Error\<close>) and its three exception classes
  (\<^verbatim>\<open>Win32Error\<close>, \<^verbatim>\<open>WFPError\<close>, \<^verbatim>\<open>WinSockError\<close>). A text is put together from the message of the throwing
  place, the code in hexadecimal, the system's translation of the code and the source location.
  The few forms of \<^verbatim>\<open>std::format\<close> that the files use are written out.
\<close>

section \<open>Numbers in \<open>std::format\<close>\<close>

definition digit :: "nat \<Rightarrow> char" where
  "digit d = ''0123456789ABCDEF'' ! d"

fun digits :: "nat \<Rightarrow> nat \<Rightarrow> string" where
  "digits base n = (if base < 2 \<or> n < base then [digit (n mod base)] else digits base (n div base) @ [digit (n mod base)])"

declare digits.simps [simp del]

text \<open>\<^verbatim>\<open>{}\<close>, \<^verbatim>\<open>{:X}\<close> and \<^verbatim>\<open>{:#010X}\<close>.\<close>

definition dec :: "nat \<Rightarrow> string" where
  "dec n = digits 10 n"

definition hex :: "DWORD \<Rightarrow> string" where
  "hex n = digits 16 (unat n)"

definition hex10 :: "DWORD \<Rightarrow> string" where
  "hex10 n = (let ds = hex n in ''0X'' @ replicate (8 - length ds) (CHR ''0'') @ ds)"

definition wide :: "string \<Rightarrow> wstring" where
  "wide s = map (\<lambda>c. of_nat (of_char c)) s"

section \<open>Messages\<close>

definition FormatErrorMessage :: "string \<Rightarrow> source_location \<Rightarrow> string \<Rightarrow> string" where
  "FormatErrorMessage errorType location message =
     message @ '': '' @ errorType @ '' error at '' @ function_name location @ ''() in '' @
     file_name location @ '':'' @ dec (line location) @ '':'' @ dec (column location)"

definition FormatErrorMessage_code ::
  "string \<Rightarrow> source_location \<Rightarrow> string \<Rightarrow> DWORD \<Rightarrow> string \<Rightarrow> string" where
  "FormatErrorMessage_code errorType location message errorCode translatedError =
     message @ '': '' @ errorType @ '' error '' @ hex10 errorCode @ '' ('' @ translatedError @ '') at '' @
     function_name location @ ''() in '' @ file_name location @ '':'' @ dec (line location) @ '':'' @
     dec (column location)"

text \<open>The text the system allocates ends at its first null character.\<close>

definition FormatCode_narrow ::
  "ctl_platform \<Rightarrow> ctl_world \<Rightarrow> DWORD \<Rightarrow> DWORD \<Rightarrow> handle \<Rightarrow> ctl \<Rightarrow> string \<times> ctl" where
  "FormatCode_narrow P w errorCode flags moduleToSearch s =
     (let (r, s) = ctl_ask w (FormatMessageA flags moduleToSearch errorCode) s; messageBuffer = ret_out r in
      if messageBuffer = NULL then
        let (e, s) = ctl_ask w LastError s
        in (funcsig P ''FormatCode<std::string>'' @ '': FormatMessageA() failed on code '' @ dec (unat errorCode) @
            '' with error '' @ dec (unat (ret_status e)), s)
      else
        let msg = takeWhile (\<lambda>c. c \<noteq> CHR 0x00) (ret_text r);
            (f, s) = ctl_ask w (LocalFree messageBuffer) s;
            s = (if ret_out f \<noteq> NULL then
                   let (e, s) = ctl_ask w LastError s
                   in ctl_do w (Wcerr (''FormatCode(): LocalFree() failed: '' @ dec (unat (ret_status e)) @ [CHR 0x0A])) s
                 else s)
        in (filter (\<lambda>x. \<not> (x = CHR 0x0A \<or> x = CHR 0x0D)) msg, s))"

definition FormatCode_wide ::
  "ctl_platform \<Rightarrow> ctl_world \<Rightarrow> DWORD \<Rightarrow> DWORD \<Rightarrow> handle \<Rightarrow> ctl \<Rightarrow> wstring \<times> ctl" where
  "FormatCode_wide P w errorCode flags moduleToSearch s =
     (let (r, s) = ctl_ask w (FormatMessageW flags moduleToSearch errorCode) s; messageBuffer = ret_out r in
      if messageBuffer = NULL then
        let (e, s) = ctl_ask w LastError s
        in (wide (funcsig P ''FormatCode<std::wstring>'' @ '': FormatMessageA() failed on code '' @ dec (unat errorCode) @
              '' with error '' @ dec (unat (ret_status e))), s)
      else
        let msg = takeWhile (\<lambda>c. c \<noteq> 0) (ret_wtext r);
            (f, s) = ctl_ask w (LocalFree messageBuffer) s;
            s = (if ret_out f \<noteq> NULL then
                   let (e, s) = ctl_ask w LastError s
                   in ctl_do w (Wcerr (funcsig P ''FormatCode<std::wstring>'' @ '': LocalFree() failed: '' @
                        dec (unat (ret_status e)) @ [CHR 0x0A])) s
                 else s)
        in (filter (\<lambda>x. \<not> (x = 0x0A \<or> x = 0x0D)) msg, s))"

text \<open>\<^verbatim>\<open>TranslateErrorCode\<close> is a template; \<open>fmt\<close> is the \<^verbatim>\<open>FormatCode\<close> of the string type.\<close>

definition TranslateErrorCode ::
  "ctl_platform \<Rightarrow> ctl_world \<Rightarrow> (DWORD \<Rightarrow> DWORD \<Rightarrow> handle \<Rightarrow> ctl \<Rightarrow> 't \<times> ctl) \<Rightarrow> DWORD \<Rightarrow> wstring \<Rightarrow> ctl \<Rightarrow> 't \<times> ctl" where
  "TranslateErrorCode P w fmt errorCode moduleName s =
     (let (moduleHandle, s) =
            (if moduleName = [] then (NULL, s)
             else let (r, s) = ctl_ask w (LoadLibraryW moduleName) s in (ret_out r, s));
          flags = FORMAT_MESSAGE_ALLOCATE_BUFFER P OR FORMAT_MESSAGE_FROM_SYSTEM P OR
            FORMAT_MESSAGE_IGNORE_INSERTS P OR
            (if moduleHandle \<noteq> NULL then FORMAT_MESSAGE_FROM_HMODULE P else 0);
          (errorString, s) = fmt errorCode flags moduleHandle s;
          s = (if moduleHandle \<noteq> NULL then ctl_do w (FreeLibrary moduleHandle) s else s)
      in (errorString, s))"

section \<open>Exceptions\<close>

text \<open>The constructors without and with a code; the location is that of the throwing place.\<close>

definition WFPError_plain :: "ctl_platform \<Rightarrow> string \<Rightarrow> string \<Rightarrow> exn" where
  "WFPError_plain P site message = WFP_error 0 (FormatErrorMessage ''WFP'' (location_of P site) message)"

definition WFPError :: "ctl_platform \<Rightarrow> ctl_world \<Rightarrow> string \<Rightarrow> string \<Rightarrow> DWORD \<Rightarrow> ctl \<Rightarrow> exn \<times> ctl" where
  "WFPError P w site message errorCode s =
     (let (t, s) = TranslateErrorCode P w (FormatCode_narrow P w) errorCode (wide ''Fwpuclnt.dll'') s
      in (WFP_error errorCode (FormatErrorMessage_code ''WFP'' (location_of P site) message errorCode t), s))"

definition WinSockError_plain :: "ctl_platform \<Rightarrow> string \<Rightarrow> string \<Rightarrow> exn" where
  "WinSockError_plain P site message =
     WinSock_error 0 (FormatErrorMessage ''WinSock'' (location_of P site) message)"

definition WinSockError :: "ctl_platform \<Rightarrow> ctl_world \<Rightarrow> string \<Rightarrow> string \<Rightarrow> DWORD \<Rightarrow> ctl \<Rightarrow> exn \<times> ctl" where
  "WinSockError P w site message errorCode s =
     (let (t, s) = TranslateErrorCode P w (FormatCode_narrow P w) errorCode (wide ''Ws2_32.dll'') s
      in (WinSock_error errorCode (FormatErrorMessage_code ''WinSock'' (location_of P site) message errorCode t), s))"

definition Win32Error_plain :: "ctl_platform \<Rightarrow> string \<Rightarrow> string \<Rightarrow> exn" where
  "Win32Error_plain P site msg = Win32_error 0 (FormatErrorMessage ''Win32'' (location_of P site) msg)"

text \<open>The constructor with a code takes the module's name too, or none, which is the empty name.\<close>

definition Win32Error_code ::
  "ctl_platform \<Rightarrow> ctl_world \<Rightarrow> string \<Rightarrow> string \<Rightarrow> DWORD \<Rightarrow> wstring \<Rightarrow> ctl \<Rightarrow> exn \<times> ctl" where
  "Win32Error_code P w site msg errorCode moduleName s =
     (let (t, s) = TranslateErrorCode P w (FormatCode_narrow P w) errorCode moduleName s
      in (Win32_error errorCode (FormatErrorMessage_code ''Win32'' (location_of P site) msg errorCode t), s))"

text \<open>\<^verbatim>\<open>GetErrorCode\<close> and \<^verbatim>\<open>what\<close>; the standard's exceptions have no code.\<close>

fun GetErrorCode :: "exn \<Rightarrow> DWORD option" where
  "GetErrorCode (WFP_error c t) = Some c"
| "GetErrorCode (WinSock_error c t) = Some c"
| "GetErrorCode (Win32_error c t) = Some c"
| "GetErrorCode _ = None"

fun what :: "exn \<Rightarrow> string" where
  "what (WFP_error c t) = t"
| "what (WinSock_error c t) = t"
| "what (Win32_error c t) = t"
| "what (Invalid_argument t) = t"
| "what (String_error e t) = t"

section \<open>Reading numbers back\<close>

definition digit_value :: "char \<Rightarrow> nat" where
  "digit_value c = (let n = of_char c in if n < 58 then n - 48 else n - 55)"

definition parse_digits :: "nat \<Rightarrow> string \<Rightarrow> nat" where
  "parse_digits base ds = foldl (\<lambda>n c. n * base + digit_value c) 0 ds"

lemma parse_digits_snoc [simp]: "parse_digits base (ds @ [c]) = parse_digits base ds * base + digit_value c"
  by (simp add: parse_digits_def)

lemma parse_digits_Nil [simp]: "parse_digits base [] = 0"
  by (simp add: parse_digits_def)

lemma digit_value_digit [simp]: "d < 16 \<Longrightarrow> digit_value (digit d) = d"
proof -
  have "\<forall>d \<in> set [0..<16]. digit_value (digit d) = d"
    by (simp add: digit_def digit_value_def upt_rec)
  then show "d < 16 \<Longrightarrow> digit_value (digit d) = d" by simp
qed

lemma parse_digits_digits:
  assumes "2 \<le> base" "base \<le> 16"
  shows "parse_digits base (digits base n) = n"
proof (induction n rule: less_induct)
  case (less n)
  show ?case
  proof (cases "n < base")
    case True
    then show ?thesis using assms
      by (simp add: digits.simps [of base n] parse_digits_def)
  next
    case False
    then have "n div base < n" using assms by (intro div_less_dividend) auto
    moreover have "n mod base < 16" using assms mod_less_divisor [of base n] by linarith
    ultimately show ?thesis using False assms less.IH
      by (simp add: digits.simps [of base n])
  qed
qed

lemma length_digits:
  assumes "2 \<le> base" "0 < k" "n < base ^ k"
  shows "length (digits base n) \<le> k"
  using assms(2,3)
proof (induction k arbitrary: n)
  case (Suc k)
  show ?case
  proof (cases "n < base")
    case True
    then show ?thesis by (simp add: digits.simps [of base n])
  next
    case False
    then have "0 < k" using Suc.prems by (cases k) auto
    moreover have "n div base < base ^ k"
      using Suc.prems assms(1) by (simp add: less_mult_imp_div_less mult.commute)
    ultimately have "length (digits base (n div base)) \<le> k" using Suc.IH by blast
    then show ?thesis using False assms(1) by (simp add: digits.simps [of base n])
  qed
qed simp

lemma parse_digits_zeros: "parse_digits base (replicate k (CHR ''0'') @ ds) = parse_digits base ds"
proof -
  have "foldl (\<lambda>n c. n * base + digit_value c) 0 (replicate k (CHR ''0'')) = 0"
    by (induction k) (simp_all add: digit_value_def)
  then show ?thesis by (simp add: parse_digits_def)
qed

lemma length_hex: "length (hex n) \<le> 8"
  unfolding hex_def by (rule length_digits) (use unsigned_less [of n] in simp_all)

lemma length_hex10: "length (hex10 n) = 10"
  using length_hex [of n] by (simp add: hex10_def Let_def)

lemma hex10_inverse: "parse_digits 16 (drop 2 (hex10 n)) = unat n"
  by (simp add: hex10_def Let_def parse_digits_zeros) (simp add: hex_def parse_digits_digits)

section \<open>What a translation takes and gives back\<close>

fun loads :: "handle \<Rightarrow> ctl_call \<times> ctl_ret \<Rightarrow> bool" where
  "loads h (LoadLibraryW n, r) = (ret_out r = h)"
| "loads h _ = False"

fun unloads :: "handle \<Rightarrow> ctl_call \<times> ctl_ret \<Rightarrow> bool" where
  "unloads h (FreeLibrary h', r) = (h' = h)"
| "unloads h _ = False"

fun allocates :: "addr \<Rightarrow> ctl_call \<times> ctl_ret \<Rightarrow> bool" where
  "allocates b (FormatMessageA f h c, r) = (ret_out r = b)"
| "allocates b (FormatMessageW f h c, r) = (ret_out r = b)"
| "allocates b _ = False"

fun releases :: "addr \<Rightarrow> ctl_call \<times> ctl_ret \<Rightarrow> bool" where
  "releases b (LocalFree b', r) = (b' = b)"
| "releases b _ = False"

text \<open>The calls a translation may make, none of which concerns anything else.\<close>

fun translates :: "ctl_call \<Rightarrow> bool" where
  "translates (LoadLibraryW n) = True"
| "translates (FreeLibrary h) = True"
| "translates (FormatMessageA f h c) = True"
| "translates (FormatMessageW f h c) = True"
| "translates (LocalFree b) = True"
| "translates LastError = True"
| "translates (Wcerr t) = True"
| "translates _ = False"

definition balanced :: "ctl_trace \<Rightarrow> bool" where
  "balanced tr \<longleftrightarrow> (\<forall>h. h \<noteq> NULL \<longrightarrow> occurrences (loads h) tr = occurrences (unloads h) tr \<and>
     occurrences (allocates h) tr = occurrences (releases h) tr)"

lemma balanced_Nil [simp]: "balanced []"
  by (simp add: balanced_def)

lemma balanced_append: "balanced tr \<Longrightarrow> balanced tr' \<Longrightarrow> balanced (tr @ tr')"
  by (simp add: balanced_def)

text \<open>Everything else stays as it was.\<close>

definition translated :: "ctl \<Rightarrow> ctl \<Rightarrow> bool" where
  "translated s s' \<longleftrightarrow>
     (\<exists>tr. s' = s\<lparr>ctl_log := ctl_log s @ tr\<rparr> \<and> balanced tr \<and> list_all (translates \<circ> fst) tr)"

interpretation translated: action_contract translated
proof
  fix s t u :: ctl
  show "translated s s" by (auto simp: translated_def intro!: exI [of _ "[]"])
  assume "translated s t" "translated t u"
  then obtain a b where "t = s\<lparr>ctl_log := ctl_log s @ a\<rparr>" "u = t\<lparr>ctl_log := ctl_log t @ b\<rparr>"
    "balanced a" "balanced b" "list_all (translates \<circ> fst) a" "list_all (translates \<circ> fst) b"
    by (auto simp: translated_def)
  then show "translated s u"
    by (auto simp: translated_def balanced_append intro!: exI [of _ "a @ b"])
qed

lemma FormatCode_narrow_translated: "translated s (snd (FormatCode_narrow P w c f h s))"
  by (auto simp: translated_def FormatCode_narrow_def ctl_simps Let_def balanced_def)

lemma FormatCode_wide_translated: "translated s (snd (FormatCode_wide P w c f h s))"
  by (auto simp: translated_def FormatCode_wide_def ctl_simps Let_def balanced_def)

lemma TranslateErrorCode_translated:
  assumes fmt: "\<And>c f h s. translated s (snd (fmt c f h s))"
  shows "translated s (snd (TranslateErrorCode P w fmt code name s))"
proof (cases "name = []")
  case True
  then show ?thesis using fmt by (simp add: TranslateErrorCode_def split_def)
next
  case False
  let ?r = "w (ctl_log s) (LoadLibraryW name)" and ?s = "s\<lparr>ctl_log := ctl_log s @ [(LoadLibraryW name, w (ctl_log s) (LoadLibraryW name))]\<rparr>"
  obtain t u where f: "fmt code (FORMAT_MESSAGE_ALLOCATE_BUFFER P OR FORMAT_MESSAGE_FROM_SYSTEM P OR
      FORMAT_MESSAGE_IGNORE_INSERTS P OR (if ret_out ?r \<noteq> NULL then FORMAT_MESSAGE_FROM_HMODULE P else 0))
      (ret_out ?r) ?s = (t, u)" by fastforce
  have "translated ?s u" using fmt [of ?s] f by (metis snd_conv)
  then obtain tr where u: "u = ?s\<lparr>ctl_log := ctl_log ?s @ tr\<rparr>" and tr: "balanced tr" "list_all (translates \<circ> fst) tr"
    by (auto simp: translated_def)
  have "snd (TranslateErrorCode P w fmt code name s) =
      (if ret_out ?r = NULL then u else ctl_do w (FreeLibrary (ret_out ?r)) u)"
    using False f by (auto simp: TranslateErrorCode_def split_def Let_def ctl_ask_eq split: if_splits)
  moreover have "translated s u" if "ret_out ?r = NULL"
    using that tr u by (auto simp: translated_def balanced_def)
  moreover have "translated s (ctl_do w (FreeLibrary (ret_out ?r)) u)" if "ret_out ?r \<noteq> NULL"
    using that tr u by (auto simp: translated_def balanced_def ctl_do_eq)
  ultimately show ?thesis by simp
qed

lemma error_constructors_translated:
  "translated s (snd (WFPError P w site m c s))" "translated s (snd (WinSockError P w site m c s))"
  "translated s (snd (Win32Error_code P w site m c name s))"
  using TranslateErrorCode_translated [of "FormatCode_narrow P w", OF FormatCode_narrow_translated]
  by (simp_all add: WFPError_def WinSockError_def Win32Error_code_def split_def Let_def)

lemma translated_only: "translated s s' \<Longrightarrow> only translates s s'"
  by (auto simp: translated_def only_def)

lemmas error_constructors_only = error_constructors_translated [THEN translated_only]

section \<open>Properties\<close>

text \<open>
  C23: Translating a code into a text, narrow or wide, frees every library it loads and every
  buffer the system allocates for it exactly once, whatever the system answers, and calls nothing
  else but the query for the last error and, for a buffer that cannot be freed, the error output.
\<close>

theorem translation_frees_what_it_takes:
  "(\<exists>tr. snd (TranslateErrorCode P w (FormatCode_narrow P w) code name s) = s\<lparr>ctl_log := ctl_log s @ tr\<rparr> \<and>
     balanced tr \<and> list_all (translates \<circ> fst) tr) \<and>
   (\<exists>tr. snd (TranslateErrorCode P w (FormatCode_wide P w) code name s) = s\<lparr>ctl_log := ctl_log s @ tr\<rparr> \<and>
     balanced tr \<and> list_all (translates \<circ> fst) tr)"
  using TranslateErrorCode_translated [of "FormatCode_narrow P w" s P w, OF FormatCode_narrow_translated]
    TranslateErrorCode_translated [of "FormatCode_wide P w" s P w, OF FormatCode_wide_translated]
  by (simp_all add: translated_def)

text \<open>
  C36: The three exceptions made with a code keep the code, and their text shows it: behind the
  message and the kind of error stand ten characters, \<^verbatim>\<open>0X\<close> and eight hexadecimal digits that
  read back as the code. So two codes never give the same digits.
\<close>

theorem error_text_shows_the_code:
  assumes "e \<in> {fst (WFPError P w site m c s), fst (WinSockError P w site m c s), fst (Win32Error_code P w site m c name s)}"
  shows "GetErrorCode e = Some c \<and>
    (\<exists>kind \<in> {''WFP'', ''WinSock'', ''Win32''}. \<exists>ds rest. what e = m @ '': '' @ kind @ '' error 0X'' @ ds @ '' ('' @ rest \<and>
       length ds = 8 \<and> parse_digits 16 ds = unat c)"
proof -
  obtain ds where ds: "hex10 c = ''0X'' @ ds" by (simp add: hex10_def Let_def)
  have "length ds = 8" "parse_digits 16 ds = unat c"
    using length_hex10 [of c] hex10_inverse [of c] ds by simp_all
  moreover have "FormatErrorMessage_code kind loc m c t = m @ '': '' @ kind @ '' error 0X'' @ ds @ '' ('' @
      (t @ '') at '' @ function_name loc @ ''() in '' @ file_name loc @ '':'' @ dec (line loc) @ '':'' @ dec (column loc))"
    for kind loc t
    by (simp add: FormatErrorMessage_code_def ds)
  ultimately show ?thesis
    using assms by (auto simp: WFPError_def WinSockError_def Win32Error_code_def split_def Let_def)
qed

text \<open>A system whose text for every code is "no way" with a line end, and a place in a file.\<close>

definition sample_ctl :: ctl_platform where
  "sample_ctl = \<lparr>location_of = (\<lambda>site. \<lparr>function_name = site, file_name = ''x.cpp'', line = 10, column = 2\<rparr>),
     funcsig = id, string_error_text = (\<lambda>_. ''string''),
     layer_key = (\<lambda>l. GUID (case l of OUTBOUND_TRANSPORT_V4 \<Rightarrow> 1 | OUTBOUND_IPPACKET_V4 \<Rightarrow> 2
       | INBOUND_ICMP_ERROR_V4 \<Rightarrow> 3 | OUTBOUND_ICMP_ERROR_V4 \<Rightarrow> 4) 0 0 []),
     FWPM_SESSION_FLAG_DYNAMIC = 1, RPC_C_AUTHN_DEFAULT = 0xFFFFFFFF, FWPM_GENERAL_CONTEXT = 8, FWP_EMPTY = 0,
     FWP_UINT8 = 1, FWP_MATCH_EQUAL = 0, FWPM_CONDITION_IP_PROTOCOL = GUID 9 0 0 [],
     FWP_ACTION_CALLOUT_INSPECTION = 0x6004, FWPM_FILTER_FLAG_HAS_PROVIDER_CONTEXT = 4,
     FWPM_CALLOUT_FLAG_USES_PROVIDER_CONTEXT = 0x20000, FORMAT_MESSAGE_ALLOCATE_BUFFER = 0x100,
     FORMAT_MESSAGE_FROM_SYSTEM = 0x1000, FORMAT_MESSAGE_IGNORE_INSERTS = 0x200,
     FORMAT_MESSAGE_FROM_HMODULE = 0x800, INVALID_SOCKET = 2 ^ 64 - 1, SOCKET_ERROR = -1, AF_INET = 2,
     AF_INET6 = 23, IPPROTO_IP = 0, IP_TTL = 4, IPPROTO_IPV6 = 41, IPV6_UNICAST_HOPS = 4\<rparr>"

definition no_conv :: conv_ret where
  "no_conv = \<lparr>conv_int = 0, conv_bytes = [], conv_units = [], conv_code = 0\<rparr>"

text \<open>An answer that only gives a status and an out parameter.\<close>

definition answer :: "32 word \<Rightarrow> nat \<Rightarrow> ctl_ret" where
  "answer st out = \<lparr>ret_status = st, ret_out = out, ret_text = ''no way'' @ [CHR 0x0A], ret_wtext = [],
     ret_addrs = [], ret_bytes = [], ret_conv = no_conv\<rparr>"

definition fresh_ctl :: ctl where
  "fresh_ctl = \<lparr>blocks = [], ctl_log = []\<rparr>"

theorem error_text_shows_the_code_witness:
  "GetErrorCode (fst (WFPError sample_ctl (\<lambda>tr c. answer 0 (case c of LocalFree b \<Rightarrow> NULL | _ \<Rightarrow> 8)) ''Close'' ''bad'' 0x80320001 fresh_ctl)) =
     Some 0x80320001 \<and>
   what (fst (WFPError sample_ctl (\<lambda>tr c. answer 0 (case c of LocalFree b \<Rightarrow> NULL | _ \<Rightarrow> 8)) ''Close'' ''bad'' 0x80320001 fresh_ctl)) =
     ''bad: WFP error 0X80320001 (no way) at Close() in x.cpp:10:2''"
proof
  show "GetErrorCode (fst (WFPError sample_ctl (\<lambda>tr c. answer 0 (case c of LocalFree b \<Rightarrow> NULL | _ \<Rightarrow> 8)) ''Close'' ''bad'' 0x80320001 fresh_ctl)) =
     Some 0x80320001"
    using error_text_shows_the_code [OF insertI1] by blast
  show "what (fst (WFPError sample_ctl (\<lambda>tr c. answer 0 (case c of LocalFree b \<Rightarrow> NULL | _ \<Rightarrow> 8)) ''Close'' ''bad'' 0x80320001 fresh_ctl)) =
     ''bad: WFP error 0X80320001 (no way) at Close() in x.cpp:10:2''"
    by (simp add: WFPError_def TranslateErrorCode_def FormatCode_narrow_def ctl_simps fresh_ctl_def answer_def
        sample_ctl_def FormatErrorMessage_code_def hex10_def hex_def dec_def digits.simps digit_def wide_def)
qed

end
