(* ===== verification/Sockets.thy ===== *)
theory Sockets imports Error_Text begin

text \<open>
  The socket class of the controller and the object that starts WinSock
  (\<^verbatim>\<open>src/WFPController/WinSock\<close>). A method takes the object and returns it, together with how it
  ended. The list of addresses is freed by the destructor of its owner on every way out.
\<close>

section \<open>The object\<close>

record SocketObject =
  m_host :: wstring
  m_portNumber :: ULONG
  m_socket :: handle
  m_addressFamily :: "32 word"
  m_preconnectTTL :: DWORD

definition Socket_default :: "ctl_platform \<Rightarrow> SocketObject" where
  "Socket_default P = \<lparr>m_host = [], m_portNumber = 0, m_socket = INVALID_SOCKET P, m_addressFamily = 0,
     m_preconnectTTL = 0\<rparr>"

definition Socket_to :: "ctl_platform \<Rightarrow> wstring \<Rightarrow> ULONG \<Rightarrow> SocketObject" where
  "Socket_to P host portNumber = (Socket_default P)\<lparr>m_host := host, m_portNumber := portNumber\<rparr>"

text \<open>The test every method starts with.\<close>

definition valid_socket :: "ctl_platform \<Rightarrow> SocketObject \<Rightarrow> bool" where
  "valid_socket P this \<longleftrightarrow> \<not> (m_socket this = NULL \<or> m_socket this = INVALID_SOCKET P)"

definition Socket_Close :: "ctl_platform \<Rightarrow> ctl_world \<Rightarrow> SocketObject \<Rightarrow> ctl \<Rightarrow> SocketObject \<times> ctl" where
  "Socket_Close P w this s =
     (if m_socket this = NULL then (this, s)
      else if m_socket this = INVALID_SOCKET P then (this, s)
      else (this\<lparr>m_socket := INVALID_SOCKET P\<rparr>, ctl_do w (Closesocket (m_socket this)) s))"

text \<open>
  Moving out of a string leaves some string behind (\<open>left\<close>). The move constructor moves into an
  object of which only the string has been initialised; the other members are \<open>junk\<close>.
\<close>

definition Socket_Move ::
  "ctl_platform \<Rightarrow> ctl_world \<Rightarrow> wstring \<Rightarrow> SocketObject \<Rightarrow> SocketObject \<Rightarrow> ctl \<Rightarrow> SocketObject \<times> SocketObject \<times> ctl" where
  "Socket_Move P w left this other s =
     (let (this, s) = Socket_Close P w this s;
          this = this\<lparr>m_host := m_host other, m_portNumber := m_portNumber other, m_socket := m_socket other,
            m_addressFamily := m_addressFamily other, m_preconnectTTL := m_preconnectTTL other\<rparr>
      in (this, other\<lparr>m_host := left, m_socket := INVALID_SOCKET P\<rparr>, s))"

definition Socket_move_constructor ::
  "ctl_platform \<Rightarrow> ctl_world \<Rightarrow> wstring \<Rightarrow> SocketObject \<Rightarrow> SocketObject \<Rightarrow> ctl \<Rightarrow> SocketObject \<times> SocketObject \<times> ctl" where
  "Socket_move_constructor P w left junk other s = Socket_Move P w left (junk\<lparr>m_host := []\<rparr>) other s"

definition SetPreconnectTTL :: "DWORD \<Rightarrow> SocketObject \<Rightarrow> SocketObject" where
  "SetPreconnectTTL ttl this = this\<lparr>m_preconnectTTL := ttl\<rparr>"

section \<open>Options and connecting\<close>

definition throw_last :: "ctl_platform \<Rightarrow> ctl_world \<Rightarrow> string \<Rightarrow> string \<Rightarrow> ctl \<Rightarrow> stop \<times> ctl" where
  "throw_last P w site message s =
     (let (e, s) = ctl_ask w WSAGetLastError s; (x, s) = WinSockError P w site message (ret_status e) s
      in (Thrown x, s))"

definition SetSocketTTL ::
  "ctl_platform \<Rightarrow> ctl_world \<Rightarrow> DWORD \<Rightarrow> SocketObject \<Rightarrow> ctl \<Rightarrow> stop option \<times> ctl" where
  "SetSocketTTL P w ttl this s =
     (if \<not> valid_socket P this
      then (Some (Thrown (WinSockError_plain P ''SetSocketTTL'' ''Not in a valid state to set TTL support'')), s)
      else
        case (if m_addressFamily this = AF_INET P then Some (IPPROTO_IP P, IP_TTL P)
              else if m_addressFamily this = AF_INET6 P then Some (IPPROTO_IPV6 P, IPV6_UNICAST_HOPS P)
              else None) of
          None \<Rightarrow> (Some (Thrown (WinSockError_plain P ''SetSocketTTL'' ''Unknown address family'')), s)
        | Some (layer, argument) \<Rightarrow>
            let (r, s) = ctl_ask w (Getsockopt (m_socket this) layer argument) s in
            if ret_status r = SOCKET_ERROR P 
            then let (e, s) = throw_last P w ''SetSocketTTL'' ''TTL option is not support'' s in (Some e, s)
            else
              let optLen = ret_out r;
                  (r, s) = ctl_ask w (Setsockopt (m_socket this) layer argument ttl optLen) s in
              if ret_status r = SOCKET_ERROR P 
              then let (e, s) = throw_last P w ''SetSocketTTL'' ''setsockopt() failed'' s in (Some e, s)
              else (None, s))"

text \<open>One turn of the loop over the addresses, and the loop: it ends at the first one that accepts.\<close>

definition connect_attempt ::
  "ctl_platform \<Rightarrow> ctl_world \<Rightarrow> ADDRINFO \<Rightarrow> SocketObject \<Rightarrow> ctl \<Rightarrow> stop option \<times> SocketObject \<times> ctl" where
  "connect_attempt P w currentAddr this s =
     (let (r, s) = ctl_ask w (Socket (ai_family currentAddr) (ai_socktype currentAddr) (ai_protocol currentAddr)) s;
          this = this\<lparr>m_socket := ret_out r\<rparr> in
      if m_socket this = INVALID_SOCKET P
      then let (e, s) = throw_last P w ''Connect'' ''socket() failed'' s in (Some e, this, s)
      else
        let this = this\<lparr>m_addressFamily := ai_family currentAddr\<rparr>;
            (e, s) = (if m_preconnectTTL this \<noteq> 0 then SetSocketTTL P w (m_preconnectTTL this) this s else (None, s)) in
        if e \<noteq> None then (e, this, s)
        else
          let (r, s) = ctl_ask w (Connect (m_socket this) (ai_addr currentAddr) (of_nat (ai_addrlen currentAddr))) s in
          if ret_status r \<noteq> SOCKET_ERROR P then (None, this\<lparr>m_addressFamily := ai_family currentAddr\<rparr>, s)
          else
            let (r, s) = ctl_ask w (Closesocket (m_socket this)) s in
            if ret_status r = SOCKET_ERROR P
            then let (e, s) = throw_last P w ''Connect'' ''closesocket() failed'' s in (Some e, this, s)
            else (None, this\<lparr>m_socket := INVALID_SOCKET P\<rparr>, s))"

fun connect_loop ::
  "ctl_platform \<Rightarrow> ctl_world \<Rightarrow> ADDRINFO list \<Rightarrow> SocketObject \<Rightarrow> ctl \<Rightarrow> stop option \<times> SocketObject \<times> ctl" where
  "connect_loop P w [] this s = (None, this, s)"
| "connect_loop P w (currentAddr # ai_next) this s =
     (if m_socket this \<noteq> INVALID_SOCKET P then (None, this, s)
      else case connect_attempt P w currentAddr this s of
             (Some e, this, s) \<Rightarrow> (Some e, this, s)
           | (None, this, s) \<Rightarrow> connect_loop P w ai_next this s)"

text \<open>
  \<^verbatim>\<open>Strings::ConvertString\<close> makes its calls through the world of this program: its trace stands for
  the calls made since it started.
\<close>

definition converted :: "ctl_world \<Rightarrow> ctl_trace \<Rightarrow> conv_trace \<Rightarrow> ctl_trace" where
  "converted w start tr = foldl (\<lambda>l (c, _). l @ [(Convert c, w l (Convert c))]) start tr"

definition conversions :: "ctl_world \<Rightarrow> ctl_trace \<Rightarrow> conv_world" where
  "conversions w start tr c = ret_conv (w (converted w start tr) (Convert c))"

definition ConvertString_host ::
  "ctl_platform \<Rightarrow> ctl_world \<Rightarrow> wstring \<Rightarrow> ctl \<Rightarrow> (stop + string) \<times> ctl" where
  "ConvertString_host P w str s =
     (let (r, tr) = ConvertString_wide (conversions w (ctl_log s)) str [];
          s = s\<lparr>ctl_log := converted w (ctl_log s) tr\<rparr> in
      case r of
        Inr bytes \<Rightarrow> (Inr (map (\<lambda>b. char_of (unat b)) bytes), s)
      | Inl (Win32Error msg code) \<Rightarrow>
          let (x, s) = Win32Error_code P w ''ConvertString'' msg code [] s in (Inl (Thrown x), s)
      | Inl e \<Rightarrow> (Inl (Thrown (String_error e (string_error_text P e))), s))"

definition Socket_Connect ::
  "ctl_platform \<Rightarrow> ctl_world \<Rightarrow> SocketObject \<Rightarrow> ctl \<Rightarrow> stop option \<times> SocketObject \<times> ctl" where
  "Socket_Connect P w this s =
     (let (r, s) = ctl_ask w (GetAddrInfoW (takeWhile (\<lambda>c. c \<noteq> 0) (m_host this))
            (if m_portNumber this \<noteq> 0 then Some (wide (dec (unat (m_portNumber this)))) else None)) s in
      if ret_status r \<noteq> 0
      then let (x, s) = WinSockError P w ''Connect'' ''GetAddrInfoW() failed'' (ret_status r) s
           in (Some (Thrown x), this, s)
      else
        let addrResult = ret_out r;
            this = this\<lparr>m_socket := INVALID_SOCKET P\<rparr>;
            (e, this, s) = connect_loop P w (if addrResult = NULL then [] else ret_addrs r) this s;
            (e, s) =
              (if e = None \<and> m_socket this = INVALID_SOCKET P
               then case ConvertString_host P w (m_host this) s of
                      (Inl stop, s) \<Rightarrow> (Some stop, s)
                    | (Inr host, s) \<Rightarrow>
                        (Some (Thrown (WinSockError_plain P ''Connect'' (''Failed connecting to server '' @ host @ '':'' @
                           dec (unat (m_portNumber this))))), s)
               else (e, s));
            s = (if addrResult \<noteq> NULL then ctl_do w (FreeAddrInfoW addrResult) s else s)
        in (e, this, s))"

section \<open>Data\<close>

definition Socket_Send ::
  "ctl_platform \<Rightarrow> ctl_world \<Rightarrow> UCHAR list \<Rightarrow> SocketObject \<Rightarrow> ctl \<Rightarrow> stop option \<times> ctl" where
  "Socket_Send P w data this s =
     (if \<not> valid_socket P this then (Some (Thrown (WinSockError_plain P ''Send'' ''Socket is not valid'')), s)
      else if data = [] then (Some (Undefined ''data[0] of an empty vector''), s)
      else
        let (r, s) = ctl_ask w (Send (m_socket this) data (of_nat (length data))) s in
        if ret_status r = SOCKET_ERROR P 
        then let (e, s) = throw_last P w ''Send'' ''send() failed'' s in (Some e, s) else (None, s))"

definition Socket_Receive ::
  "ctl_platform \<Rightarrow> ctl_world \<Rightarrow> 32 word \<Rightarrow> SocketObject \<Rightarrow> ctl \<Rightarrow> (stop + UCHAR list) \<times> ctl" where
  "Socket_Receive P w bytesToRead this s =
     (if \<not> valid_socket P this
      then (Inl (Thrown (WinSockError_plain P ''Receive'' ''Socket is not valid'')), s)
      else if bytesToRead = 0 then (Inl (Undefined ''recvbuf[0] of an empty vector''), s)
      else
        let (r, s) = ctl_ask w (Recv (m_socket this) bytesToRead) s in
        if sint (ret_status r) < 0
        then let (e, s) = throw_last P w ''Receive'' ''recv() failed'' s in (Inl e, s)
        else
          let recvbuf = fill_buffer (replicate (unat bytesToRead) 0) (ret_bytes r);
              n = unat (ret_status r)
          in (Inr (take n recvbuf @ replicate (n - length recvbuf) 0), s))"

text \<open>The three accessors.\<close>

definition GetHost :: "SocketObject \<Rightarrow> wstring" where "GetHost this = m_host this"
definition GetPort :: "SocketObject \<Rightarrow> ULONG" where "GetPort this = m_portNumber this"
definition GetHandle :: "SocketObject \<Rightarrow> handle" where "GetHandle this = m_socket this"

section \<open>Starting and stopping WinSock\<close>

definition MAKEWORD :: "DWORD \<Rightarrow> DWORD \<Rightarrow> USHORT" where
  "MAKEWORD a b = ucast (a AND 0xFF) OR push_bit 8 (ucast (b AND 0xFF))"

definition WinSockInit_Initialize ::
  "ctl_platform \<Rightarrow> ctl_world \<Rightarrow> DWORD \<Rightarrow> DWORD \<Rightarrow> ctl action" where
  "WinSockInit_Initialize P w highVersion lowVersion s =
     (let (r, s) = ctl_ask w (WSAStartup (MAKEWORD highVersion lowVersion)) s in
      if ret_status r \<noteq> 0
      then let (x, s) = WinSockError P w ''Initialize'' ''Failed to initialise WinSock'' (ret_status r) s
           in (Some (Thrown x), s)
      else (None, s))"

definition WinSockInit_default :: "ctl_platform \<Rightarrow> ctl_world \<Rightarrow> ctl action" where
  "WinSockInit_default P w = WinSockInit_Initialize P w 2 2"

definition WinSockInit_destructor :: "ctl_world \<Rightarrow> ctl \<Rightarrow> ctl" where
  "WinSockInit_destructor w s = ctl_do w WSACleanup s"

section \<open>The sockets a program has\<close>

text \<open>
  Read off a trace: the sockets that are open, those of which the system has refused the closing,
  and whether every call so far was on a socket that was open.
\<close>

fun socket_step ::
  "ctl_platform \<Rightarrow> handle set \<times> handle set \<times> bool \<Rightarrow> ctl_call \<times> ctl_ret \<Rightarrow> handle set \<times> handle set \<times> bool" where
  "socket_step P (A, R, ok) (Socket f t p, r) =
     (if ret_out r = INVALID_SOCKET P then (A, R, ok) else (insert (ret_out r) A, R - {ret_out r}, ok))"
| "socket_step P (A, R, ok) (Closesocket h, r) =
     (if ret_status r = SOCKET_ERROR P then (A, insert h R, ok \<and> h \<in> A) else (A - {h}, R, ok \<and> h \<in> A))"
| "socket_step P (A, R, ok) (Getsockopt h l a, r) = (A, R, ok \<and> h \<in> A)"
| "socket_step P (A, R, ok) (Setsockopt h l a v n, r) = (A, R, ok \<and> h \<in> A)"
| "socket_step P (A, R, ok) (Connect h a l, r) = (A, R, ok \<and> h \<in> A)"
| "socket_step P (A, R, ok) (Send h d l, r) = (A, R, ok \<and> h \<in> A)"
| "socket_step P (A, R, ok) (Recv h l, r) = (A, R, ok \<and> h \<in> A)"
| "socket_step P m (_, r) = m"

definition sockets :: "ctl_platform \<Rightarrow> ctl_trace \<Rightarrow> handle set \<times> handle set \<times> bool" where
  "sockets P tr = foldl (socket_step P) ({}, {}, True) tr"

interpretation sockets: trace_monitor "sockets P" "socket_step P" "({}, {}, True)" for P
  by unfold_locales (simp_all add: sockets_def)

text \<open>The documentation of \<^verbatim>\<open>socket\<close>: a handle that is not the invalid one is not that of an open socket.\<close>

definition sockets_api :: "ctl_platform \<Rightarrow> ctl_world \<Rightarrow> bool" where
  "sockets_api P w \<longleftrightarrow> (\<forall>tr f t p. let h = ret_out (w tr (Socket f t p)) in
     h = INVALID_SOCKET P \<or> h \<notin> fst (sockets P tr))"

text \<open>Calls that are not about sockets, and those an option makes on one.\<close>

fun quiet :: "ctl_call \<Rightarrow> bool" where
  "quiet WSAGetLastError = True"
| "quiet (Convert c) = True"
| "quiet c = translates c"

fun on_socket :: "handle \<Rightarrow> ctl_call \<Rightarrow> bool" where
  "on_socket h (Getsockopt h' l a) = (h' = h)"
| "on_socket h (Setsockopt h' l a v n) = (h' = h)"
| "on_socket h c = quiet c"

lemma translates_quiet: "translates c \<Longrightarrow> quiet c"
  by (cases c) simp_all

lemma quiet_on_socket: "quiet c \<Longrightarrow> on_socket h c"
  by (cases c) simp_all

lemma quiet_sockets:
  assumes "only quiet s s'"
  shows "sockets P (ctl_log s') = sockets P (ctl_log s)"
proof -
  have "socket_step P m (c, r) = m" if "quiet c" for m c r
    using that by (cases m; cases c) simp_all
  then show ?thesis unfolding sockets_def by (rule foldl_unchanged [OF assms])
qed

lemma on_socket_sockets:
  assumes "only (on_socket h) s s'" "sockets P (ctl_log s) = (A, R, True)" "h \<in> A"
  shows "sockets P (ctl_log s') = (A, R, True)"
proof -
  obtain tr where tr: "ctl_log s' = ctl_log s @ tr" "list_all (on_socket h \<circ> fst) tr"
    using assms(1) by (auto simp: only_def)
  show ?thesis unfolding tr(1)
  proof (rule sockets.run_invariant)
    fix m e assume "e \<in> set tr" "m = (A, R, True)"
    moreover obtain c r where e: "e = (c, r)" by fastforce
    ultimately have "on_socket h c" using tr(2) by (auto simp: list_all_iff)
    then show "socket_step P m e = (A, R, True)"
      using assms(3) \<open>m = (A, R, True)\<close> unfolding e by (cases c) auto
  qed (use assms(2) in simp)
qed

lemma throw_last_only: "only quiet s (snd (throw_last P w site m s))"
proof -
  let ?s = "snd (ctl_ask w WSAGetLastError s)"
  have "only quiet s ?s" by (rule only_ask) simp
  moreover have "only quiet ?s (snd (WinSockError P w site m c ?s))" for c
    by (rule only_mono [OF error_constructors_only(2)]) (rule translates_quiet)
  ultimately show ?thesis
    by (auto simp: throw_last_def split_def Let_def intro: only.ok_trans)
qed

lemma SetSocketTTL_only: "only (on_socket (m_socket this)) s (snd (SetSocketTTL P w ttl this s))"
proof (cases "valid_socket P this")
  case True
  let ?h = "m_socket this"
  have last: "only (on_socket ?h) t (snd (throw_last P w site m t))" for site m t
    by (rule only_mono [OF throw_last_only]) (rule quiet_on_socket)
  have get: "only (on_socket ?h) t (snd (ctl_ask w (Getsockopt ?h l a) t))"
    "only (on_socket ?h) t (snd (ctl_ask w (Setsockopt ?h l a v n) t))" for t l a v n
    by (auto intro: only_ask)
  show ?thesis using True
    by (auto simp: SetSocketTTL_def split_def Let_def only.ok_refl intro: get last
        only.ok_trans [OF get(1)] only.ok_trans [OF get(1) only.ok_trans [OF get(2)]]
        split: option.split)
qed (simp add: SetSocketTTL_def only.ok_refl)

text \<open>Something that happened between two states, and the causes for which a turn of the loop is given up.\<close>

definition happened :: "ctl \<Rightarrow> ctl \<Rightarrow> (ctl_call \<times> ctl_ret \<Rightarrow> bool) \<Rightarrow> bool" where
  "happened s s' Q \<longleftrightarrow> (\<exists>tr. ctl_log s' = ctl_log s @ tr \<and> (\<exists>e \<in> set tr. Q e))"

lemma happened_more: "happened s s' Q \<Longrightarrow> (\<And>e. Q e \<Longrightarrow> Q' e) \<Longrightarrow> happened s s' Q'"
  unfolding happened_def by blast

lemma happened_before: "only C s s1 \<Longrightarrow> happened s1 s2 Q \<Longrightarrow> happened s s2 Q"
  by (fastforce simp: happened_def only_def)

lemma happened_after: "happened s s1 Q \<Longrightarrow> only C s1 s2 \<Longrightarrow> happened s s2 Q"
  by (fastforce simp: happened_def only_def)

lemma happened_ask: "Q (c, w (ctl_log s) c) \<Longrightarrow> happened s (snd (ctl_ask w c s)) Q"
  by (simp add: happened_def ctl_ask_eq)

fun option_failed :: "ctl_platform \<Rightarrow> ctl_call \<times> ctl_ret \<Rightarrow> bool" where
  "option_failed P (Getsockopt h l a, r) = (ret_status r = SOCKET_ERROR P)"
| "option_failed P (Setsockopt h l a v n, r) = (ret_status r = SOCKET_ERROR P)"
| "option_failed P _ = False"

text \<open>
  No socket for the address; or a TTL that cannot be set before connecting, because its handle is 0, because
  the address has another family than the two of the Internet, or because the system refuses the option.
\<close>

fun broke_down :: "ctl_platform \<Rightarrow> DWORD \<Rightarrow> ADDRINFO \<Rightarrow> ctl_call \<times> ctl_ret \<Rightarrow> bool" where
  "broke_down P ttl a (Socket f t p, r) = (f = ai_family a \<and> t = ai_socktype a \<and> p = ai_protocol a \<and>
     (ret_out r = INVALID_SOCKET P \<or>
      ttl \<noteq> 0 \<and> (ret_out r = NULL \<or> ai_family a \<noteq> AF_INET P \<and> ai_family a \<noteq> AF_INET6 P)))"
| "broke_down P ttl a e = (ttl \<noteq> 0 \<and> option_failed P e)"

fun close_failed :: "ctl_platform \<Rightarrow> ctl_call \<times> ctl_ret \<Rightarrow> bool" where
  "close_failed P (Closesocket h, r) = (ret_status r = SOCKET_ERROR P)"
| "close_failed P _ = False"

lemma option_failed_breaks: "option_failed P e \<Longrightarrow> ttl \<noteq> 0 \<Longrightarrow> broke_down P ttl a e"
  by (cases e; cases "fst e") auto

lemma SetSocketTTL_fails:
  assumes "SetSocketTTL P w ttl this s = (Some x, s')" "m_socket this \<noteq> INVALID_SOCKET P"
  shows "m_socket this = NULL \<or> m_addressFamily this \<noteq> AF_INET P \<and> m_addressFamily this \<noteq> AF_INET6 P \<or>
    happened s s' (option_failed P)"
proof (rule ccontr)
  let ?h = "m_socket this"
  assume none: "\<not> ?thesis"
  then have v: "valid_socket P this" using assms(2) by (simp add: valid_socket_def)
  obtain l a where la: "(if m_addressFamily this = AF_INET P then Some (IPPROTO_IP P, IP_TTL P)
      else if m_addressFamily this = AF_INET6 P then Some (IPPROTO_IPV6 P, IPV6_UNICAST_HOPS P) else None) = Some (l, a)"
    using none by (cases "m_addressFamily this = AF_INET P") auto
  let ?g = "Getsockopt ?h l a"
  define s1 where "s1 = snd (ctl_ask w ?g s)"
  let ?c = "Setsockopt ?h l a ttl (ret_out (w (ctl_log s) ?g))"
  define s2 where "s2 = snd (ctl_ask w ?c s1)"
  have last: "only quiet t (snd (throw_last P w site m t))" for site m t by (rule throw_last_only)
  have asked: "only (\<lambda>_. True) s s1" by (simp add: s1_def only_ask)
  show False
  proof (cases "ret_status (w (ctl_log s) ?g) = SOCKET_ERROR P")
    case True
    then have "happened s s1 (option_failed P)" unfolding s1_def by (intro happened_ask) simp
    moreover have "s' = snd (throw_last P w ''SetSocketTTL'' ''TTL option is not support'' s1)"
      using assms(1) v True unfolding SetSocketTTL_def la by (auto simp: ctl_ask_eq s1_def split_def Let_def)
    ultimately show False using none happened_after last by blast
  next
    case False
    then have "happened s1 s2 (option_failed P) \<and> s' = snd (throw_last P w ''SetSocketTTL'' ''setsockopt() failed'' s2)"
      using assms(1) v unfolding SetSocketTTL_def la s2_def
      by (auto simp: ctl_ask_eq s1_def split_def Let_def happened_def split: if_splits)
    then show False using none happened_after last happened_before [OF asked] by blast
  qed
qed

text \<open>The addresses a trace tries to connect to, with whether the connection was accepted.\<close>

fun attempt :: "ctl_platform \<Rightarrow> ctl_call \<times> ctl_ret \<Rightarrow> (addr \<times> bool) list" where
  "attempt P (Connect h a l, r) = [(a, ret_status r \<noteq> SOCKET_ERROR P)]"
| "attempt P _ = []"

definition attempts :: "ctl_platform \<Rightarrow> ctl_trace \<Rightarrow> (addr \<times> bool) list" where
  "attempts P tr = concat (map (attempt P) tr)"

lemma attempts_simps [simp]:
  "attempts P [] = []" "attempts P (tr @ tr') = attempts P tr @ attempts P tr'"
  "attempts P (e # tr) = attempt P e @ attempts P tr"
  by (simp_all add: attempts_def)

lemma attempts_on_socket: "list_all (on_socket h \<circ> fst) tr \<Longrightarrow> attempts P tr = []"
proof (induction tr)
  case (Cons e tr)
  obtain c r where e: "e = (c, r)" by fastforce
  then have "attempt P e = []" using Cons.prems by (cases c) auto
  then show ?case using Cons by simp
qed simp

lemma attempts_only: "only (on_socket h) s s' \<Longrightarrow> attempts P (ctl_log s') = attempts P (ctl_log s)"
  by (auto simp: only_def attempts_on_socket)

lemma attempts_quiet: "only quiet s s' \<Longrightarrow> attempts P (ctl_log s') = attempts P (ctl_log s)"
  by (rule attempts_only) (rule only_mono [OF _ quiet_on_socket])

text \<open>An object that has just got a socket of its own, beside the sockets \<open>A\<close>.\<close>

definition owns_socket :: "ctl_platform \<Rightarrow> handle set \<Rightarrow> SocketObject \<Rightarrow> ctl \<Rightarrow> bool" where
  "owns_socket P A this s \<longleftrightarrow> m_socket this \<noteq> INVALID_SOCKET P \<and> m_socket this \<notin> A \<and>
     (\<exists>R. sockets P (ctl_log s) = (insert (m_socket this) A, R, True))"

definition owns_none :: "ctl_platform \<Rightarrow> handle set \<Rightarrow> SocketObject \<Rightarrow> ctl \<Rightarrow> bool" where
  "owns_none P A this s \<longleftrightarrow> m_socket this = INVALID_SOCKET P \<and> (\<exists>R. sockets P (ctl_log s) = (A, R, True))"

lemma owns_socket_only:
  assumes "owns_socket P A this s" "only (on_socket (m_socket this)) s s'"
  shows "owns_socket P A this s'"
  using assms on_socket_sockets [OF assms(2)] by (fastforce simp: owns_socket_def)

lemma owns_none_quiet: "owns_none P A this s \<Longrightarrow> only quiet s s' \<Longrightarrow> owns_none P A this s'"
  by (simp add: owns_none_def quiet_sockets)

lemma owns_socket_family [simp]: "owns_socket P A (this\<lparr>m_addressFamily := f\<rparr>) s = owns_socket P A this s"
  by (simp add: owns_socket_def)

lemma owns_none_asks:
  assumes "sockets_api P w" "owns_none P A this s" "ret_out (w (ctl_log s) (Socket f t p)) \<noteq> INVALID_SOCKET P"
  shows "owns_socket P A (this\<lparr>m_socket := ret_out (w (ctl_log s) (Socket f t p))\<rparr>) (snd (ctl_ask w (Socket f t p) s))"
proof -
  obtain R where R: "sockets P (ctl_log s) = (A, R, True)" using assms(2) by (auto simp: owns_none_def)
  have "ret_out (w (ctl_log s) (Socket f t p)) \<notin> A"
    using assms(1,3) R unfolding sockets_api_def Let_def by (metis fst_conv)
  then show ?thesis using R assms(3) by (simp add: owns_socket_def ctl_ask_eq sockets.run_snoc)
qed

text \<open>The second half of a turn: the connection is accepted or refused, and a refused socket is closed.\<close>

definition connect_socket ::
  "ctl_platform \<Rightarrow> ctl_world \<Rightarrow> ADDRINFO \<Rightarrow> SocketObject \<Rightarrow> ctl \<Rightarrow> stop option \<times> SocketObject \<times> ctl" where
  "connect_socket P w a this s =
     (let (r, s) = ctl_ask w (Connect (m_socket this) (ai_addr a) (of_nat (ai_addrlen a))) s in
      if ret_status r \<noteq> SOCKET_ERROR P then (None, this\<lparr>m_addressFamily := ai_family a\<rparr>, s)
      else let (r, s) = ctl_ask w (Closesocket (m_socket this)) s in
        if ret_status r = SOCKET_ERROR P
        then let (e, s) = throw_last P w ''Connect'' ''closesocket() failed'' s in (Some e, this, s)
        else (None, this\<lparr>m_socket := INVALID_SOCKET P\<rparr>, s))"

lemma connect_socket_effect:
  assumes own: "owns_socket P A this s" and run: "connect_socket P w a this s = (e, this', s')"
  shows "m_host this' = m_host this \<and> m_portNumber this' = m_portNumber this \<and> m_preconnectTTL this' = m_preconnectTTL this \<and>
    (e = None \<and> owns_none P A this' s' \<and> attempts P (ctl_log s') = attempts P (ctl_log s) @ [(ai_addr a, False)]
     \<or> e = None \<and> owns_socket P A this' s' \<and> m_addressFamily this' = ai_family a \<and>
       attempts P (ctl_log s') = attempts P (ctl_log s) @ [(ai_addr a, True)]
     \<or> e \<noteq> None \<and> owns_socket P A this' s' \<and> happened s s' (close_failed P) \<and>
       attempts P (ctl_log s') = attempts P (ctl_log s) @ [(ai_addr a, False)])"
proof -
  let ?h = "m_socket this" and ?d = "Connect (m_socket this) (ai_addr a) (of_nat (ai_addrlen a))"
  define s3 where "s3 = snd (ctl_ask w ?d s)"
  define s4 where "s4 = snd (ctl_ask w (Closesocket ?h) s3)"
  let ?refused = "ret_status (w (ctl_log s) ?d) = SOCKET_ERROR P"
  let ?open = "ret_status (w (ctl_log s3) (Closesocket ?h)) = SOCKET_ERROR P"
  have own3: "owns_socket P A this s3"
    using own by (auto simp: owns_socket_def s3_def ctl_ask_eq sockets.run_snoc)
  have a: "attempts P (ctl_log s3) = attempts P (ctl_log s) @ [(ai_addr a, \<not> ?refused)]"
    "attempts P (ctl_log s4) = attempts P (ctl_log s3)"
    by (simp_all add: s3_def s4_def ctl_ask_eq)
  have own4: "if ?open then owns_socket P A this s4 else owns_none P A (this\<lparr>m_socket := INVALID_SOCKET P\<rparr>) s4"
    using own3 by (auto simp: owns_socket_def owns_none_def s4_def ctl_ask_eq sockets.run_snoc)
  obtain x s5 where x: "throw_last P w ''Connect'' ''closesocket() failed'' s4 = (x, s5)" by fastforce
  then have q: "only quiet s4 s5" using throw_last_only [of s4] by (metis snd_conv)
  have own5: "owns_socket P A this s5" if "owns_socket P A this s4"
    using that by (rule owns_socket_only) (rule only_mono [OF q quiet_on_socket])
  have failed: "happened s s5 (close_failed P)" if ?open
  proof -
    have "happened s3 s4 (close_failed P)" unfolding s4_def using that by (intro happened_ask) simp
    moreover have "only (\<lambda>_. True) s s3" by (simp add: s3_def only_ask)
    ultimately show ?thesis using happened_before happened_after q by blast
  qed
  have "connect_socket P w a this s =
      (if \<not> ?refused then (None, this\<lparr>m_addressFamily := ai_family a\<rparr>, s3)
       else if ?open then (Some x, this, s5) else (None, this\<lparr>m_socket := INVALID_SOCKET P\<rparr>, s4))"
    using x by (simp add: connect_socket_def Let_def split_def s3_def s4_def)
  then show ?thesis
    using run own3 own4 own5 failed a attempts_quiet [OF q, of P] by (auto split: if_splits)
qed

text \<open>
  One turn of the loop: it gives up before connecting, or it refuses the address and holds no socket again
  (or the one the system does not close), or it accepts and holds one.
\<close>

lemma connect_attempt_effect:
  assumes api: "sockets_api P w" and run: "connect_attempt P w a this s = (e, this', s')"
    and none: "owns_none P A this s"
  shows "m_host this' = m_host this \<and> m_portNumber this' = m_portNumber this \<and> m_preconnectTTL this' = m_preconnectTTL this \<and>
    (e = None \<and> owns_none P A this' s' \<and> attempts P (ctl_log s') = attempts P (ctl_log s) @ [(ai_addr a, False)]
     \<or> e = None \<and> owns_socket P A this' s' \<and> m_addressFamily this' = ai_family a \<and>
       attempts P (ctl_log s') = attempts P (ctl_log s) @ [(ai_addr a, True)]
     \<or> e \<noteq> None \<and> (owns_none P A this' s' \<or> owns_socket P A this' s') \<and>
       happened s s' (broke_down P (m_preconnectTTL this) a) \<and> attempts P (ctl_log s') = attempts P (ctl_log s)
     \<or> e \<noteq> None \<and> owns_socket P A this' s' \<and> happened s s' (close_failed P) \<and>
       attempts P (ctl_log s') = attempts P (ctl_log s) @ [(ai_addr a, False)])"
proof -
  let ?c = "Socket (ai_family a) (ai_socktype a) (ai_protocol a)"
  define h where "h = ret_out (w (ctl_log s) ?c)"
  define s1 where "s1 = snd (ctl_ask w ?c s)"
  define o1 where "o1 = this\<lparr>m_socket := h, m_addressFamily := ai_family a\<rparr>"
  have a1: "attempts P (ctl_log s1) = attempts P (ctl_log s)" by (simp add: s1_def ctl_ask_eq)
  have o1: "m_socket o1 = h" "m_host o1 = m_host this" "m_portNumber o1 = m_portNumber this"
    "m_preconnectTTL o1 = m_preconnectTTL this" "m_addressFamily o1 = ai_family a" by (simp_all add: o1_def)
  have asked: "only (\<lambda>_. True) s s1" by (simp add: s1_def only_ask)
  let ?broke = "broke_down P (m_preconnectTTL this) a"
  have no_socket: "happened s s1 ?broke" if "?broke (?c, w (ctl_log s) ?c)"
    unfolding s1_def using that by (rule happened_ask)
  show ?thesis
  proof (cases "h = INVALID_SOCKET P")
    case True
    obtain x s2 where x: "throw_last P w ''Connect'' ''socket() failed'' s1 = (x, s2)" by fastforce
    then have q: "only quiet s1 s2" using throw_last_only [of s1] by (metis snd_conv)
    moreover have "e = Some x" "this' = this\<lparr>m_socket := h\<rparr>" "s' = s2"
      using run True x by (simp_all add: connect_attempt_def ctl_ask_eq h_def s1_def)
    moreover have "owns_none P A (this\<lparr>m_socket := h\<rparr>) s1"
      using none True by (auto simp: owns_none_def s1_def ctl_ask_eq sockets.run_snoc h_def)
    moreover have "happened s s2 ?broke"
      by (rule happened_after [OF no_socket q]) (use True in \<open>simp add: h_def\<close>)
    ultimately show ?thesis using a1 by (auto simp: attempts_quiet dest: owns_none_quiet)
  next
    case False
    define ttl where "ttl = (if m_preconnectTTL o1 \<noteq> 0 then SetSocketTTL P w (m_preconnectTTL o1) o1 s1 else (None, s1))"
    obtain e2 s2 where ttl: "ttl = (e2, s2)" by fastforce
    have body: "connect_attempt P w a this s = (case ttl of (e, s) \<Rightarrow> if e \<noteq> None then (e, o1, s) else connect_socket P w a o1 s)"
      using False by (auto simp: connect_attempt_def connect_socket_def Let_def split_def ttl_def h_def s1_def o1_def)
    have own1: "owns_socket P A o1 s1"
      using owns_none_asks [OF api none False [unfolded h_def]] by (simp add: o1_def s1_def h_def)
    have option: "only (on_socket h) s1 s2"
      using SetSocketTTL_only [where P = P and this = o1 and s = s1, of w "m_preconnectTTL o1"] ttl o1(1)
        only.ok_refl [of "on_socket h" s1]
      by (auto simp: ttl_def split: if_splits)
    with own1 have own2: "owns_socket P A o1 s2" and a2: "attempts P (ctl_log s2) = attempts P (ctl_log s)"
      using owns_socket_only [of P A o1 s1 s2] o1(1) a1 by (simp_all add: attempts_only)
    show ?thesis
    proof (cases e2)
      case (Some x)
      then have set: "m_preconnectTTL this \<noteq> 0" "SetSocketTTL P w (m_preconnectTTL o1) o1 s1 = (Some x, s2)"
        using ttl o1(4) by (auto simp: ttl_def split: if_splits)
      then consider "h = NULL \<or> ai_family a \<noteq> AF_INET P \<and> ai_family a \<noteq> AF_INET6 P" | "happened s1 s2 (option_failed P)"
        using SetSocketTTL_fails [OF set(2)] False o1 by auto
      then have "happened s s2 ?broke"
      proof cases
        case 1
        then show ?thesis using set(1) by (intro happened_after [OF no_socket option]) (simp add: h_def)
      next
        case 2
        then have "happened s1 s2 ?broke" by (rule happened_more) (rule option_failed_breaks [OF _ set(1)])
        then show ?thesis by (rule happened_before [OF asked])
      qed
      then show ?thesis using Some run own2 a2 o1 unfolding body ttl by auto
    next
      case None
      then have "connect_socket P w a o1 s2 = (e, this', s')" using run unfolding body ttl by simp
      from connect_socket_effect [OF own2 this] show ?thesis
        using a2 o1 happened_before [OF only.ok_trans [OF asked only_mono [OF option]]] by auto
    qed
  qed
qed

lemma connect_loop_stays: "m_socket this \<noteq> INVALID_SOCKET P \<Longrightarrow> connect_loop P w as this s = (None, this, s)"
  by (cases as) simp_all

text \<open>The attempts at a list of addresses that were all refused.\<close>

definition refusals :: "ADDRINFO list \<Rightarrow> (addr \<times> bool) list" where
  "refusals as = map (\<lambda>a. (ai_addr a, False)) as"

lemma refusals_simps [simp]: "refusals [] = []" "refusals (a # as) = (ai_addr a, False) # refusals as"
  "refusals (as @ bs) = refusals as @ refusals bs"
  by (simp_all add: refusals_def)

text \<open>
  How a walk over addresses may have ended since the state \<open>t\<close>, with the attempts it made: all refused, accepted at
  one after refusals, given up at one before connecting to it, or stopped at a refused one whose socket cannot be
  closed.
\<close>

inductive tried ::
  "ctl_platform \<Rightarrow> handle set \<Rightarrow> DWORD \<Rightarrow> ctl \<Rightarrow> ADDRINFO list \<Rightarrow> stop option \<Rightarrow> SocketObject \<Rightarrow> ctl \<Rightarrow> (addr \<times> bool) list \<Rightarrow> bool"
  for P A ttl where
  all_refused: "owns_none P A this s \<Longrightarrow> tried P A ttl t as None this s (refusals as)"
| accepted: "owns_socket P A this s \<Longrightarrow> m_addressFamily this = ai_family a \<Longrightarrow>
    tried P A ttl t (pre @ a # post) None this s (refusals pre @ [(ai_addr a, True)])"
| gave_up: "owns_none P A this s \<or> owns_socket P A this s \<Longrightarrow> happened t s (broke_down P ttl a) \<Longrightarrow>
    tried P A ttl t (pre @ a # post) (Some e) this s (refusals pre)"
| not_closed: "owns_socket P A this s \<Longrightarrow> happened t s (close_failed P) \<Longrightarrow>
    tried P A ttl t (pre @ a # post) (Some e) this s (refusals (pre @ [a]))"

lemma tried_Cons:
  assumes "tried P A ttl t as e this s ats" "only Q t' t"
  shows "tried P A ttl t' (a # as) e this s ((ai_addr a, False) # ats)"
  using assms
proof (induction rule: tried.induct)
  case (all_refused this s t as)
  then show ?case using tried.all_refused [of P A this s ttl t' "a # as"] by simp
next
  case (accepted this s b t pre post)
  then show ?case using tried.accepted [of P A this s b ttl t' "a # pre" post] by simp
next
  case (gave_up this s t b pre post e)
  then show ?case using tried.gave_up [of P A this s t' ttl b "a # pre" post e] happened_before by auto
next
  case (not_closed this s t pre b post e)
  then show ?case using tried.not_closed [of P A this s t' ttl "a # pre" b post e] happened_before by auto
qed

lemma connect_attempt_only: "only (\<lambda>_. True) s (snd (snd (connect_attempt P w a this s)))"
proof -
  have ask: "only (\<lambda>_. True) t u \<Longrightarrow> only (\<lambda>_. True) t (snd (ctl_ask w c u))" for c t u
    by (erule only.ok_trans) (rule only_ask, simp)
  have last: "only (\<lambda>_. True) t u \<Longrightarrow> only (\<lambda>_. True) t (snd (throw_last P w site m u))" for t u site m
    by (erule only.ok_trans) (rule only_mono [OF throw_last_only], simp)
  have ttl: "only (\<lambda>_. True) t u \<Longrightarrow> only (\<lambda>_. True) t (snd (SetSocketTTL P w n h u))" for t u n h
    by (erule only.ok_trans) (rule only_mono [OF SetSocketTTL_only], simp)
  show ?thesis
    by (auto simp: connect_attempt_def Let_def split_def only.ok_refl intro!: ask last ttl)
qed

lemma connect_loop_effect:
  assumes api: "sockets_api P w" and run: "connect_loop P w as this s = (e, this', s')"
    and none: "owns_none P A this s"
  shows "m_host this' = m_host this \<and> m_portNumber this' = m_portNumber this \<and>
    (\<exists>ats. tried P A (m_preconnectTTL this) s as e this' s' ats \<and> attempts P (ctl_log s') = attempts P (ctl_log s) @ ats)"
  using run none
proof (induction as arbitrary: this s)
  case Nil
  then show ?case using tried.all_refused [of P A this s _ s "[]"] by auto
next
  case (Cons a as)
  obtain e1 o1 s1 where 1: "connect_attempt P w a this s = (e1, o1, s1)" by (metis prod_cases3)
  note eff = connect_attempt_effect [OF api 1 Cons.prems(2)]
  let ?ttl = "m_preconnectTTL this"
  have more: "only (\<lambda>_. True) s s1" using connect_attempt_only [of s P w a this] 1 by simp
  have inv: "m_socket this = INVALID_SOCKET P" using Cons.prems(2) by (simp add: owns_none_def)
  show ?case
  proof (cases e1)
    case (Some x)
    then have *: "e = Some x" "this' = o1" "s' = s1" using Cons.prems(1) 1 inv by simp_all
    consider (gave_up) "owns_none P A o1 s1 \<or> owns_socket P A o1 s1" "happened s s1 (broke_down P ?ttl a)"
          "attempts P (ctl_log s1) = attempts P (ctl_log s)"
      | (not_closed) "owns_socket P A o1 s1" "happened s s1 (close_failed P)"
          "attempts P (ctl_log s1) = attempts P (ctl_log s) @ [(ai_addr a, False)]"
      using eff Some by auto
    then show ?thesis
    proof cases
      case gave_up
      then show ?thesis using tried.gave_up [OF gave_up(1,2), of "[]" as x] eff * by auto
    next
      case not_closed
      then show ?thesis using tried.not_closed [OF not_closed(1,2), of ?ttl "[]" a as x] eff * by auto
    qed
  next
    case None
    then have loop: "connect_loop P w as o1 s1 = (e, this', s')" using Cons.prems(1) 1 inv by simp
    consider (refused) "owns_none P A o1 s1" "attempts P (ctl_log s1) = attempts P (ctl_log s) @ [(ai_addr a, False)]"
      | (accepted) "owns_socket P A o1 s1" "m_addressFamily o1 = ai_family a"
          "attempts P (ctl_log s1) = attempts P (ctl_log s) @ [(ai_addr a, True)]"
      using eff None by auto
    then show ?thesis
    proof cases
      case refused
      have "m_preconnectTTL o1 = ?ttl" using eff by simp
      then show ?thesis using Cons.IH [OF loop refused(1)] eff refused(2) by (auto dest: tried_Cons [OF _ more])
    next
      case accepted
      then have "m_socket o1 \<noteq> INVALID_SOCKET P" by (simp add: owns_socket_def)
      then have *: "e = None" "this' = o1" "s' = s1" using loop by (simp_all add: connect_loop_stays)
      have "tried P A ?ttl s (a # as) e this' s' [(ai_addr a, True)]"
        using tried.accepted [OF accepted(1,2), of ?ttl s "[]" as] * by simp
      then show ?thesis using eff * accepted(3) by auto
    qed
  qed
qed

section \<open>Connecting as a whole\<close>

lemma converted_append: "\<exists>l. converted w start tr = start @ l \<and> list_all (quiet \<circ> fst) l"
proof (induction tr rule: rev_induct)
  case (snoc e tr)
  then obtain l where "converted w start tr = start @ l" "list_all (quiet \<circ> fst) l" by blast
  then show ?case by (cases e) (auto simp: converted_def comp_def)
qed (simp add: converted_def)

lemma ConvertString_host_only: "only quiet s (snd (ConvertString_host P w str s))"
proof -
  obtain r tr where 1: "ConvertString_wide (conversions w (ctl_log s)) str [] = (r, tr)"
    by fastforce
  define s1 where "s1 = s\<lparr>ctl_log := converted w (ctl_log s) tr\<rparr>"
  have s1: "only quiet s s1"
    using converted_append [of w "ctl_log s" tr] by (auto simp: s1_def only_def)
  have "only quiet s1 (snd (Win32Error_code P w site msg code [] s1))" for site msg code
    by (rule only_mono [OF error_constructors_only(3)]) (rule translates_quiet)
  note win32 = only.ok_trans [OF s1 this]
  show ?thesis
    using s1 win32 by (auto simp: ConvertString_host_def 1 s1_def [symmetric] Let_def split_def
        split: sum.split string_error.split)
qed

lemma error_quiet: "only quiet s (snd (WinSockError P w site m c s))"
  by (rule only_mono [OF error_constructors_only(2)]) (rule translates_quiet)

text \<open>The addresses a call for them has given, and what stands for the list when there is none.\<close>

definition host_call :: "SocketObject \<Rightarrow> ctl_call" where
  "host_call this = GetAddrInfoW (takeWhile (\<lambda>c. c \<noteq> 0) (m_host this))
     (if m_portNumber this \<noteq> 0 then Some (wide (dec (unat (m_portNumber this)))) else None)"

definition addresses :: "ctl_ret \<Rightarrow> ADDRINFO list" where
  "addresses r = (if ret_status r \<noteq> 0 \<or> ret_out r = NULL then [] else ret_addrs r)"

lemma owns_socket_quiet: "owns_socket P A this s \<Longrightarrow> only quiet s s' \<Longrightarrow> owns_socket P A this s'"
  by (rule owns_socket_only) (auto elim: only_mono intro: quiet_on_socket)

text \<open>Freeing the addresses is nothing to the sockets.\<close>

lemma free_addresses [simp]:
  "sockets P (ctl_log (ctl_do w (FreeAddrInfoW a) s)) = sockets P (ctl_log s)"
  "attempts P (ctl_log (ctl_do w (FreeAddrInfoW a) s)) = attempts P (ctl_log s)"
  by (cases "sockets P (ctl_log s)", simp add: ctl_do_eq sockets.run_snoc) (simp add: ctl_do_eq)

lemma owns_free_addresses [simp]:
  "owns_socket P A this (ctl_do w (FreeAddrInfoW a) s) = owns_socket P A this s"
  "owns_none P A this (ctl_do w (FreeAddrInfoW a) s) = owns_none P A this s"
  by (simp_all add: owns_socket_def owns_none_def)

text \<open>The last part: the error for a list that was walked to its end, and the freeing.\<close>

definition connect_finish ::
  "ctl_platform \<Rightarrow> ctl_world \<Rightarrow> addr \<Rightarrow> stop option \<Rightarrow> SocketObject \<Rightarrow> ctl \<Rightarrow> stop option \<times> ctl" where
  "connect_finish P w addrResult e this s =
     (let (e, s) =
            (if e = None \<and> m_socket this = INVALID_SOCKET P
             then case ConvertString_host P w (m_host this) s of
                    (Inl stop, s) \<Rightarrow> (Some stop, s)
                  | (Inr host, s) \<Rightarrow>
                      (Some (Thrown (WinSockError_plain P ''Connect'' (''Failed connecting to server '' @ host @ '':'' @
                         dec (unat (m_portNumber this))))), s)
             else (e, s))
      in (e, if addrResult \<noteq> NULL then ctl_do w (FreeAddrInfoW addrResult) s else s))"

lemma Socket_Connect_eq:
  "Socket_Connect P w this s =
     (let (r, s) = ctl_ask w (host_call this) s in
      if ret_status r \<noteq> 0
      then let (x, s) = WinSockError P w ''Connect'' ''GetAddrInfoW() failed'' (ret_status r) s
           in (Some (Thrown x), this, s)
      else let (e, this, s) = connect_loop P w (addresses r) (this\<lparr>m_socket := INVALID_SOCKET P\<rparr>) s;
               (e, s) = connect_finish P w (ret_out r) e this s
           in (e, this, s))"
  by (simp add: Socket_Connect_def connect_finish_def host_call_def addresses_def Let_def split_def
      cong: if_cong split del: if_split)

lemma connect_finish_effect:
  assumes "connect_finish P w a e this s = (e', s')" "e = None \<Longrightarrow> owns_socket P A this s \<or> owns_none P A this s"
    "e \<noteq> None \<Longrightarrow> owns_socket P A this s \<or> owns_none P A this s"
  shows "(e' = None \<longleftrightarrow> e = None \<and> owns_socket P A this s) \<and> (owns_socket P A this s \<longrightarrow> owns_socket P A this s') \<and>
    (owns_none P A this s \<longrightarrow> owns_none P A this s') \<and> attempts P (ctl_log s') = attempts P (ctl_log s)"
proof -
  obtain c s1 where c: "ConvertString_host P w (m_host this) s = (c, s1)" by fastforce
  then have q: "only quiet s s1" using ConvertString_host_only [of s] by (metis snd_conv)
  have not_both: "owns_none P A this s \<Longrightarrow> \<not> owns_socket P A this s"
    by (simp add: owns_none_def owns_socket_def)
  have inv: "m_socket this = INVALID_SOCKET P \<longleftrightarrow> owns_none P A this s"
    using assms(2,3) by (cases e) (auto simp: owns_none_def owns_socket_def)
  show ?thesis
    using assms c q not_both inv owns_none_quiet [OF _ q] owns_socket_quiet [OF _ q] attempts_quiet [OF q]
    by (auto simp: connect_finish_def Let_def split: if_splits sum.splits)
qed

text \<open>
  Why connecting over a list of addresses has ended with an exception: all were refused and no socket is left;
  or after refusals it gave up at one before connecting to it; or it could not close the socket of a refused one.
\<close>

definition unreachable ::
  "ctl_platform \<Rightarrow> handle set \<Rightarrow> DWORD \<Rightarrow> ADDRINFO list \<Rightarrow> ctl \<Rightarrow> SocketObject \<Rightarrow> ctl \<Rightarrow> (addr \<times> bool) list \<Rightarrow> bool" where
  "unreachable P A ttl as s this' s' ats \<longleftrightarrow>
     ats = refusals as \<and> owns_none P A this' s' \<or>
     (\<exists>pre a post. as = pre @ a # post \<and>
       (ats = refusals pre \<and> happened s s' (broke_down P ttl a) \<and> (owns_none P A this' s' \<or> owns_socket P A this' s') \<or>
        ats = refusals (pre @ [a]) \<and> happened s s' (close_failed P) \<and> owns_socket P A this' s'))"

lemma connect_finish_only: "only (\<lambda>_. True) s (snd (connect_finish P w a e this s))"
proof -
  have c: "only (\<lambda>_. True) s (snd (ConvertString_host P w h s))" for h
    by (rule only_mono [OF ConvertString_host_only]) simp
  have f: "only (\<lambda>_. True) t u \<Longrightarrow> only (\<lambda>_. True) t (ctl_do w (FreeAddrInfoW a) u)" for t u
    by (erule only.ok_trans)
      (auto simp: only_def ctl_do_eq intro!: exI [of _ "[(FreeAddrInfoW a, w (ctl_log u) (FreeAddrInfoW a))]"])
  show ?thesis
    using c by (auto simp: connect_finish_def Let_def split_def only.ok_refl intro!: f split: sum.split)
qed

lemma connect_effect:
  assumes api: "sockets_api P w" and start: "sockets P (ctl_log s) = (A, R, True)"
    and run: "Socket_Connect P w this s = (e, this', s')"
  shows "\<exists>ats. attempts P (ctl_log s') = attempts P (ctl_log s) @ ats \<and>
    (if e = None
     then \<exists>pre a post. addresses (w (ctl_log s) (host_call this)) = pre @ a # post \<and>
       ats = refusals pre @ [(ai_addr a, True)] \<and> owns_socket P A this' s' \<and> m_addressFamily this' = ai_family a
     else if ret_status (w (ctl_log s) (host_call this)) \<noteq> 0
     then ats = [] \<and> this' = this \<and> (\<exists>R'. sockets P (ctl_log s') = (A, R', True))
     else unreachable P A (m_preconnectTTL this) (addresses (w (ctl_log s) (host_call this))) s this' s' ats)"
proof -
  let ?r = "w (ctl_log s) (host_call this)"
  define s1 where "s1 = snd (ctl_ask w (host_call this) s)"
  have s1: "sockets P (ctl_log s1) = (A, R, True)" "attempts P (ctl_log s1) = attempts P (ctl_log s)"
    using start by (simp_all add: s1_def ctl_ask_eq sockets.run_snoc host_call_def)
  show ?thesis
  proof (cases "ret_status ?r = 0")
    case False
    obtain x s2 where x: "WinSockError P w ''Connect'' ''GetAddrInfoW() failed'' (ret_status ?r) s1 = (x, s2)" by fastforce
    then have q: "only quiet s1 s2" using error_quiet [of s1] by (metis snd_conv)
    have "e = Some (Thrown x)" "this' = this" "s' = s2"
      using run False x by (simp_all add: Socket_Connect_eq split_def Let_def s1_def [symmetric])
    then show ?thesis using False s1 quiet_sockets [OF q] attempts_quiet [OF q] by simp
  next
    case True
    let ?o = "this\<lparr>m_socket := INVALID_SOCKET P\<rparr>"
    obtain e2 o2 s2 where loop: "connect_loop P w (addresses ?r) ?o s1 = (e2, o2, s2)" by (metis prod_cases3)
    have this': "o2 = this'" and fin: "connect_finish P w (ret_out ?r) e2 o2 s2 = (e, s')"
      using run True loop by (auto simp: Socket_Connect_eq split_def Let_def s1_def [symmetric])
    have "owns_none P A ?o s1" using s1 by (simp add: owns_none_def)
    from connect_loop_effect [OF api loop this] obtain ats where
      tried: "tried P A (m_preconnectTTL this) s1 (addresses ?r) e2 o2 s2 ats"
        and ats: "attempts P (ctl_log s2) = attempts P (ctl_log s) @ ats"
      using s1(2) by auto
    have own: "owns_socket P A o2 s2 \<or> owns_none P A o2 s2" using tried by cases auto
    have asked: "only (\<lambda>_. True) s s1" by (simp add: s1_def only_ask)
    have finished: "only (\<lambda>_. True) s2 s'" using connect_finish_only [of s2 P w "ret_out ?r" e2 o2] fin by simp
    have between: "happened s1 s2 Q \<Longrightarrow> happened s s' Q" for Q
      using happened_after [OF happened_before [OF asked] finished] .
    note fin = connect_finish_effect [OF fin own own]
    have not_both: "owns_none P A o2 s2 \<Longrightarrow> \<not> owns_socket P A o2 s2"
      by (simp add: owns_none_def owns_socket_def)
    from tried show ?thesis
    proof cases
      case all_refused
      then show ?thesis using True fin not_both ats this' by (auto simp: unreachable_def)
    next
      case (accepted a pre post)
      then show ?thesis using fin ats this' by auto
    next
      case (gave_up a pre post x)
      then show ?thesis using True fin ats this' between by (auto simp: unreachable_def)
    next
      case (not_closed pre a post x)
      then have "unreachable P A (m_preconnectTTL this) (addresses ?r) s this' s' ats"
        using fin this' between unfolding unreachable_def
        by (intro disjI2 exI [of _ pre] exI [of _ a] exI [of _ post]) auto
      then show ?thesis using True fin not_closed(2) ats by auto
    qed
  qed
qed

text \<open>What the destructor and \<^verbatim>\<open>Close\<close> do with the socket of an object.\<close>

lemma Socket_Close_effect:
  assumes "Socket_Close P w this s = (this', s')"
  shows "m_socket this' \<in> {NULL, INVALID_SOCKET P} \<and>
    (owns_none P A this s \<longrightarrow> owns_none P A this' s') \<and>
    (owns_socket P A this s \<longrightarrow> (\<exists>B R. sockets P (ctl_log s') = (B, R, True) \<and> B \<subseteq> insert NULL (A \<union> R) \<and> A \<subseteq> B))"
  using assms
  by (auto simp: Socket_Close_def owns_none_def owns_socket_def ctl_do_eq sockets.run_snoc
      split: if_splits)

text \<open>The lists of addresses a trace obtains and frees.\<close>

fun obtains_list :: "addr \<Rightarrow> ctl_call \<times> ctl_ret \<Rightarrow> bool" where
  "obtains_list a (GetAddrInfoW h p, r) = (ret_status r = 0 \<and> ret_out r = a)"
| "obtains_list a _ = False"

fun frees_list :: "addr \<Rightarrow> ctl_call \<times> ctl_ret \<Rightarrow> bool" where
  "frees_list a (FreeAddrInfoW a', r) = (a' = a)"
| "frees_list a _ = False"

text \<open>The calls that are about sockets, or about nothing this component keeps.\<close>

fun socket_call :: "ctl_call \<Rightarrow> bool" where
  "socket_call (Socket f t p) = True"
| "socket_call (Connect h a l) = True"
| "socket_call (Closesocket h) = True"
| "socket_call (Getsockopt h l a) = True"
| "socket_call (Setsockopt h l a v n) = True"
| "socket_call c = quiet c"

lemma quiet_socket_call: "quiet c \<Longrightarrow> socket_call c"
  by (cases c) simp_all

lemma on_socket_socket_call: "on_socket h c \<Longrightarrow> socket_call c"
  by (cases c) simp_all

lemma throw_last_socket_call: "only socket_call s (snd (throw_last P w site m s))"
  by (rule only_mono [OF throw_last_only]) (rule quiet_socket_call)

lemma SetSocketTTL_socket_call: "only socket_call s (snd (SetSocketTTL P w ttl this s))"
  by (rule only_mono [OF SetSocketTTL_only]) (rule on_socket_socket_call)

lemma error_socket_call: "only socket_call s (snd (WinSockError P w site m c s))"
  by (rule only_mono [OF error_quiet]) (rule quiet_socket_call)

lemma convert_socket_call: "only socket_call s (snd (ConvertString_host P w str s))"
  by (rule only_mono [OF ConvertString_host_only]) (rule quiet_socket_call)

lemma connect_attempt_socket_call: "only socket_call s (snd (snd (connect_attempt P w a this s)))"
proof -
  have ask: "socket_call c \<Longrightarrow> only socket_call t u \<Longrightarrow> only socket_call t (snd (ctl_ask w c u))" for c t u
    by (erule only.ok_trans) (rule only_ask)
  have last: "only socket_call t u \<Longrightarrow> only socket_call t (snd (throw_last P w site m u))" for t u site m
    by (erule only.ok_trans) (rule throw_last_socket_call)
  have ttl: "only socket_call t u \<Longrightarrow> only socket_call t (snd (SetSocketTTL P w n h u))" for t u n h
    by (erule only.ok_trans) (rule SetSocketTTL_socket_call)
  show ?thesis
    by (auto simp: connect_attempt_def Let_def split_def only.ok_refl intro!: ask last ttl)
qed

lemma connect_loop_socket_call: "only socket_call s (snd (snd (connect_loop P w as this s)))"
proof (induction as arbitrary: this s)
  case (Cons a as)
  obtain e o1 s1 where 1: "connect_attempt P w a this s = (e, o1, s1)" by (metis prod_cases3)
  then have s1: "only socket_call s s1" using connect_attempt_socket_call [of s] by (metis snd_conv)
  show ?case using 1 s1 only.ok_trans [OF s1 Cons.IH [of s1 o1]]
    by (auto simp: only.ok_refl split: option.split)
qed (simp add: only.ok_refl)

section \<open>Properties\<close>

text \<open>
  C14: When \<^verbatim>\<open>socket\<close> never hands out a handle that is open, connecting from any state whose sockets
  were used properly tries the addresses of the host in their order and stops at the first one
  that accepts. It comes back normally exactly when one accepted, and then the object has the
  connected socket, which is new, its address family, and no other socket was left open. An exception
  has one of four causes: the addresses could not be obtained, and nothing was done; every address was
  refused, and no socket is left; at some address, all before it having been refused, no socket could
  be had or its TTL, if one was asked for, could not be set; or the socket of a refused address could not be
  closed. It leaves at most the socket the object still has.
\<close>

theorem connect_outcome:
  assumes api: "sockets_api P w" and start: "sockets P (ctl_log s) = (A, R, True)"
    and run: "Socket_Connect P w this s = (e, this', s')"
  shows "\<exists>ats. attempts P (ctl_log s') = attempts P (ctl_log s) @ ats \<and>
    (if e = None
     then \<exists>pre a post. addresses (w (ctl_log s) (host_call this)) = pre @ a # post \<and>
       ats = refusals pre @ [(ai_addr a, True)] \<and> owns_socket P A this' s' \<and> m_addressFamily this' = ai_family a
     else if ret_status (w (ctl_log s) (host_call this)) \<noteq> 0
     then ats = [] \<and> this' = this \<and> (\<exists>R'. sockets P (ctl_log s') = (A, R', True))
     else unreachable P A (m_preconnectTTL this) (addresses (w (ctl_log s) (host_call this))) s this' s' ats)"
  using assms by (rule connect_effect)

text \<open>A handle that is greater than all that were handed out.\<close>

fun handed_out :: "ctl_call \<times> ctl_ret \<Rightarrow> nat" where
  "handed_out (Socket f t p, r) = ret_out r"
| "handed_out (FwpmEngineOpen0 a b, r) = ret_out r"
| "handed_out _ = 0"

definition unused :: "ctl_trace \<Rightarrow> nat" where
  "unused tr = Suc (sum_list (map handed_out tr))"

lemma open_sockets_used: "h \<in> fst (sockets P tr) \<Longrightarrow> h < unused tr"
proof (induction tr rule: rev_induct)
  case (snoc e tr)
  obtain c r where e: "e = (c, r)" by fastforce
  obtain A R ok where m: "sockets P tr = (A, R, ok)" by (metis prod_cases3)
  have "h \<in> A \<or> h \<le> handed_out e"
    using snoc.prems unfolding e by (cases c) (auto simp: sockets.run_snoc m split: if_splits)
  then show ?case using snoc.IH m by (auto simp: unused_def)
qed (simp add: sockets.run_Nil)

text \<open>A network with two addresses for every host, of which the second one accepts.\<close>

definition two_hosts :: ctl_world where
  "two_hosts tr c = (case c of
       GetAddrInfoW h p \<Rightarrow> (answer 0 500)\<lparr>ret_addrs :=
         [\<lparr>ai_family = 2, ai_socktype = 1, ai_protocol = 6, ai_addr = 510, ai_addrlen = 16\<rparr>,
          \<lparr>ai_family = 23, ai_socktype = 1, ai_protocol = 6, ai_addr = 520, ai_addrlen = 28\<rparr>]\<rparr>
     | Socket f t p \<Rightarrow> answer 0 (min (unused tr) (2 ^ 64 - 1))
     | Connect h a l \<Rightarrow> answer (if a = 520 then 0 else -1) 0
     | _ \<Rightarrow> answer 0 0)"

lemma two_hosts_api: "sockets_api sample_ctl two_hosts"
proof -
  have "INVALID_SOCKET sample_ctl = 2 ^ 64 - 1" by (simp add: sample_ctl_def)
  then show ?thesis
    using open_sockets_used [where P = sample_ctl]
    by (force simp: sockets_api_def Let_def two_hosts_def answer_def min_def unused_def)
qed

theorem connect_outcome_witness:
  "\<exists>this' s'. Socket_Connect sample_ctl two_hosts (Socket_to sample_ctl (wide ''h'') 80) fresh_ctl = (None, this', s') \<and>
     attempts sample_ctl (ctl_log s') = [(510, False), (520, True)] \<and> owns_socket sample_ctl {} this' s'"
proof -
  let ?r = "Socket_Connect sample_ctl two_hosts (Socket_to sample_ctl (wide ''h'') 80) fresh_ctl"
  have "fst ?r = None" "attempts sample_ctl (ctl_log (snd (snd ?r))) = [(510, False), (520, True)]"
    by (simp_all add: Socket_Connect_def Socket_to_def Socket_default_def fresh_ctl_def ctl_simps two_hosts_def
        sample_ctl_def connect_attempt_def answer_def unused_def)
  moreover have "?r = (fst ?r, fst (snd ?r), snd (snd ?r))" by simp
  moreover have "sockets sample_ctl (ctl_log fresh_ctl) = ({}, {}, True)" by (simp add: fresh_ctl_def sockets.run_Nil)
  ultimately show ?thesis
    using connect_outcome [OF two_hosts_api, of fresh_ctl "{}" "{}" "Socket_to sample_ctl (wide ''h'') 80" "fst ?r"
        "fst (snd ?r)" "snd (snd ?r)"] by (metis (no_types, lifting))
qed

text \<open>
  C20: Whatever the network answers, on every way out of \<^verbatim>\<open>Connect\<close> (normal, an error of \<^verbatim>\<open>socket\<close>, of the
  options, of closing, of converting the host's name for the message) the list of addresses it
  obtained has been freed, exactly once.
\<close>

theorem connect_frees_addresses:
  "\<exists>tr. ctl_log (snd (snd (Socket_Connect P w this s))) = ctl_log s @ tr \<and>
     (\<forall>a. a \<noteq> NULL \<longrightarrow> occurrences (obtains_list a) tr = occurrences (frees_list a) tr)"
proof -
  let ?r = "w (ctl_log s) (host_call this)"
  define s1 where "s1 = snd (ctl_ask w (host_call this) s)"
  have s1: "ctl_log s1 = ctl_log s @ [(host_call this, ?r)]" by (simp add: s1_def ctl_ask_eq)
  have neither: "occurrences (obtains_list a) tr = 0 \<and> occurrences (frees_list a) tr = 0"
    if "list_all (socket_call \<circ> fst) tr" for a tr
    using that
  proof (induction tr)
    case (Cons e tr)
    then show ?case by (cases e; cases "fst e") auto
  qed simp
  show ?thesis
  proof (cases "ret_status ?r = 0")
    case False
    obtain x s2 where x: "WinSockError P w ''Connect'' ''GetAddrInfoW() failed'' (ret_status ?r) s1 = (x, s2)" by fastforce
    have "only socket_call s1 s2"
      using error_socket_call [of s1] x by (metis snd_conv)
    then obtain tr where tr: "ctl_log s2 = ctl_log s1 @ tr" "list_all (socket_call \<circ> fst) tr" by (auto simp: only_def)
    have "snd (snd (Socket_Connect P w this s)) = s2"
      using False x by (simp add: Socket_Connect_eq split_def Let_def s1_def [symmetric])
    then show ?thesis using tr s1 False neither [OF tr(2)] by (auto simp: host_call_def)
  next
    case True
    let ?o = "this\<lparr>m_socket := INVALID_SOCKET P\<rparr>"
    obtain e2 o2 s2 where loop: "connect_loop P w (addresses ?r) ?o s1 = (e2, o2, s2)" by (metis prod_cases3)
    have loop': "only socket_call s1 s2" using loop connect_loop_socket_call [of s1] by (metis snd_conv)
    define s3 where "s3 = (if e2 = None \<and> m_socket o2 = INVALID_SOCKET P then snd (ConvertString_host P w (m_host o2) s2) else s2)"
    have "only socket_call s2 s3"
      using convert_socket_call [of s2] by (simp add: s3_def only.ok_refl)
    from only.ok_trans [OF loop' this] obtain tr where
      tr: "ctl_log s3 = ctl_log s1 @ tr" "list_all (socket_call \<circ> fst) tr" by (auto simp: only_def)
    have "snd (snd (Socket_Connect P w this s)) = (if ret_out ?r \<noteq> NULL then ctl_do w (FreeAddrInfoW (ret_out ?r)) s3 else s3)"
      using True loop
      by (auto simp: Socket_Connect_eq split_def Let_def s1_def [symmetric] connect_finish_def s3_def split: sum.split)
    then show ?thesis using tr s1 True neither [OF tr(2)] by (auto simp: host_call_def ctl_do_eq)
  qed
qed

theorem connect_frees_addresses_witness:
  "\<exists>tr. ctl_log (snd (snd (Socket_Connect sample_ctl two_hosts (Socket_to sample_ctl (wide ''h'') 80) fresh_ctl))) = tr \<and>
     occurrences (frees_list 500) tr = 1"
proof -
  let ?tr = "ctl_log (snd (snd (Socket_Connect sample_ctl two_hosts (Socket_to sample_ctl (wide ''h'') 80) fresh_ctl)))"
  have "occurrences (obtains_list 500) ?tr = 1"
    by (simp add: Socket_Connect_def Socket_to_def Socket_default_def fresh_ctl_def ctl_simps two_hosts_def
        sample_ctl_def connect_attempt_def answer_def unused_def)
  moreover have "ctl_log fresh_ctl = []" by (simp add: fresh_ctl_def)
  ultimately show ?thesis
    using connect_frees_addresses [of sample_ctl two_hosts "Socket_to sample_ctl (wide ''h'') 80" fresh_ctl] by auto
qed

text \<open>
  The message for a host that cannot be reached names the host, so its name is converted first. When the
  conversions are those the documentation describes, that fails.
\<close>

definition converts_as_documented :: "ctl_world \<Rightarrow> bool" where
  "converts_as_documented w \<longleftrightarrow> (\<exists>dec. \<forall>start. code_page_api dec (conversions w start))"

lemma ConvertString_host_fails:
  assumes "converts_as_documented w" "str \<noteq> []"
  shows "\<exists>text. fst (ConvertString_host P w str s) = Inl (Thrown (Win32_error ERROR_INVALID_FLAGS text))"
proof -
  obtain dec where "code_page_api dec (conversions w (ctl_log s))"
    using assms(1) by (auto simp: converts_as_documented_def)
  from ConvertString_wide_api [OF this assms(2), of "[]"] show ?thesis
    by (auto simp: ConvertString_host_def Let_def split_def Win32Error_code_def)
qed

text \<open>
  C40: When \<^verbatim>\<open>Connect\<close> has the addresses of a host that has a name, every one of them refuses and nothing
  else fails (a socket can be had, its options set and it can be closed), then the exception is not the
  one that says which server could not be reached: the name is converted for that message with a flag that
  UTF-8 does not allow, so by the documentation of the call the exception is that of the conversion, with the code
  \<^verbatim>\<open>ERROR_INVALID_FLAGS\<close>. All addresses have been tried by then.
\<close>

theorem refused_connection_is_misreported:
  assumes conv: "converts_as_documented w" and api: "sockets_api P w" "sockets P (ctl_log s) = (A, R, True)"
    and named: "m_host this \<noteq> []" "ret_status (w (ctl_log s) (host_call this)) = 0"
    and run: "Socket_Connect P w this s = (Some x, this', s')"
    and rest: "\<And>a. \<not> happened s s' (broke_down P (m_preconnectTTL this) a)" "\<not> happened s s' (close_failed P)"
  shows "(\<exists>text. x = Thrown (Win32_error ERROR_INVALID_FLAGS text)) \<and>
    attempts P (ctl_log s') = attempts P (ctl_log s) @ refusals (addresses (w (ctl_log s) (host_call this)))"
proof
  let ?r = "w (ctl_log s) (host_call this)" and ?o = "this\<lparr>m_socket := INVALID_SOCKET P\<rparr>"
  from connect_effect [OF api run] show "attempts P (ctl_log s') = attempts P (ctl_log s) @ refusals (addresses ?r)"
    using named(2) rest by (auto simp: unreachable_def)
  define s1 where "s1 = snd (ctl_ask w (host_call this) s)"
  obtain e2 o2 s2 where loop: "connect_loop P w (addresses ?r) ?o s1 = (e2, o2, s2)" by (metis prod_cases3)
  then have fin: "connect_finish P w (ret_out ?r) e2 o2 s2 = (Some x, s')"
    using run named(2) by (auto simp: Socket_Connect_eq split_def Let_def s1_def [symmetric] prod_eq_iff)
  have "only (\<lambda>_. True) s s1" by (simp add: s1_def only_ask)
  moreover have "only (\<lambda>_. True) s2 s'" using connect_finish_only [of s2 P w "ret_out ?r" e2 o2] fin by simp
  ultimately have between: "happened s1 s2 Q \<Longrightarrow> happened s s' Q" for Q
    using happened_after [OF happened_before] by blast
  have "owns_none P A ?o s1" using api(2) by (simp add: owns_none_def s1_def ctl_ask_eq sockets.run_snoc host_call_def)
  from connect_loop_effect [OF api(1) loop this]
  obtain ats where tried: "tried P A (m_preconnectTTL this) s1 (addresses ?r) e2 o2 s2 ats" and host: "m_host o2 = m_host this"
    by auto
  from tried show "\<exists>text. x = Thrown (Win32_error ERROR_INVALID_FLAGS text)"
  proof cases
    case all_refused
    then show ?thesis
      using fin ConvertString_host_fails [OF conv, of "m_host o2" P s2] named(1) host
      by (auto simp: connect_finish_def Let_def owns_none_def split: sum.splits prod.splits)
  next
    case (accepted a pre post)
    then show ?thesis using fin by (simp add: connect_finish_def owns_socket_def)
  qed (use between rest in blast)+
qed

text \<open>A network that refuses every connection, with conversions as they are documented.\<close>

definition refusing :: ctl_world where
  "refusing tr c = (case c of
       Connect h a l \<Rightarrow> answer (-1) 0
     | Convert c \<Rightarrow> (answer 0 0)\<lparr>ret_conv := ascii_world [] c\<rparr>
     | _ \<Rightarrow> two_hosts tr c)"

lemma refusing_converts: "converts_as_documented refusing"
proof -
  have "conversions refusing start = (\<lambda>tr c. ascii_world [] c)" for start
    by (simp add: conversions_def refusing_def fun_eq_iff)
  moreover have "code_page_api (map ucast) (\<lambda>tr c. ascii_world [] c)"
    by (simp add: code_page_api_def ascii_world_def Let_def)
  ultimately show ?thesis unfolding converts_as_documented_def by metis
qed

lemma refusing_api: "sockets_api sample_ctl refusing"
  using two_hosts_api by (simp add: sockets_api_def refusing_def)

theorem refused_connection_is_misreported_witness:
  "\<exists>text this' s'. Socket_Connect sample_ctl refusing (Socket_to sample_ctl (wide ''h'') 80) fresh_ctl =
       (Some (Thrown (Win32_error 1004 text)), this', s') \<and>
     attempts sample_ctl (ctl_log s') = [(510, False), (520, False)]"
proof -
  let ?o = "Socket_to sample_ctl (wide ''h'') 80"
  let ?r = "Socket_Connect sample_ctl refusing ?o fresh_ctl" and ?s' = "snd (snd (Socket_Connect sample_ctl refusing ?o fresh_ctl))"
  note defs = Socket_Connect_def Socket_to_def Socket_default_def fresh_ctl_def ctl_simps refusing_def two_hosts_def
    sample_ctl_def connect_attempt_def answer_def unused_def wide_def ConvertString_host_def ConvertString_wide_def
    conversions_def converted_def ascii_world_def WC_NO_BEST_FIT_CHARS_def WC_ERR_INVALID_CHARS_def
  have fails: "fst ?r \<noteq> None" 
    by (simp add: defs Let_def split_def Win32Error_code_def)
  then obtain x where x: "?r = (Some x, fst (snd ?r), ?s')" by (metis option.collapse prod.collapse)
  have "list_all (\<lambda>e. \<not> close_failed sample_ctl e \<and> (\<forall>a. \<not> broke_down sample_ctl 0 a e)) (ctl_log ?s')"
    by (simp add: defs Let_def split_def Win32Error_code_def TranslateErrorCode_def FormatCode_narrow_def)
  moreover have "happened fresh_ctl ?s' Q \<longleftrightarrow> (\<exists>e \<in> set (ctl_log ?s'). Q e)" for Q
    by (simp add: happened_def fresh_ctl_def)
  ultimately have none: "\<not> happened fresh_ctl ?s' (broke_down sample_ctl (m_preconnectTTL ?o) a)"
    "\<not> happened fresh_ctl ?s' (close_failed sample_ctl)" for a
    by (auto simp: list_all_iff Socket_to_def Socket_default_def)
  have start: "sockets sample_ctl (ctl_log fresh_ctl) = ({}, {}, True)" by (simp add: fresh_ctl_def sockets.run_Nil)
  have named: "m_host ?o \<noteq> []" "ret_status (refusing (ctl_log fresh_ctl) (host_call ?o)) = 0"
    by (simp_all add: Socket_to_def wide_def host_call_def refusing_def two_hosts_def answer_def)
  have "addresses (refusing (ctl_log fresh_ctl) (host_call ?o)) =
      [\<lparr>ai_family = 2, ai_socktype = 1, ai_protocol = 6, ai_addr = 510, ai_addrlen = 16\<rparr>,
       \<lparr>ai_family = 23, ai_socktype = 1, ai_protocol = 6, ai_addr = 520, ai_addrlen = 28\<rparr>]"
    by (simp add: addresses_def host_call_def refusing_def two_hosts_def answer_def)
  moreover obtain msg where msg: "x = Thrown (Win32_error 1004 msg)"
    and tried: "attempts sample_ctl (ctl_log ?s') =
      attempts sample_ctl (ctl_log fresh_ctl) @ refusals (addresses (refusing (ctl_log fresh_ctl) (host_call ?o)))"
    using refused_connection_is_misreported [OF refusing_converts refusing_api start named x none]
    by (auto simp: ERROR_INVALID_FLAGS_def)
  ultimately have "attempts sample_ctl (ctl_log ?s') = [(510, False), (520, False)]" by (simp add: fresh_ctl_def)
  then show ?thesis using x unfolding msg by blast
qed

text \<open>
  Connecting an object that already has an open socket, and coming back normally, gives it a new
  one and leaves the old one open with nothing that could still close it.
\<close>

theorem reconnecting_leaks_the_socket:
  assumes "sockets_api P w" "sockets P (ctl_log s) = (A, R, True)" "m_socket this \<in> A"
    and "Socket_Connect P w this s = (None, this', s')"
  shows "m_socket this' \<noteq> m_socket this \<and> m_socket this \<in> fst (sockets P (ctl_log s'))"
  using connect_effect [OF assms(1,2,4)] assms(3) by (auto simp: owns_socket_def)

text \<open>
  When the system receives no more than it was asked for and says how much, \<^verbatim>\<open>Receive\<close> returns
  exactly the bytes that arrived, so at most as many as were asked for; an error count is an
  exception.
\<close>

theorem receive_returns_what_arrived:
  assumes "valid_socket P this" "n \<noteq> 0" and r: "r = w (ctl_log s) (Recv (m_socket this) n)"
    and count: "0 \<le> sint (ret_status r) \<longrightarrow> length (ret_bytes r) = unat (ret_status r) \<and> ret_status r \<le> n"
  shows "if 0 \<le> sint (ret_status r)
    then fst (Socket_Receive P w n this s) = Inr (ret_bytes r) \<and> length (ret_bytes r) \<le> unat n
    else \<exists>c t. fst (Socket_Receive P w n this s) = Inl (Thrown (WinSock_error c t))"
proof (cases "0 \<le> sint (ret_status r)")
  case True
  then have "length (ret_bytes r) = unat (ret_status r)" "unat (ret_status r) \<le> unat n"
    using count by (simp_all add: word_le_nat_alt)
  then show ?thesis
    using assms(1,2) True by (simp add: Socket_Receive_def Let_def split_def r [symmetric] fill_buffer_def)
next
  case False
  then show ?thesis
    using assms(1,2)
    by (auto simp: Socket_Receive_def Let_def split_def r [symmetric] throw_last_def WinSockError_def)
qed

text \<open>The object above connects a second time.\<close>

theorem reconnecting_leaks_the_socket_witness:
  "\<exists>this' s'. Socket_Connect sample_ctl two_hosts ((Socket_to sample_ctl (wide ''h'') 80)\<lparr>m_socket := 5\<rparr>)
       (fresh_ctl\<lparr>ctl_log := [(Socket 2 1 6, answer 0 5)]\<rparr>) = (None, this', s') \<and>
     m_socket this' \<noteq> 5 \<and> 5 \<in> fst (sockets sample_ctl (ctl_log s'))"
proof -
  let ?o = "(Socket_to sample_ctl (wide ''h'') 80)\<lparr>m_socket := 5\<rparr>"
  let ?s = "fresh_ctl\<lparr>ctl_log := [(Socket 2 1 6, answer 0 5)]\<rparr>"
  let ?r = "Socket_Connect sample_ctl two_hosts ?o ?s"
  have "fst ?r = None"
    by (simp add: Socket_Connect_def Socket_to_def Socket_default_def fresh_ctl_def ctl_simps two_hosts_def
        sample_ctl_def connect_attempt_def answer_def unused_def)
  then have "?r = (None, fst (snd ?r), snd (snd ?r))" by (simp add: prod_eq_iff)
  moreover have "sockets sample_ctl (ctl_log ?s) = ({5}, {}, True)"
    by (simp add: sockets_def sample_ctl_def answer_def)
  ultimately show ?thesis
    using reconnecting_leaks_the_socket [OF two_hosts_api, of ?s "{5}" "{}" ?o "fst (snd ?r)" "snd (snd ?r)"]
    by (metis (no_types, lifting) SocketObject.select_convs(3) SocketObject.surjective SocketObject.update_convs(3) insertI1)
qed

theorem receive_returns_what_arrived_witness:
  "fst (Socket_Receive sample_ctl (\<lambda>_ _. (answer 2 0)\<lparr>ret_bytes := [7, 8]\<rparr>) 4
     ((Socket_to sample_ctl [] 80)\<lparr>m_socket := 5\<rparr>) fresh_ctl) = Inr [7, 8]"
  using receive_returns_what_arrived [of sample_ctl "(Socket_to sample_ctl [] 80)\<lparr>m_socket := 5\<rparr>" 4
      "(answer 2 0)\<lparr>ret_bytes := [7, 8]\<rparr>" "\<lambda>_ _. (answer 2 0)\<lparr>ret_bytes := [7, 8]\<rparr>" fresh_ctl]
  by (simp add: valid_socket_def sample_ctl_def answer_def)

end
