(* ===== verification/Wfp_Session.thy ===== *)
theory Wfp_Session imports Error_Text "HOL-Library.Multiset" begin

text \<open>
  The session of the controller with the filter engine (\<^verbatim>\<open>src/WFPController/WindowsFilteringPlatform\<close>):
  the shared handle of the session, the callout objects, each of which shares it, and the engine
  object. A session is closed when its last owner lets go of it, so the owners are counted as
  \<^verbatim>\<open>std::shared_ptr\<close> counts them.
\<close>

section \<open>Shared session handles\<close>

text \<open>A pointer is null or names a control block. The deleter closes the session.\<close>

definition close_session :: "ctl_world \<Rightarrow> handle \<Rightarrow> ctl \<Rightarrow> ctl" where
  "close_session w engineHandle s =
     (let (r, s) = ctl_ask w (FwpmEngineClose0 engineHandle) s;
          status = (if ret_status r \<noteq> 0 then 1 else 0) :: DWORD
      in if status \<noteq> 0 then ctl_do w (Cout (''FwpmEngineClose0() failed '' @ hex status @ [CHR 0x0A])) s else s)"

definition sp_get :: "nat option \<Rightarrow> ctl \<Rightarrow> handle" where
  "sp_get p s = (case p of None \<Rightarrow> NULL | Some i \<Rightarrow> fst (blocks s ! i))"

definition sp_new :: "handle \<Rightarrow> ctl \<Rightarrow> nat option \<times> ctl" where
  "sp_new h s = (Some (length (blocks s)), s\<lparr>blocks := blocks s @ [(h, 1)]\<rparr>)"

definition sp_copy :: "nat option \<Rightarrow> ctl \<Rightarrow> ctl" where
  "sp_copy p s = (case p of None \<Rightarrow> s
     | Some i \<Rightarrow> s\<lparr>blocks := (blocks s)[i := (fst (blocks s ! i), snd (blocks s ! i) + 1)]\<rparr>)"

definition sp_release :: "ctl_world \<Rightarrow> nat option \<Rightarrow> ctl \<Rightarrow> ctl" where
  "sp_release w p s = (case p of None \<Rightarrow> s
     | Some i \<Rightarrow>
         let (h, n) = blocks s ! i; s = s\<lparr>blocks := (blocks s)[i := (h, n - 1)]\<rparr>
         in if n = 1 then close_session w h s else s)"

section \<open>Callouts\<close>

text \<open>The field \<open>m_engine\<close> is \<^verbatim>\<open>m_engineHandle\<close> of the class.\<close>

record CalloutObject =
  m_displayName :: wstring
  m_calloutKey :: GUID
  m_providerKey :: GUID
  m_applicableLayerKey :: GUID
  m_engine :: "nat option"
  m_calloutId :: ULONG
  m_flags :: ULONG

definition zero_GUID :: GUID where
  "zero_GUID = GUID 0 0 0 (replicate 8 0)"

definition Callout_default :: CalloutObject where
  "Callout_default = \<lparr>m_displayName = [], m_calloutKey = zero_GUID, m_providerKey = zero_GUID,
     m_applicableLayerKey = zero_GUID, m_engine = None, m_calloutId = 0, m_flags = 0\<rparr>"

definition delete_failed :: "DWORD \<Rightarrow> string" where
  "delete_failed status = ''FwpmCalloutDeleteByKey0() failed '' @ hex status @ [CHR 0x0A]"

definition Callout_Remove :: "ctl_world \<Rightarrow> CalloutObject \<Rightarrow> ctl \<Rightarrow> CalloutObject \<times> ctl" where
  "Callout_Remove w this s =
     (if m_calloutId this = 0 \<or> sp_get (m_engine this) s = NULL then (this, s)
      else
        let (r, s) = ctl_ask w (FwpmCalloutDeleteByKey0 (sp_get (m_engine this) s) (m_calloutKey this)) s;
            s = (if ret_status r \<noteq> 0
                 then ctl_do w (Cerr (delete_failed (ret_status r))) s else s)
        in (this\<lparr>m_calloutId := 0, m_engine := None\<rparr>, sp_release w (m_engine this) s))"

definition Callout_destructor :: "ctl_world \<Rightarrow> CalloutObject \<Rightarrow> ctl \<Rightarrow> ctl" where
  "Callout_destructor w this s = (let (this, s) = Callout_Remove w this s in sp_release w (m_engine this) s)"

text \<open>When the constructor's body throws, the members that are already there are destroyed.\<close>

definition Callout_construct ::
  "ctl_world \<Rightarrow> nat option \<Rightarrow> GUID \<Rightarrow> GUID \<Rightarrow> GUID \<Rightarrow> ULONG \<Rightarrow> wstring \<Rightarrow> ctl \<Rightarrow> (stop + CalloutObject) \<times> ctl" where
  "Callout_construct w engineHandle calloutKey providerKey applicableLayerKey flags displayName s =
     (let s = sp_copy engineHandle s in
      if sp_get engineHandle s = NULL
      then (Inl (Thrown (Invalid_argument ''Engine handle cannot be null'')), sp_release w engineHandle s)
      else (Inr \<lparr>m_displayName = displayName, m_calloutKey = calloutKey, m_providerKey = providerKey,
              m_applicableLayerKey = applicableLayerKey, m_engine = engineHandle, m_calloutId = 0, m_flags = flags\<rparr>, s))"

text \<open>The moved-from name is not read again. A move assignment lets go of the old handle.\<close>

definition Callout_Move ::
  "ctl_world \<Rightarrow> CalloutObject \<Rightarrow> CalloutObject \<Rightarrow> ctl \<Rightarrow> CalloutObject \<times> CalloutObject \<times> ctl" where
  "Callout_Move w this other s =
     (let (this, s) = Callout_Remove w this s;
          s = sp_release w (m_engine this) s;
          this = this\<lparr>m_displayName := m_displayName other, m_calloutKey := m_calloutKey other,
            m_providerKey := m_providerKey other, m_applicableLayerKey := m_applicableLayerKey other,
            m_engine := m_engine other, m_calloutId := m_calloutId other, m_flags := m_flags other\<rparr>
      in (this, other\<lparr>m_displayName := [], m_engine := None, m_calloutId := 0\<rparr>, s))"

text \<open>
  Moving into a new object: its handle is null and its other members are \<open>junk\<close>, so the call of
  \<^verbatim>\<open>Remove\<close> inside does nothing, whatever they are.
\<close>

definition Callout_move_constructor ::
  "ctl_world \<Rightarrow> CalloutObject \<Rightarrow> CalloutObject \<Rightarrow> ctl \<Rightarrow> CalloutObject \<times> CalloutObject \<times> ctl" where
  "Callout_move_constructor w junk other s = Callout_Move w (junk\<lparr>m_displayName := [], m_engine := None\<rparr>) other s"

definition throw_wfp :: "ctl_platform \<Rightarrow> ctl_world \<Rightarrow> string \<Rightarrow> string \<Rightarrow> DWORD \<Rightarrow> ctl \<Rightarrow> stop \<times> ctl" where
  "throw_wfp P w site message status s = (let (x, s) = WFPError P w site message status s in (Thrown x, s))"

definition no_engine :: "ctl_platform \<Rightarrow> string \<Rightarrow> stop" where
  "no_engine P f = Thrown (Invalid_argument (funcsig P f @ '': engineHandle''))"

definition Callout_Add :: "ctl_platform \<Rightarrow> ctl_world \<Rightarrow> CalloutObject \<Rightarrow> ctl \<Rightarrow> stop option \<times> CalloutObject \<times> ctl" where
  "Callout_Add P w this s =
     (if sp_get (m_engine this) s = NULL then (Some (no_engine P ''Callout::Add''), this, s)
      else
        let (r, s) = ctl_ask w (FwpmCalloutAdd0 (sp_get (m_engine this) s)
              \<lparr>callout_key = m_calloutKey this, callout_name = m_displayName this, callout_flags = m_flags this,
               callout_provider = m_providerKey this, callout_layer = m_applicableLayerKey this\<rparr>) s;
            this = this\<lparr>m_calloutId := of_nat (ret_out r)\<rparr>
        in if ret_status r \<noteq> 0
           then let (e, s) = throw_wfp P w ''Callout::Add'' ''Failed to add callout'' (ret_status r) s in (Some e, this, s)
           else (None, this, s))"

section \<open>The engine\<close>

record WFPEngine =
  m_engineHandle :: "nat option"
  m_addedProvider :: bool
  m_addedSublayer :: bool
  m_sublayerName :: wstring
  m_sublayerDescription :: wstring
  m_outboundIPv4FilterID :: "64 word"
  m_outboundIPv4FilterName :: wstring
  m_inboundICMPErrorFilterID :: "64 word"
  m_inboundICMPErrorFilterName :: wstring
  m_outboundICMPErrorFilterID :: "64 word"
  m_outboundICMPErrorFilterName :: wstring
  m_outboundTransportFilterID :: "64 word"
  m_outboundTransportFilterName :: wstring
  m_outboundIPv4Callout :: CalloutObject
  m_inboundICMPErrorCallout :: CalloutObject
  m_outboundICMPErrorCallout :: CalloutObject
  m_outboundTCPCallout :: CalloutObject
  m_contextId :: "64 word"

definition WFPEngine_default :: WFPEngine where
  "WFPEngine_default =
     \<lparr>m_engineHandle = None, m_addedProvider = False, m_addedSublayer = False,
      m_sublayerName = wide ''ToyCalloutDriverSublayer'', m_sublayerDescription = wide ''Just a toy sublayer'',
      m_outboundIPv4FilterID = 0, m_outboundIPv4FilterName = wide ''IPv4 outbound packet'',
      m_inboundICMPErrorFilterID = 0, m_inboundICMPErrorFilterName = wide ''Inbound ICMP error file'',
      m_outboundICMPErrorFilterID = 0, m_outboundICMPErrorFilterName = wide ''Outbound ICMP error filter'',
      m_outboundTransportFilterID = 0, m_outboundTransportFilterName = wide ''Outbound transport filter'',
      m_outboundIPv4Callout = Callout_default, m_inboundICMPErrorCallout = Callout_default,
      m_outboundICMPErrorCallout = Callout_default, m_outboundTCPCallout = Callout_default, m_contextId = 0\<rparr>"

type_synonym command = "(WFPEngine \<times> ctl) action"

definition engine_handle :: "WFPEngine \<times> ctl \<Rightarrow> handle" where
  "engine_handle es = sp_get (m_engineHandle (fst es)) (snd es)"

definition Engine_Close :: "ctl_world \<Rightarrow> WFPEngine \<times> ctl \<Rightarrow> WFPEngine \<times> ctl" where
  "Engine_Close w = (\<lambda>(e, s).
     if engine_handle (e, s) = NULL then (e, s)
     else
       let (c, s) = Callout_Remove w (m_outboundIPv4Callout e) s; e = e\<lparr>m_outboundIPv4Callout := c\<rparr>;
           (c, s) = Callout_Remove w (m_inboundICMPErrorCallout e) s; e = e\<lparr>m_inboundICMPErrorCallout := c\<rparr>;
           (c, s) = Callout_Remove w (m_outboundICMPErrorCallout e) s; e = e\<lparr>m_outboundICMPErrorCallout := c\<rparr>;
           (c, s) = Callout_Remove w (m_outboundTCPCallout e) s; e = e\<lparr>m_outboundTCPCallout := c\<rparr>
       in (e\<lparr>m_engineHandle := None\<rparr>, sp_release w (m_engineHandle e) s))"

definition OpenFilterEngine :: "ctl_platform \<Rightarrow> ctl_world \<Rightarrow> command" where
  "OpenFilterEngine P w = (\<lambda>(e, s).
     let (r, s) = ctl_ask w (FwpmEngineOpen0 (RPC_C_AUTHN_DEFAULT P) (FWPM_SESSION_FLAG_DYNAMIC P)) s in
     if ret_status r \<noteq> 0
     then let (x, s) = throw_wfp P w ''OpenFilterEngine'' ''FwpmProviderContextAdd3() failed'' (ret_status r) s
          in (Some x, e, s)
     else
       let (p, s) = sp_new (ret_out r) s;
           s = sp_release w (m_engineHandle e) s
       in (None, e\<lparr>m_engineHandle := p\<rparr>, s))"

definition RegisterProvider :: "ctl_platform \<Rightarrow> ctl_world \<Rightarrow> command" where
  "RegisterProvider P w = (\<lambda>(e, s).
     if engine_handle (e, s) = NULL then (Some (no_engine P ''RegisterProvider''), e, s)
     else
       let (r, s) = ctl_ask w (FwpmProviderAdd0 (engine_handle (e, s))
             \<lparr>provider_key = ProviderKey, provider_name = wide ''provider name'',
              provider_data = \<lparr>byte_size = sizeof_DWORD, byte_data = dword_bytes 321\<rparr>\<rparr>) s in
       if ret_status r \<noteq> 0
       then let (x, s) = throw_wfp P w ''RegisterProvider'' ''Failed to add provider'' (ret_status r) s in (Some x, e, s)
       else (None, e\<lparr>m_addedProvider := True\<rparr>, s))"

definition AddContext :: "ctl_platform \<Rightarrow> ctl_world \<Rightarrow> command" where
  "AddContext P w = (\<lambda>(e, s).
     let (r, s) = ctl_ask w GetCurrentProcessId s;
         currentProcessId = of_nat (ret_out r);
         byteBlob = \<lparr>byte_size = sizeof_DWORD, byte_data = dword_bytes currentProcessId\<rparr>;
         (r, s) = ctl_ask w (FwpmProviderContextAdd3 (engine_handle (e, s))
           \<lparr>context_key = ProviderContextKey, context_name = wide ''TODO: find a better name for this context'',
            context_provider = ProviderKey, context_type = FWPM_GENERAL_CONTEXT P, context_dataBuffer = byteBlob\<rparr>) s;
         e = e\<lparr>m_contextId := of_nat (ret_out r)\<rparr> in
     if ret_status r \<noteq> 0
     then let (x, s) = throw_wfp P w ''AddContext'' ''FwpmProviderContextAdd3() failed'' (ret_status r) s in (Some x, e, s)
     else (None, e, s))"

text \<open>
  The four methods that add a callout assign a new object to the member, destroy the temporary and
  add it.
\<close>

definition assign_and_add ::
  "ctl_platform \<Rightarrow> ctl_world \<Rightarrow> GUID \<Rightarrow> wfp_layer \<Rightarrow> string \<Rightarrow> nat option \<Rightarrow> CalloutObject \<Rightarrow> ctl \<Rightarrow>
   stop option \<times> CalloutObject \<times> ctl" where
  "assign_and_add P w key layer name engineHandle member s =
     (case Callout_construct w engineHandle key ProviderKey (layer_key P layer)
             (FWPM_CALLOUT_FLAG_USES_PROVIDER_CONTEXT P) (wide name) s of
        (Inl x, s) \<Rightarrow> (Some x, member, s)
      | (Inr tmp, s) \<Rightarrow>
          let (member, tmp, s) = Callout_Move w member tmp s;
              s = Callout_destructor w tmp s
          in Callout_Add P w member s)"

definition AddOutboundTCPPacketCallout :: "ctl_platform \<Rightarrow> ctl_world \<Rightarrow> command" where
  "AddOutboundTCPPacketCallout P w = (\<lambda>(e, s).
     let (x, c, s) = assign_and_add P w OutboundTCPCalloutKey OUTBOUND_TRANSPORT_V4 ''Outbound TCP Callout''
           (m_engineHandle e) (m_outboundTCPCallout e) s
     in (x, e\<lparr>m_outboundTCPCallout := c\<rparr>, s))"

definition AddOutboundIPv4PacketCallout :: "ctl_platform \<Rightarrow> ctl_world \<Rightarrow> command" where
  "AddOutboundIPv4PacketCallout P w = (\<lambda>(e, s).
     let (x, c, s) = assign_and_add P w OutboundIPv4CalloutKey OUTBOUND_IPPACKET_V4 ''Outbound IPv4 Callout''
           (m_engineHandle e) (m_outboundIPv4Callout e) s
     in (x, e\<lparr>m_outboundIPv4Callout := c\<rparr>, s))"

definition AddInboundICMPErrorCallout :: "ctl_platform \<Rightarrow> ctl_world \<Rightarrow> command" where
  "AddInboundICMPErrorCallout P w = (\<lambda>(e, s).
     let (x, c, s) = assign_and_add P w InboundICMPErrorCalloutKey INBOUND_ICMP_ERROR_V4 ''Inbound ICMP Error Callout''
           (m_engineHandle e) (m_inboundICMPErrorCallout e) s
     in (x, e\<lparr>m_inboundICMPErrorCallout := c\<rparr>, s))"

definition AddOutboundICMPErrorCallout :: "ctl_platform \<Rightarrow> ctl_world \<Rightarrow> command" where
  "AddOutboundICMPErrorCallout P w = (\<lambda>(e, s).
     let (x, c, s) = assign_and_add P w OutboundICMPErrorCalloutKey OUTBOUND_ICMP_ERROR_V4 ''Outbound ICMP Error Callout''
           (m_engineHandle e) (m_outboundICMPErrorCallout e) s
     in (x, e\<lparr>m_outboundICMPErrorCallout := c\<rparr>, s))"

definition AddInboundIPv4PacketCallout :: command where
  "AddInboundIPv4PacketCallout es = (None, es)"

definition AddCallouts :: "ctl_platform \<Rightarrow> ctl_world \<Rightarrow> command" where
  "AddCallouts P w es =
     (if engine_handle es = NULL then (Some (no_engine P ''AddCallouts''), es)
      else in_order [AddOutboundTCPPacketCallout P w, AddOutboundIPv4PacketCallout P w, AddInboundICMPErrorCallout P w,
             AddOutboundICMPErrorCallout P w, AddInboundIPv4PacketCallout] es)"

definition AddSublayer :: "ctl_platform \<Rightarrow> ctl_world \<Rightarrow> command" where
  "AddSublayer P w = (\<lambda>(e, s).
     if engine_handle (e, s) = NULL then (Some (no_engine P ''AddSublayer''), e, s)
     else
       let (r, s) = ctl_ask w (FwpmSubLayerAdd0 (engine_handle (e, s))
             \<lparr>sublayer_key = SublayerKey, sublayer_name = m_sublayerName e,
              sublayer_description = m_sublayerDescription e, sublayer_flags = 0, sublayer_provider = ProviderKey,
              sublayer_weight = FWP_EMPTY P\<rparr>) s in
       if ret_status r \<noteq> 0
       then let (x, s) = throw_wfp P w ''AddSublayer'' ''FwpmSubLayerAdd0() failed'' (ret_status r) s in (Some x, e, s)
       else (None, e\<lparr>m_addedSublayer := True\<rparr>, s))"

text \<open>The reference parameter for the filter's identifier is handed in and out.\<close>

definition AddFilter ::
  "ctl_platform \<Rightarrow> ctl_world \<Rightarrow> nat option \<Rightarrow> wstring \<Rightarrow> GUID \<Rightarrow> GUID \<Rightarrow> GUID \<Rightarrow> ULONG \<Rightarrow> ULONG \<Rightarrow> FWPM_CONDITION list \<Rightarrow>
   64 word \<Rightarrow> ctl \<Rightarrow> stop option \<times> 64 word \<times> ctl" where
  "AddFilter P w engineHandle filterName layerKey sublayerGuid calloutKey weightType action conditions filterId s =
     (if sp_get engineHandle s = NULL then (Some (no_engine P ''AddFilter''), filterId, s)
      else
        let (r, s) = ctl_ask w (FwpmFilterAdd0 (sp_get engineHandle s)
              \<lparr>filter_name = filterName, filter_flags = FWPM_FILTER_FLAG_HAS_PROVIDER_CONTEXT P,
               filter_provider = ProviderKey, filter_layer = layerKey, filter_sublayer = sublayerGuid,
               filter_weight = weightType, filter_conditions = conditions, filter_action = action,
               filter_callout = calloutKey, filter_context = ProviderContextKey\<rparr>) s;
            filterId = of_nat (ret_out r) in
        if ret_status r \<noteq> 0
        then let (x, s) = throw_wfp P w ''AddFilter'' ''FwpmFilterAdd0() failed'' (ret_status r) s in (Some x, filterId, s)
        else (None, filterId, s))"

definition add_IPv4_filter :: "ctl_platform \<Rightarrow> ctl_world \<Rightarrow> command" where
  "add_IPv4_filter P w = (\<lambda>(e, s).
     let (x, i, s) = AddFilter P w (m_engineHandle e) (m_outboundIPv4FilterName e) (layer_key P OUTBOUND_IPPACKET_V4)
           SublayerKey OutboundIPv4CalloutKey (FWP_EMPTY P) (FWP_ACTION_CALLOUT_INSPECTION P) []
           (m_outboundIPv4FilterID e) s
     in (x, e\<lparr>m_outboundIPv4FilterID := i\<rparr>, s))"

definition add_inbound_ICMP_filter :: "ctl_platform \<Rightarrow> ctl_world \<Rightarrow> command" where
  "add_inbound_ICMP_filter P w = (\<lambda>(e, s).
     let (x, i, s) = AddFilter P w (m_engineHandle e) (m_inboundICMPErrorFilterName e)
           (layer_key P INBOUND_ICMP_ERROR_V4) SublayerKey InboundICMPErrorCalloutKey (FWP_EMPTY P)
           (FWP_ACTION_CALLOUT_INSPECTION P) [] (m_inboundICMPErrorFilterID e) s
     in (x, e\<lparr>m_inboundICMPErrorFilterID := i\<rparr>, s))"

definition add_outbound_ICMP_filter :: "ctl_platform \<Rightarrow> ctl_world \<Rightarrow> command" where
  "add_outbound_ICMP_filter P w = (\<lambda>(e, s).
     let (x, i, s) = AddFilter P w (m_engineHandle e) (m_outboundICMPErrorFilterName e)
           (layer_key P OUTBOUND_ICMP_ERROR_V4) SublayerKey OutboundICMPErrorCalloutKey (FWP_EMPTY P)
           (FWP_ACTION_CALLOUT_INSPECTION P) [] (m_outboundICMPErrorFilterID e) s
     in (x, e\<lparr>m_outboundICMPErrorFilterID := i\<rparr>, s))"

definition add_transport_filter :: "ctl_platform \<Rightarrow> ctl_world \<Rightarrow> command" where
  "add_transport_filter P w = (\<lambda>(e, s).
     let conditions = [\<lparr>fieldKey = FWPM_CONDITION_IP_PROTOCOL P, matchType = FWP_MATCH_EQUAL P,
           conditionType = FWP_UINT8 P, conditionUint8 = 6\<rparr>];
         (x, i, s) = AddFilter P w (m_engineHandle e) (m_outboundTransportFilterName e)
           (layer_key P OUTBOUND_TRANSPORT_V4) SublayerKey OutboundTCPCalloutKey (FWP_EMPTY P)
           (FWP_ACTION_CALLOUT_INSPECTION P) conditions (m_outboundTransportFilterID e) s
     in (x, e\<lparr>m_outboundTransportFilterID := i\<rparr>, s))"

definition AddFilters :: "ctl_platform \<Rightarrow> ctl_world \<Rightarrow> command" where
  "AddFilters P w es =
     (if engine_handle es = NULL then (Some (no_engine P ''AddFilters''), es)
      else in_order [add_IPv4_filter P w, add_inbound_ICMP_filter P w, add_outbound_ICMP_filter P w,
             add_transport_filter P w] es)"

text \<open>The destructor closes, and then the members go in the reverse order of their declaration.\<close>

definition Engine_destructor :: "ctl_world \<Rightarrow> WFPEngine \<times> ctl \<Rightarrow> ctl" where
  "Engine_destructor w es =
     (let (e, s) = Engine_Close w es;
          s = Callout_destructor w (m_outboundTCPCallout e) s;
          s = Callout_destructor w (m_outboundICMPErrorCallout e) s;
          s = Callout_destructor w (m_inboundICMPErrorCallout e) s;
          s = Callout_destructor w (m_outboundIPv4Callout e) s
      in sp_release w (m_engineHandle e) s)"

text \<open>The class \<^verbatim>\<open>Filter\<close> has one method, the body of which is commented out.\<close>

definition Filter_Remove :: "ctl \<Rightarrow> ctl" where
  "Filter_Remove s = s"

section \<open>Open sessions and their owners\<close>

text \<open>
  Read off a trace: the sessions that are open, and whether every call so far was on an open one. From here on
  a session is open from the call that opened it to the one that hands it to \<^verbatim>\<open>FwpmEngineClose0\<close>, whatever
  that answers: the code never looks at it again. Adding a context may also be asked with the null handle, because \<^verbatim>\<open>AddContext\<close> does not test for it.
\<close>

fun session_step :: "handle set \<times> bool \<Rightarrow> ctl_call \<times> ctl_ret \<Rightarrow> handle set \<times> bool" where
  "session_step (S, ok) (FwpmEngineOpen0 a f, r) = (if ret_status r = 0 then insert (ret_out r) S else S, ok)"
| "session_step (S, ok) (FwpmEngineClose0 h, r) = (S - {h}, ok \<and> h \<in> S)"
| "session_step (S, ok) (FwpmProviderAdd0 h p, r) = (S, ok \<and> h \<in> S)"
| "session_step (S, ok) (FwpmProviderContextAdd3 h c, r) = (S, ok \<and> (h = NULL \<or> h \<in> S))"
| "session_step (S, ok) (FwpmSubLayerAdd0 h l, r) = (S, ok \<and> h \<in> S)"
| "session_step (S, ok) (FwpmCalloutAdd0 h c, r) = (S, ok \<and> h \<in> S)"
| "session_step (S, ok) (FwpmCalloutDeleteByKey0 h k, r) = (S, ok \<and> h \<in> S)"
| "session_step (S, ok) (FwpmFilterAdd0 h f, r) = (S, ok \<and> h \<in> S)"
| "session_step m (_, r) = m"

definition sessions :: "ctl_trace \<Rightarrow> handle set \<times> bool" where
  "sessions tr = foldl session_step ({}, True) tr"

interpretation sessions: trace_monitor sessions session_step "({}, True)"
  by unfold_locales (simp_all add: sessions_def)

text \<open>The documentation of opening: a new session has a handle of its own, which is not null.\<close>

definition sessions_api :: "ctl_world \<Rightarrow> bool" where
  "sessions_api w \<longleftrightarrow> (\<forall>tr a f. let r = w tr (FwpmEngineOpen0 a f) in
     ret_status r = 0 \<longrightarrow> ret_out r \<noteq> NULL \<and> ret_out r \<notin> fst (sessions tr))"

definition live :: "ctl \<Rightarrow> nat set" where
  "live s = {i. i < length (blocks s) \<and> 0 < snd (blocks s ! i)}"

text \<open>
  The pointers \<open>M\<close> are all there are: each control block counts those that name it, and the open
  sessions are those whose block has an owner.
\<close>

definition owned :: "nat option multiset \<Rightarrow> ctl \<Rightarrow> bool" where
  "owned M s \<longleftrightarrow>
     (\<forall>i. Some i \<in># M \<longrightarrow> i < length (blocks s)) \<and>
     (\<forall>i < length (blocks s). snd (blocks s ! i) = count M (Some i) \<and> fst (blocks s ! i) \<noteq> NULL) \<and>
     inj_on (\<lambda>i. fst (blocks s ! i)) (live s) \<and>
     sessions (ctl_log s) = ((\<lambda>i. fst (blocks s ! i)) ` live s, True)"

lemma owned_length: "owned M s \<Longrightarrow> Some i \<in># M \<Longrightarrow> i < length (blocks s)"
  by (simp add: owned_def)

lemma owned_live: "owned M s \<Longrightarrow> Some i \<in># M \<Longrightarrow> i \<in> live s"
  by (auto simp: owned_def live_def count_greater_zero_iff)

lemma owned_open: "owned M s \<Longrightarrow> p \<in># M \<Longrightarrow> sp_get p s \<noteq> NULL \<Longrightarrow> sp_get p s \<in> fst (sessions (ctl_log s))"
  using owned_live [of M s] by (cases p) (auto simp: sp_get_def owned_def)

lemma owned_not_null: "owned M s \<Longrightarrow> Some i \<in># M \<Longrightarrow> sp_get (Some i) s \<noteq> NULL"
  by (auto simp: sp_get_def owned_def)

lemma owned_log:
  assumes "owned M s" "session_step (sessions (ctl_log s)) (c, r) = sessions (ctl_log s)"
  shows "owned M (s\<lparr>ctl_log := ctl_log s @ [(c, r)]\<rparr>)"
  using assms by (simp add: owned_def live_def sessions.run_snoc)

text \<open>A call on an open session, and calls that are on none.\<close>

fun session_free :: "ctl_call \<Rightarrow> bool" where
  "session_free (FwpmEngineOpen0 a f) = False"
| "session_free (FwpmEngineClose0 h) = False"
| "session_free (FwpmProviderAdd0 h p) = False"
| "session_free (FwpmProviderContextAdd3 h c) = False"
| "session_free (FwpmSubLayerAdd0 h l) = False"
| "session_free (FwpmCalloutAdd0 h c) = False"
| "session_free (FwpmCalloutDeleteByKey0 h k) = False"
| "session_free (FwpmFilterAdd0 h f) = False"
| "session_free _ = True"

lemma session_free_step: "session_free c \<Longrightarrow> session_step m (c, r) = m"
  by (cases m; cases c) simp_all

lemma translates_session_free: "translates c \<Longrightarrow> session_free c"
  by (cases c) simp_all

lemma only_sessions: "only session_free s s' \<Longrightarrow> sessions (ctl_log s') = sessions (ctl_log s)"
  unfolding sessions_def by (erule foldl_unchanged) (rule session_free_step)

lemma owned_only: "owned M s \<Longrightarrow> only session_free s s' \<Longrightarrow> owned M s'"
  using only_sessions [of s s'] by (auto simp: owned_def live_def only_def)

lemma owned_do: "owned M s \<Longrightarrow> session_free c \<Longrightarrow> owned M (ctl_do w c s)"
  by (erule owned_only) (rule only_do)

lemma owned_ask: "owned M s \<Longrightarrow> session_free c \<Longrightarrow> owned M (snd (ctl_ask w c s))"
  by (erule owned_only) (rule only_ask)

lemma owned_use:
  assumes "owned M s" "p \<in># M" "sp_get p s \<noteq> NULL" "c \<in> {FwpmProviderAdd0 (sp_get p s) a, FwpmSubLayerAdd0 (sp_get p s) b,
    FwpmCalloutAdd0 (sp_get p s) d, FwpmCalloutDeleteByKey0 (sp_get p s) k, FwpmFilterAdd0 (sp_get p s) f}"
  shows "owned M (snd (ctl_ask w c s))"
proof -
  obtain S where S: "sessions (ctl_log s) = (S, True)" using assms(1) by (auto simp: owned_def)
  have "sp_get p s \<in> S" using owned_open [OF assms(1-3)] S by simp
  then have "session_step (sessions (ctl_log s)) (c, r) = sessions (ctl_log s)" for r using assms(4) S by auto
  then show ?thesis using assms(1) by (simp add: ctl_ask_eq owned_log)
qed

lemma owned_context:
  assumes "owned M s" "p \<in># M"
  shows "owned M (snd (ctl_ask w (FwpmProviderContextAdd3 (sp_get p s) c) s))"
proof -
  obtain S where S: "sessions (ctl_log s) = (S, True)" using assms(1) by (auto simp: owned_def)
  have "sp_get p s \<noteq> NULL \<Longrightarrow> sp_get p s \<in> S" using owned_open [OF assms] S by simp
  then have "session_step (sessions (ctl_log s)) (FwpmProviderContextAdd3 (sp_get p s) c, r) = sessions (ctl_log s)" for r
    using S by auto
  then show ?thesis using assms(1) by (simp add: ctl_ask_eq owned_log)
qed

lemma live_copy:
  "live (s\<lparr>blocks := (blocks s)[i := (h, n)]\<rparr>) = (if i < length (blocks s) then (if 0 < n then insert i (live s) else live s - {i}) else live s)"
  by (auto simp: live_def nth_list_update split: if_splits)

lemma owned_copy:
  assumes "owned M s" "p \<in># M"
  shows "owned (add_mset p M) (sp_copy p s)"
proof (cases p)
  case None
  then show ?thesis using assms by (simp add: owned_def sp_copy_def)
next
  case (Some i)
  then have i: "i < length (blocks s)" "i \<in> live s" using assms owned_length owned_live by auto
  let ?s = "sp_copy p s"
  have eq: "live ?s = live s" "\<And>j. j < length (blocks s) \<Longrightarrow> fst (blocks ?s ! j) = fst (blocks s ! j)" "ctl_log ?s = ctl_log s"
    "length (blocks ?s) = length (blocks s)"
    using i Some by (auto simp: sp_copy_def live_copy nth_list_update)
  have img: "(\<lambda>i. fst (blocks ?s ! i)) ` live ?s = (\<lambda>i. fst (blocks s ! i)) ` live s"
    using eq by (auto simp: live_def intro!: image_cong)
  have inj: "inj_on (\<lambda>i. fst (blocks ?s ! i)) (live ?s) = inj_on (\<lambda>i. fst (blocks s ! i)) (live s)"
    using eq by (auto simp: live_def intro!: inj_on_cong)
  show ?thesis
    using assms i img inj eq unfolding owned_def
    by (auto simp: Some sp_copy_def nth_list_update)
qed

text \<open>Closing removes the session's handle, whatever the answer.\<close>

lemma close_session_only: "only session_free (snd (ctl_ask w (FwpmEngineClose0 h) s)) (close_session w h s)"
  by (simp add: close_session_def Let_def split_def only.ok_refl only_do)

lemma sessions_close:
  assumes "sessions (ctl_log s) = (S, ok)"
  shows "sessions (ctl_log (close_session w h s)) = (S - {h}, ok \<and> h \<in> S)"
    and "blocks (close_session w h s) = blocks s"
  using only_sessions [OF close_session_only, of w h s] only_blocks [OF close_session_only, of w h s] assms
  by (simp_all add: ctl_ask_eq sessions.run_snoc)

text \<open>
  One count less in the control block \<open>i\<close>, nothing closed yet: the blocks are counted for one pointer
  less, and the handles of the live blocks are those they had.
\<close>

lemma owned_uncount:
  fixes s i M
  defines "h \<equiv> fst (blocks s ! i)"
  defines "s1 \<equiv> s\<lparr>blocks := (blocks s)[i := (h, count M (Some i))]\<rparr>"
  assumes own: "owned (add_mset (Some i) M) s"
  shows "live s1 = (if count M (Some i) = 0 then live s - {i} else live s)"
    and "(\<lambda>j. fst (blocks s1 ! j)) ` live s1 = (\<lambda>j. fst (blocks s ! j)) ` live s1"
    and "inj_on (\<lambda>j. fst (blocks s1 ! j)) (live s1)"
    and "(\<forall>j. Some j \<in># M \<longrightarrow> j < length (blocks s1)) \<and>
      (\<forall>j < length (blocks s1). snd (blocks s1 ! j) = count M (Some j) \<and> fst (blocks s1 ! j) \<noteq> NULL)"
proof -
  have i: "i < length (blocks s)" "i \<in> live s" using own owned_length owned_live by auto
  show live1: "live s1 = (if count M (Some i) = 0 then live s - {i} else live s)"
    using i by (cases "count M (Some i)") (auto simp: s1_def live_copy)
  have fst1: "fst (blocks s1 ! j) = fst (blocks s ! j)" if "j < length (blocks s)" for j
    using that by (cases "j = i") (simp_all add: s1_def h_def)
  have inj: "inj_on (\<lambda>j. fst (blocks s ! j)) (live s)" using own by (simp add: owned_def)
  have sub: "live s1 \<subseteq> live s" using live1 by auto
  show "(\<lambda>j. fst (blocks s1 ! j)) ` live s1 = (\<lambda>j. fst (blocks s ! j)) ` live s1"
    using sub fst1 by (intro image_cong) (auto simp: live_def)
  have "inj_on (\<lambda>j. fst (blocks s ! j)) (live s1)" using inj sub by (rule inj_on_subset)
  then show "inj_on (\<lambda>j. fst (blocks s1 ! j)) (live s1)"
    using sub fst1 by (subst inj_on_cong [where g = "\<lambda>j. fst (blocks s ! j)"]) (auto simp: live_def)
  show "(\<forall>j. Some j \<in># M \<longrightarrow> j < length (blocks s1)) \<and>
      (\<forall>j < length (blocks s1). snd (blocks s1 ! j) = count M (Some j) \<and> fst (blocks s1 ! j) \<noteq> NULL)"
    using own by (auto simp: owned_def s1_def nth_list_update h_def)
qed

lemma owned_release:
  assumes "owned (add_mset p M) s"
  shows "owned M (sp_release w p s)"
proof (cases p)
  case None
  then show ?thesis using assms by (simp add: owned_def sp_release_def)
next
  case (Some i)
  then have own: "owned (add_mset (Some i) M) s" using assms by simp
  then have i: "i < length (blocks s)" "i \<in> live s" using owned_length owned_live by auto
  have old: "snd (blocks s ! i) = Suc (count M (Some i))" using own i by (simp add: owned_def)
  define h where "h = fst (blocks s ! i)"
  define s1 where "s1 = s\<lparr>blocks := (blocks s)[i := (h, count M (Some i))]\<rparr>"
  note less = owned_uncount [OF own, folded h_def, folded s1_def]
  have rel: "sp_release w p s = (if count M (Some i) = 0 then close_session w h s1 else s1)"
    using old by (cases "count M (Some i)") (simp_all add: sp_release_def Some split_def Let_def s1_def h_def)
  have inj: "inj_on (\<lambda>j. fst (blocks s ! j)) (live s)"
    and ses: "sessions (ctl_log s) = ((\<lambda>j. fst (blocks s ! j)) ` live s, True)" using own by (simp_all add: owned_def)
  show ?thesis
  proof (cases "count M (Some i) = 0")
    case False
    then have "live s1 = live s" "sp_release w p s = s1" using less(1) rel by (simp_all only: if_False)
    then show ?thesis using less(2-) ses by (simp add: owned_def s1_def)
  next
    case True
    have "(\<lambda>j. fst (blocks s ! j)) ` (live s - {i}) = (\<lambda>j. fst (blocks s ! j)) ` live s - {h}"
      using inj i(2) by (auto simp: h_def inj_on_def)
    moreover have "live s1 = live s - {i}" "sp_release w p s = close_session w h s1"
      using less(1) rel True by (simp_all only: if_True refl simp_thms)
    ultimately have "(\<lambda>j. fst (blocks s1 ! j)) ` live s1 = (\<lambda>j. fst (blocks s ! j)) ` live s - {h}" using less(2) by simp
    moreover have "sessions (ctl_log (close_session w h s1)) = ((\<lambda>j. fst (blocks s ! j)) ` live s - {h}, True)"
      using sessions_close(1) [of s1] ses i(2) by (auto simp: s1_def h_def)
    moreover have "blocks (close_session w h s1) = blocks s1" using sessions_close(2) [of s1] ses by (simp add: s1_def)
    ultimately show ?thesis using \<open>sp_release w p s = close_session w h s1\<close> less(3,4) by (simp add: owned_def live_def)
  qed
qed

lemma owned_new:
  assumes api: "sessions_api w" and own: "owned M s" and ok: "ret_status (w (ctl_log s) (FwpmEngineOpen0 a f)) = 0"
    and new: "sp_new (ret_out (w (ctl_log s) (FwpmEngineOpen0 a f))) (snd (ctl_ask w (FwpmEngineOpen0 a f) s)) = (p, s')"
  shows "owned (add_mset p M) s'"
proof -
  let ?r = "w (ctl_log s) (FwpmEngineOpen0 a f)"
  have h: "ret_out ?r \<noteq> NULL" "ret_out ?r \<notin> (\<lambda>i. fst (blocks s ! i)) ` live s"
    using api ok own unfolding sessions_api_def owned_def Let_def by (metis, metis fst_conv)
  have s': "s' = s\<lparr>ctl_log := ctl_log s @ [(FwpmEngineOpen0 a f, ?r)], blocks := blocks s @ [(ret_out ?r, 1)]\<rparr>"
    and p: "p = Some (length (blocks s))"
    using new by (auto simp: sp_new_def ctl_ask_eq)
  have fresh: "count M (Some (length (blocks s))) = 0" using own by (auto simp: owned_def not_in_iff [symmetric])
  have live': "live s' = insert (length (blocks s)) (live s)" by (auto simp: live_def s' nth_append)
  have fst': "fst (blocks s' ! i) = (if i = length (blocks s) then ret_out ?r else fst (blocks s ! i))" if "i \<in> live s'" for i
    using that by (auto simp: s' nth_append live_def)
  have "(\<lambda>i. fst (blocks s' ! i)) ` live s' = insert (ret_out ?r) ((\<lambda>i. fst (blocks s ! i)) ` live s)"
  proof -
    have "(\<lambda>i. fst (blocks s' ! i)) ` live s = (\<lambda>i. fst (blocks s ! i)) ` live s"
      by (intro image_cong) (auto simp: s' live_def nth_append)
    then show ?thesis by (simp add: live') (simp add: s')
  qed
  moreover have "inj_on (\<lambda>i. fst (blocks s' ! i)) (live s')"
  proof -
    have "inj_on (\<lambda>i. fst (blocks s' ! i)) (live s)"
      using own by (subst inj_on_cong [where g = "\<lambda>i. fst (blocks s ! i)"]) (auto simp: owned_def live_def s' nth_append)
    moreover have "(\<lambda>i. fst (blocks s' ! i)) ` live s = (\<lambda>i. fst (blocks s ! i)) ` live s"
      by (intro image_cong) (auto simp: s' live_def nth_append)
    moreover have "length (blocks s) \<notin> live s" by (simp add: live_def)
    ultimately show ?thesis using h by (simp add: live') (simp add: s')
  qed
  ultimately show ?thesis
    using own fresh h ok unfolding owned_def
    by (auto simp: s' p nth_append sessions.run_snoc less_Suc_eq)
qed

text \<open>
  What the users of the handles rely on: sharing a handle one holds and dropping one keep the count
  right. Dropping several is then dropping them one after the other.
\<close>

locale shared_handles =
  fixes good :: "'p multiset \<Rightarrow> 's \<Rightarrow> bool"
    and share :: "'p \<Rightarrow> 's \<Rightarrow> 's"
    and drop_handle :: "'p \<Rightarrow> 's \<Rightarrow> 's"
  assumes good_share: "good M s \<Longrightarrow> p \<in># M \<Longrightarrow> good (add_mset p M) (share p s)"
    and good_drop: "good (add_mset p M) s \<Longrightarrow> good M (drop_handle p s)"
begin

lemma good_drop_all: "good (mset ps + M) s \<Longrightarrow> good M (fold drop_handle ps s)"
  by (induction ps arbitrary: s) (auto intro: good_drop)

lemma good_share_drop: "good M s \<Longrightarrow> p \<in># M \<Longrightarrow> good M (drop_handle p (share p s))"
  by (rule good_drop) (rule good_share)

lemma good_swap: "good (add_mset p (add_mset q M)) s \<Longrightarrow> good (add_mset p M) (drop_handle q s)"
  by (rule good_drop) (simp add: add_mset_commute)

end

interpretation sp: shared_handles owned sp_copy "sp_release w" for w
  by unfold_locales (auto intro: owned_copy owned_release)

section \<open>What the methods keep\<close>

lemma throw_wfp_only: "only session_free s (snd (throw_wfp P w site m c s))"
  unfolding throw_wfp_def split_def Let_def snd_conv
  by (rule only_mono [OF error_constructors_only(1)]) (rule translates_session_free)

lemma owned_throw: "owned M s \<Longrightarrow> throw_wfp P w site m c s = (x, s') \<Longrightarrow> owned M s'"
  using owned_only [OF _ throw_wfp_only [of s P w site m c]] by simp

lemma owned_None [simp]: "owned (add_mset None M) s = owned M s"
  by (simp add: owned_def)

lemma owned_Remove:
  assumes "owned (add_mset (m_engine this) M) s" "Callout_Remove w this s = (this', s')"
  shows "owned (add_mset (m_engine this') M) s'"
proof (cases "m_calloutId this = 0 \<or> sp_get (m_engine this) s = NULL")
  case True
  then show ?thesis using assms by (auto simp: Callout_Remove_def)
next
  case False
  define s1 where "s1 = snd (ctl_ask w (FwpmCalloutDeleteByKey0 (sp_get (m_engine this) s) (m_calloutKey this)) s)"
  define t where "t = Cerr (delete_failed
      (ret_status (w (ctl_log s) (FwpmCalloutDeleteByKey0 (sp_get (m_engine this) s) (m_calloutKey this)))))"
  have "owned (add_mset (m_engine this) M) s1"
    unfolding s1_def using False assms(1) by (intro owned_use) auto
  then have "owned (add_mset (m_engine this) M) (ctl_do w t s1)" "owned (add_mset (m_engine this) M) s1"
    by (auto intro: owned_do simp: t_def)
  then have "owned M (sp_release w (m_engine this) (ctl_do w t s1))" "owned M (sp_release w (m_engine this) s1)"
    by (auto intro: sp.good_drop)
  then show ?thesis
    using assms(2) False by (auto simp: Callout_Remove_def Let_def split_def s1_def [symmetric] t_def [symmetric] split: if_splits)
qed

lemma owned_Callout_destructor:
  "owned (add_mset (m_engine this) M) s \<Longrightarrow> owned M (Callout_destructor w this s)"
  using owned_Remove [of this M s w] sp.good_drop by (auto simp: Callout_destructor_def split: prod.split)

lemma owned_Callout_Add:
  assumes "owned (add_mset (m_engine this) M) s" "Callout_Add P w this s = (x, this', s')"
  shows "owned (add_mset (m_engine this') M) s' \<and> m_engine this' = m_engine this"
proof (cases "sp_get (m_engine this) s = NULL")
  case False
  define c where "c = FwpmCalloutAdd0 (sp_get (m_engine this) s)
     \<lparr>callout_key = m_calloutKey this, callout_name = m_displayName this, callout_flags = m_flags this,
      callout_provider = m_providerKey this, callout_layer = m_applicableLayerKey this\<rparr>"
  have "owned (add_mset (m_engine this) M) (snd (ctl_ask w c s))"
    unfolding c_def using False assms(1) by (intro owned_use) auto
  from owned_throw [OF this] this show ?thesis
    using assms(2) False by (auto simp: Callout_Add_def Let_def split_def c_def [symmetric] prod_eq_iff split: if_splits)
qed (use assms in \<open>auto simp: Callout_Add_def\<close>)

lemma owned_assign_and_add:
  assumes "owned (add_mset (m_engine member) M) s" "p \<in># M"
    "assign_and_add P w key layer name p member s = (x, member', s')"
  shows "owned (add_mset (m_engine member') M) s'"
proof -
  have 1: "owned (add_mset p (add_mset (m_engine member) M)) (sp_copy p s)"
    using assms(1,2) by (intro sp.good_share) auto
  show ?thesis
  proof (cases "sp_get p (sp_copy p s) = NULL")
    case True
    then have "member' = member" "s' = sp_release w p (sp_copy p s)"
      using assms(3) by (auto simp: assign_and_add_def Callout_construct_def Let_def)
    then show ?thesis using sp.good_drop [OF 1] by simp
  next
    case False
    define tmp where "tmp = \<lparr>m_displayName = wide name, m_calloutKey = key, m_providerKey = ProviderKey,
       m_applicableLayerKey = layer_key P layer, m_engine = p, m_calloutId = 0,
       m_flags = FWPM_CALLOUT_FLAG_USES_PROVIDER_CONTEXT P\<rparr>"
    obtain c2 s2 where 2: "Callout_Remove w member (sp_copy p s) = (c2, s2)" by fastforce
    obtain c3 t3 s3 where 3: "Callout_Move w member tmp (sp_copy p s) = (c3, t3, s3)" by (metis prod_cases3)
    have "owned (add_mset (m_engine c2) (add_mset p M)) s2"
      using owned_Remove [OF _ 2, of "add_mset p M"] 1 by (simp add: add_mset_commute)
    then have "owned (add_mset p M) (sp_release w (m_engine c2) s2)" by (rule sp.good_drop)
    then have "owned (add_mset (m_engine c3) M) s3" "m_engine t3 = None" "m_calloutId t3 = 0"
      using 2 3 by (auto simp: Callout_Move_def tmp_def)
    then have "owned (add_mset (m_engine c3) M) (Callout_destructor w t3 s3)"
      by (simp add: Callout_destructor_def Callout_Remove_def sp_release_def)
    moreover have "assign_and_add P w key layer name p member s = Callout_Add P w c3 (Callout_destructor w t3 s3)"
      using False 3 by (simp add: assign_and_add_def Callout_construct_def tmp_def)
    ultimately show ?thesis using owned_Callout_Add assms(3) by metis
  qed
qed

text \<open>All the pointers of the engine and its members.\<close>

definition engine_refs :: "WFPEngine \<Rightarrow> nat option multiset" where
  "engine_refs e = {#m_engineHandle e, m_engine (m_outboundIPv4Callout e), m_engine (m_inboundICMPErrorCallout e),
     m_engine (m_outboundICMPErrorCallout e), m_engine (m_outboundTCPCallout e)#}"

definition keeps_sessions :: "WFPEngine \<times> ctl \<Rightarrow> WFPEngine \<times> ctl \<Rightarrow> bool" where
  "keeps_sessions es es' \<longleftrightarrow> (owned (engine_refs (fst es)) (snd es) \<longrightarrow> owned (engine_refs (fst es')) (snd es'))"

interpretation keeps: action_contract keeps_sessions
  by unfold_locales (auto simp: keeps_sessions_def)

lemma keepsI:
  assumes "\<And>e s e' s'. es = (e, s) \<Longrightarrow> es' = (e', s') \<Longrightarrow> owned (engine_refs e) s \<Longrightarrow> owned (engine_refs e') s'"
  shows "keeps_sessions es es'"
  using assms by (cases es; cases es') (simp add: keeps_sessions_def)

lemma engine_ref [simp]: "m_engineHandle e \<in># engine_refs e"
  by (simp add: engine_refs_def)

text \<open>What is not a pointer does not matter.\<close>

lemma engine_refs_fields [simp]:
  "engine_refs (e\<lparr>m_addedProvider := a\<rparr>) = engine_refs e" "engine_refs (e\<lparr>m_addedSublayer := a\<rparr>) = engine_refs e"
  "engine_refs (e\<lparr>m_contextId := i\<rparr>) = engine_refs e" "engine_refs (e\<lparr>m_outboundIPv4FilterID := i\<rparr>) = engine_refs e"
  "engine_refs (e\<lparr>m_inboundICMPErrorFilterID := i\<rparr>) = engine_refs e"
  "engine_refs (e\<lparr>m_outboundICMPErrorFilterID := i\<rparr>) = engine_refs e"
  "engine_refs (e\<lparr>m_outboundTransportFilterID := i\<rparr>) = engine_refs e"
  by (simp_all add: engine_refs_def)

text \<open>Each member is one of the pointers, and the rest does not depend on it.\<close>

definition refs_but_TCP :: "WFPEngine \<Rightarrow> nat option multiset" where
  "refs_but_TCP e = {#m_engineHandle e, m_engine (m_outboundIPv4Callout e), m_engine (m_inboundICMPErrorCallout e),
     m_engine (m_outboundICMPErrorCallout e)#}"
definition refs_but_IPv4 :: "WFPEngine \<Rightarrow> nat option multiset" where
  "refs_but_IPv4 e = {#m_engineHandle e, m_engine (m_inboundICMPErrorCallout e),
     m_engine (m_outboundICMPErrorCallout e), m_engine (m_outboundTCPCallout e)#}"
definition refs_but_inbound :: "WFPEngine \<Rightarrow> nat option multiset" where
  "refs_but_inbound e = {#m_engineHandle e, m_engine (m_outboundIPv4Callout e),
     m_engine (m_outboundICMPErrorCallout e), m_engine (m_outboundTCPCallout e)#}"
definition refs_but_outbound :: "WFPEngine \<Rightarrow> nat option multiset" where
  "refs_but_outbound e = {#m_engineHandle e, m_engine (m_outboundIPv4Callout e), m_engine (m_inboundICMPErrorCallout e),
     m_engine (m_outboundTCPCallout e)#}"
definition refs_but_handle :: "WFPEngine \<Rightarrow> nat option multiset" where
  "refs_but_handle e = {#m_engine (m_outboundIPv4Callout e), m_engine (m_inboundICMPErrorCallout e),
     m_engine (m_outboundICMPErrorCallout e), m_engine (m_outboundTCPCallout e)#}"

lemmas refs_but_defs = refs_but_TCP_def refs_but_IPv4_def refs_but_inbound_def refs_but_outbound_def refs_but_handle_def

lemma engine_refs_members:
  "engine_refs e = add_mset (m_engine (m_outboundTCPCallout e)) (refs_but_TCP e)"
  "engine_refs e = add_mset (m_engine (m_outboundIPv4Callout e)) (refs_but_IPv4 e)"
  "engine_refs e = add_mset (m_engine (m_inboundICMPErrorCallout e)) (refs_but_inbound e)"
  "engine_refs e = add_mset (m_engine (m_outboundICMPErrorCallout e)) (refs_but_outbound e)"
  "engine_refs e = add_mset (m_engineHandle e) (refs_but_handle e)"
  by (simp_all add: engine_refs_def refs_but_defs add_mset_commute)

lemma engine_refs_updates:
  "engine_refs (e\<lparr>m_outboundTCPCallout := c\<rparr>) = add_mset (m_engine c) (refs_but_TCP e)"
  "engine_refs (e\<lparr>m_outboundIPv4Callout := c\<rparr>) = add_mset (m_engine c) (refs_but_IPv4 e)"
  "engine_refs (e\<lparr>m_inboundICMPErrorCallout := c\<rparr>) = add_mset (m_engine c) (refs_but_inbound e)"
  "engine_refs (e\<lparr>m_outboundICMPErrorCallout := c\<rparr>) = add_mset (m_engine c) (refs_but_outbound e)"
  "engine_refs (e\<lparr>m_engineHandle := p\<rparr>) = add_mset p (refs_but_handle e)"
  by (simp_all add: engine_refs_def refs_but_defs add_mset_commute)

lemma refs_but_engine:
  "m_engineHandle e \<in># refs_but_TCP e" "m_engineHandle e \<in># refs_but_IPv4 e"
  "m_engineHandle e \<in># refs_but_inbound e" "m_engineHandle e \<in># refs_but_outbound e"
  by (simp_all add: refs_but_defs)

text \<open>A method that makes one call with the engine's handle and may then throw.\<close>

lemma owned_call:
  assumes "owned M s" "p \<in># M" "sp_get p s \<noteq> NULL"
  shows "owned M (snd (ctl_ask w (FwpmProviderAdd0 (sp_get p s) a) s))"
    "owned M (snd (ctl_ask w (FwpmSubLayerAdd0 (sp_get p s) b) s))"
    "owned M (snd (ctl_ask w (FwpmFilterAdd0 (sp_get p s) f) s))"
  by (rule owned_use [OF assms]; simp)+

lemma keeps_RegisterProvider: "keeps_sessions es (snd (RegisterProvider P w es))"
proof (rule keepsI)
  fix e s e' s'
  assume 1: "es = (e, s)" "snd (RegisterProvider P w es) = (e', s')" "owned (engine_refs e) s"
  note call = owned_call(1) [OF 1(3) engine_ref, of w]
  show "owned (engine_refs e') s'"
    using 1 call owned_throw [OF call]
    by (auto simp: RegisterProvider_def engine_handle_def Let_def split_def prod_eq_iff split: if_splits)
qed

lemma keeps_AddSublayer: "keeps_sessions es (snd (AddSublayer P w es))"
proof (rule keepsI)
  fix e s e' s'
  assume 1: "es = (e, s)" "snd (AddSublayer P w es) = (e', s')" "owned (engine_refs e) s"
  note call = owned_call(2) [OF 1(3) engine_ref, of w]
  show "owned (engine_refs e') s'"
    using 1 call owned_throw [OF call]
    by (auto simp: AddSublayer_def engine_handle_def Let_def split_def prod_eq_iff split: if_splits)
qed

lemma keeps_AddContext: "keeps_sessions es (snd (AddContext P w es))"
proof (rule keepsI)
  fix e s e' s'
  assume 1: "es = (e, s)" "snd (AddContext P w es) = (e', s')" "owned (engine_refs e) s"
  have "owned (engine_refs e) (snd (ctl_ask w GetCurrentProcessId s))" by (rule owned_ask [OF 1(3)]) simp
  note call = owned_context [OF this engine_ref, of w]
  show "owned (engine_refs e') s'"
    using 1 call owned_throw [OF call]
    by (auto simp: AddContext_def engine_handle_def Let_def split_def prod_eq_iff split: if_splits)
qed

lemma keeps_OpenFilterEngine:
  assumes api: "sessions_api w"
  shows "keeps_sessions es (snd (OpenFilterEngine P w es))"
proof (rule keepsI)
  fix e s e' s'
  assume 1: "es = (e, s)" "snd (OpenFilterEngine P w es) = (e', s')" "owned (engine_refs e) s"
  let ?c = "FwpmEngineOpen0 (RPC_C_AUTHN_DEFAULT P) (FWPM_SESSION_FLAG_DYNAMIC P)"
  define s1 where "s1 = snd (ctl_ask w ?c s)"
  show "owned (engine_refs e') s'"
  proof (cases "ret_status (w (ctl_log s) ?c) = 0")
    case False
    obtain S where S: "sessions (ctl_log s) = (S, True)" using 1(3) by (auto simp: owned_def)
    have "owned (engine_refs e) s1"
      unfolding s1_def ctl_ask_eq snd_conv by (rule owned_log [OF 1(3)]) (simp add: S False)
    then show ?thesis
      using 1 False owned_throw
      by (auto simp: OpenFilterEngine_def Let_def split_def s1_def [symmetric] prod_eq_iff)
  next
    case True
    obtain p s2 where 2: "sp_new (ret_out (w (ctl_log s) ?c)) s1 = (p, s2)" by fastforce
    have "owned (add_mset p (engine_refs e)) s2" using owned_new [OF api 1(3) True] 2 by (simp add: s1_def)
    then have "owned (add_mset p (refs_but_handle e)) (sp_release w (m_engineHandle e) s2)"
      unfolding engine_refs_members(5) by (rule sp.good_swap)
    then show ?thesis
      using 1 True 2
      by (auto simp: OpenFilterEngine_def Let_def split_def s1_def [symmetric] engine_refs_updates)
  qed
qed

lemma owned_assign:
  assumes "owned (add_mset (m_engine member) M) s" "p \<in># M"
  shows "owned (add_mset (m_engine (fst (snd (assign_and_add P w key layer name p member s)))) M)
    (snd (snd (assign_and_add P w key layer name p member s)))"
  by (rule owned_assign_and_add [OF assms]) (simp add: prod_eq_iff)

lemma keeps_member:
  assumes "\<And>e. engine_refs e = add_mset (m_engine (member e)) (rest e)"
    and "\<And>e c. engine_refs (upd e c) = add_mset (m_engine c) (rest e)" and "m_engineHandle e \<in># rest e"
  shows "keeps_sessions (e, s) (upd e (fst (snd (assign_and_add P w key layer name (m_engineHandle e) (member e) s))),
    snd (snd (assign_and_add P w key layer name (m_engineHandle e) (member e) s)))"
  unfolding keeps_sessions_def fst_conv snd_conv assms(2) assms(1) [of e]
  by (intro impI owned_assign assms(3))

lemma keeps_add_callouts:
  "keeps_sessions es (snd (AddOutboundTCPPacketCallout P w es))"
  "keeps_sessions es (snd (AddOutboundIPv4PacketCallout P w es))"
  "keeps_sessions es (snd (AddInboundICMPErrorCallout P w es))"
  "keeps_sessions es (snd (AddOutboundICMPErrorCallout P w es))"
  by (simp_all only: AddOutboundTCPPacketCallout_def AddOutboundIPv4PacketCallout_def
      AddInboundICMPErrorCallout_def AddOutboundICMPErrorCallout_def split_def Let_def snd_conv)
    (insert keeps_member [of "m_outboundTCPCallout" refs_but_TCP "\<lambda>e c. e\<lparr>m_outboundTCPCallout := c\<rparr>" "fst es" "snd es",
        OF engine_refs_members(1) engine_refs_updates(1) refs_but_engine(1)]
      keeps_member [of "m_outboundIPv4Callout" refs_but_IPv4 "\<lambda>e c. e\<lparr>m_outboundIPv4Callout := c\<rparr>" "fst es" "snd es",
        OF engine_refs_members(2) engine_refs_updates(2) refs_but_engine(2)]
      keeps_member [of "m_inboundICMPErrorCallout" refs_but_inbound "\<lambda>e c. e\<lparr>m_inboundICMPErrorCallout := c\<rparr>" "fst es" "snd es",
        OF engine_refs_members(3) engine_refs_updates(3) refs_but_engine(3)]
      keeps_member [of "m_outboundICMPErrorCallout" refs_but_outbound "\<lambda>e c. e\<lparr>m_outboundICMPErrorCallout := c\<rparr>" "fst es" "snd es",
        OF engine_refs_members(4) engine_refs_updates(4) refs_but_engine(4)], simp_all)

lemma keeps_AddCallouts: "keeps_sessions es (snd (AddCallouts P w es))"
proof (cases "engine_handle es = NULL")
  case False
  have "keeps_sessions es (snd (AddInboundIPv4PacketCallout es))" for es
    by (simp add: AddInboundIPv4PacketCallout_def keeps.ok_refl)
  then show ?thesis
    unfolding AddCallouts_def if_not_P [OF False]
    by (intro keeps.in_order_ok) (auto intro: keeps_add_callouts)
qed (simp add: AddCallouts_def keeps.ok_refl)

lemma owned_AddFilter:
  assumes "owned M s" "p \<in># M"
  shows "owned M (snd (snd (AddFilter P w p name layer sub key weight act conds i s)))"
proof (cases "sp_get p s = NULL")
  case False
  note call = owned_call(3) [OF assms False]
  show ?thesis
    using False call owned_throw [OF call]
    by (auto simp: AddFilter_def Let_def split_def prod_eq_iff)
qed (use assms in \<open>simp add: AddFilter_def\<close>)

lemma keeps_filters:
  "keeps_sessions es (snd (add_IPv4_filter P w es))" "keeps_sessions es (snd (add_inbound_ICMP_filter P w es))"
  "keeps_sessions es (snd (add_outbound_ICMP_filter P w es))" "keeps_sessions es (snd (add_transport_filter P w es))"
  by (simp_all add: keeps_sessions_def split_def Let_def owned_AddFilter add_IPv4_filter_def
      add_inbound_ICMP_filter_def add_outbound_ICMP_filter_def add_transport_filter_def)

lemma keeps_AddFilters: "keeps_sessions es (snd (AddFilters P w es))"
proof (cases "engine_handle es = NULL")
  case False
  then show ?thesis
    unfolding AddFilters_def if_not_P [OF False]
    by (intro keeps.in_order_ok) (auto intro: keeps_filters)
qed (simp add: AddFilters_def keeps.ok_refl)

section \<open>Closing\<close>

text \<open>What is left of a callout after \<^verbatim>\<open>Remove\<close>: one that was added is gone, another is as it was.\<close>

definition removed :: "CalloutObject \<Rightarrow> CalloutObject" where
  "removed c = (if m_calloutId c = 0 \<or> m_engine c = None then c else c\<lparr>m_calloutId := 0, m_engine := None\<rparr>)"

lemma removed_twice [simp]: "removed (removed c) = removed c"
  by (simp add: removed_def)

lemma Remove_is_removed:
  assumes "owned (add_mset (m_engine this) M) s"
  shows "fst (Callout_Remove w this s) = removed this" "owned (add_mset (m_engine (removed this)) M) (snd (Callout_Remove w this s))"
proof -
  have "sp_get (m_engine this) s = NULL \<longleftrightarrow> m_engine this = None"
    using owned_not_null [OF assms] by (cases "m_engine this") (auto simp: sp_get_def)
  then show 1: "fst (Callout_Remove w this s) = removed this" by (simp add: Callout_Remove_def removed_def Let_def split_def)
  show "owned (add_mset (m_engine (removed this)) M) (snd (Callout_Remove w this s))"
    unfolding 1 [symmetric] by (rule owned_Remove [OF assms]) simp
qed

definition closed_engine :: "WFPEngine \<Rightarrow> WFPEngine" where
  "closed_engine e = (if m_engineHandle e = None then e
     else e\<lparr>m_outboundIPv4Callout := removed (m_outboundIPv4Callout e),
       m_inboundICMPErrorCallout := removed (m_inboundICMPErrorCallout e),
       m_outboundICMPErrorCallout := removed (m_outboundICMPErrorCallout e),
       m_outboundTCPCallout := removed (m_outboundTCPCallout e), m_engineHandle := None\<rparr>)"

lemma Engine_Close_effect:
  assumes own: "owned (engine_refs e) s"
  shows "fst (Engine_Close w (e, s)) = closed_engine e"
    and "owned (engine_refs (closed_engine e)) (snd (Engine_Close w (e, s)))"
proof -
  have "fst (Engine_Close w (e, s)) = closed_engine e \<and>
    owned (engine_refs (closed_engine e)) (snd (Engine_Close w (e, s)))"
  proof (cases "m_engineHandle e")
    case None
    then show ?thesis using own by (simp add: Engine_Close_def engine_handle_def sp_get_def closed_engine_def)
  next
    case (Some i)
    let ?c1 = "m_outboundIPv4Callout e" and ?c2 = "m_inboundICMPErrorCallout e"
    let ?c3 = "m_outboundICMPErrorCallout e" and ?c4 = "m_outboundTCPCallout e"
    obtain s1 where s1: "snd (Callout_Remove w ?c1 s) = s1" by simp
    obtain s2 where s2: "snd (Callout_Remove w ?c2 s1) = s2" by simp
    obtain s3 where s3: "snd (Callout_Remove w ?c3 s2) = s3" by simp
    obtain s4 where s4: "snd (Callout_Remove w ?c4 s3) = s4" by simp
    note R = Remove_is_removed
    let ?E = "m_engineHandle e"
    have o0: "owned (add_mset (m_engine ?c1) {#?E, m_engine ?c2, m_engine ?c3, m_engine ?c4#}) s"
      using own by (simp add: engine_refs_def add_mset_commute)
    have o1: "owned (add_mset (m_engine ?c2) {#?E, m_engine (removed ?c1), m_engine ?c3, m_engine ?c4#}) s1"
      using R(2) [OF o0, of w] by (simp add: s1 add_mset_commute)
    have o2: "owned (add_mset (m_engine ?c3) {#?E, m_engine (removed ?c1), m_engine (removed ?c2), m_engine ?c4#}) s2"
      using R(2) [OF o1, of w] by (simp add: s2 add_mset_commute)
    have o3: "owned (add_mset (m_engine ?c4) {#?E, m_engine (removed ?c1), m_engine (removed ?c2), m_engine (removed ?c3)#}) s3"
      using R(2) [OF o2, of w] by (simp add: s3 add_mset_commute)
    have o4: "owned (add_mset ?E {#m_engine (removed ?c1), m_engine (removed ?c2), m_engine (removed ?c3), m_engine (removed ?c4)#}) s4"
      using R(2) [OF o3, of w] by (simp add: s4 add_mset_commute)
    have rem: "Callout_Remove w ?c1 s = (removed ?c1, s1)" "Callout_Remove w ?c2 s1 = (removed ?c2, s2)"
      "Callout_Remove w ?c3 s2 = (removed ?c3, s3)" "Callout_Remove w ?c4 s3 = (removed ?c4, s4)"
      using R(1) [OF o0, of w] R(1) [OF o1, of w] R(1) [OF o2, of w] R(1) [OF o3, of w] s1 s2 s3 s4
      by (simp_all add: prod_eq_iff)
    have "sp_get ?E s \<noteq> NULL" using owned_not_null [OF own, of i] Some by (simp add: engine_refs_def)
    then have "Engine_Close w (e, s) = (closed_engine e, sp_release w ?E s4)"
      using rem Some by (simp add: Engine_Close_def engine_handle_def closed_engine_def)
    then show ?thesis
      using sp.good_drop [OF o4] Some by (simp add: closed_engine_def engine_refs_def)
  qed
  then show "fst (Engine_Close w (e, s)) = closed_engine e"
    "owned (engine_refs (closed_engine e)) (snd (Engine_Close w (e, s)))" by simp_all
qed

lemma keeps_Close: "keeps_sessions es (Engine_Close w es)"
  by (rule keepsI) (use Engine_Close_effect in \<open>metis fst_conv snd_conv\<close>)

text \<open>The destructor leaves no session, and every call up to then was on an open one.\<close>

lemma destructor_closes:
  assumes own: "owned (engine_refs e) s"
  shows "owned {#} (Engine_destructor w (e, s))"
proof -
  obtain e' s' where c: "Engine_Close w (e, s) = (e', s')" by fastforce
  have "owned (engine_refs e') s'" using Engine_Close_effect [OF own, of w] c by simp
  then have "owned (add_mset (m_engine (m_outboundTCPCallout e')) (add_mset (m_engine (m_outboundICMPErrorCallout e'))
      (add_mset (m_engine (m_inboundICMPErrorCallout e')) (add_mset (m_engine (m_outboundIPv4Callout e'))
      (add_mset (m_engineHandle e') {#}))))) s'"
    by (simp add: engine_refs_def add_mset_commute)
  from sp.good_drop [OF owned_Callout_destructor [OF owned_Callout_destructor [OF owned_Callout_destructor
        [OF owned_Callout_destructor [OF this]]]]]
  show ?thesis unfolding Engine_destructor_def c Let_def prod.case .
qed

lemma owned_nothing: "owned {#} s \<Longrightarrow> sessions (ctl_log s) = ({}, True)"
  by (auto simp: owned_def live_def)

text \<open>Pointers that are left alone are not redirected.\<close>

definition same_handles :: "ctl \<Rightarrow> ctl \<Rightarrow> bool" where
  "same_handles s s' \<longleftrightarrow> map fst (blocks s') = map fst (blocks s)"

interpretation same_handles: action_contract same_handles
  by unfold_locales (simp_all add: same_handles_def)

lemma same_handles_get: "same_handles s s' \<Longrightarrow> i < length (blocks s) \<Longrightarrow> sp_get (Some i) s' = sp_get (Some i) s"
  by (metis length_map nth_map option.simps(5) same_handles_def sp_get_def)

lemma same_handles_only: "only Q s s' \<Longrightarrow> same_handles s s'"
  by (simp add: same_handles_def only_blocks)

lemma same_handles_close: "same_handles s (close_session w h s)"
  by (simp add: same_handles_def close_session_def Let_def split_def ctl_simps)

lemma same_handles_release: "same_handles s (sp_release w p s)"
proof (cases p)
  case (Some i)
  have "same_handles s (s\<lparr>blocks := (blocks s)[i := (fst (blocks s ! i), n)]\<rparr>)" for n
    by (simp add: same_handles_def map_update list_update_same_conv flip: nth_map)
      (metis length_map list_update_beyond list_update_id map_update not_le_imp_less nth_map fst_conv)
  then show ?thesis
    using Some by (auto simp: sp_release_def split_def Let_def intro: same_handles.ok_trans [OF _ same_handles_close])
qed (simp add: sp_release_def same_handles.ok_refl)

lemma same_handles_then:
  assumes "same_handles s t"
  shows "same_handles s (sp_release w p t)" "same_handles s (ctl_do w c t)" "same_handles s (snd (ctl_ask w c t))"
  using assms
  by (auto intro: same_handles.ok_trans [OF assms same_handles_release] simp: ctl_simps) (simp_all add: same_handles_def)

lemma same_handles_Remove: "same_handles s t \<Longrightarrow> same_handles s (snd (Callout_Remove w c t))"
  by (auto simp: Callout_Remove_def Let_def split_def intro!: same_handles_then)

lemma same_handles_Close: "same_handles s (snd (Engine_Close w (e, s)))"
  by (auto simp: Engine_Close_def Let_def split_def same_handles.ok_refl intro!: same_handles_then(1) same_handles_Remove)

text \<open>The sessions that are open are those the pointers name.\<close>

lemma owned_sessions:
  assumes "owned M s"
  shows "sessions (ctl_log s) = ((\<lambda>i. sp_get (Some i) s) ` {i. Some i \<in># M}, True)"
proof -
  have "live s = {i. Some i \<in># M}"
    using assms by (auto simp: owned_def live_def count_greater_zero_iff)
  then show ?thesis using assms by (simp add: owned_def sp_get_def)
qed

lemma owned_inj: "owned M s \<Longrightarrow> Some i \<in># M \<Longrightarrow> Some j \<in># M \<Longrightarrow> sp_get (Some i) s = sp_get (Some j) s \<Longrightarrow> i = j"
  using owned_live [of M s i] owned_live [of M s j] by (auto simp: owned_def sp_get_def inj_on_def)

section \<open>Properties\<close>

definition engine_callouts :: "WFPEngine \<Rightarrow> CalloutObject list" where
  "engine_callouts e = [m_outboundIPv4Callout e, m_inboundICMPErrorCallout e, m_outboundICMPErrorCallout e,
     m_outboundTCPCallout e]"

lemma closed_engine_refs:
  assumes "m_engineHandle e \<noteq> None"
  shows "Some i \<in># engine_refs (closed_engine e) \<longleftrightarrow> (\<exists>c \<in> set (engine_callouts e). m_calloutId c = 0 \<and> m_engine c = Some i)"
proof -
  have "Some i = m_engine (removed c) \<longleftrightarrow> m_calloutId c = 0 \<and> m_engine c = Some i" for c
    by (auto simp: removed_def)
  moreover have "Some i \<in># engine_refs (closed_engine e) \<longleftrightarrow> (\<exists>c \<in> set (engine_callouts e). Some i = m_engine (removed c))"
    using assms by (auto simp: closed_engine_def engine_refs_def engine_callouts_def)
  ultimately show ?thesis by (simp only:)
qed

text \<open>
  C19: \<^verbatim>\<open>Close\<close> forgets the handle of the engine, but the session stays open exactly when a callout has
  the handle and no identifier, which is what a failed \<^verbatim>\<open>Add\<close> leaves: \<^verbatim>\<open>Remove\<close> returns before it
  lets go of the handle.
\<close>

theorem close_may_leave_the_session:
  assumes own: "owned (engine_refs e) s" and i: "m_engineHandle e = Some i"
  shows "m_engineHandle (fst (Engine_Close w (e, s))) = None \<and>
    (sp_get (Some i) s \<in> fst (sessions (ctl_log (snd (Engine_Close w (e, s))))) \<longleftrightarrow>
     (\<exists>c \<in> set (engine_callouts e). m_calloutId c = 0 \<and> m_engine c = Some i))"
proof -
  let ?s = "snd (Engine_Close w (e, s))" and ?R = "engine_refs (closed_engine e)"
  have sub: "Some j \<in># engine_refs e" if "Some j \<in># ?R" for j
    using that closed_engine_refs [of e j] i by (auto simp: engine_callouts_def engine_refs_def)
  have kept: "sp_get (Some j) ?s = sp_get (Some j) s" if "Some j \<in># engine_refs e" for j
    using that owned_length [OF own] same_handles_get [OF same_handles_Close] by blast
  have mine: "Some i \<in># engine_refs e" by (simp add: engine_refs_def i)
  have "sp_get (Some i) s \<in> (\<lambda>j. sp_get (Some j) ?s) ` {j. Some j \<in># ?R} \<longleftrightarrow> Some i \<in># ?R"
  proof
    assume "sp_get (Some i) s \<in> (\<lambda>j. sp_get (Some j) ?s) ` {j. Some j \<in># ?R}"
    then obtain j where "Some j \<in># ?R" "sp_get (Some i) s = sp_get (Some j) s" using sub kept by auto
    then show "Some i \<in># ?R" using owned_inj [OF own mine sub] by metis
  qed (use kept [OF mine] in \<open>auto intro!: image_eqI [of _ _ i]\<close>)
  then show ?thesis
    using owned_sessions [OF Engine_Close_effect(2) [OF own, of w]] closed_engine_refs [of e i] i
      Engine_Close_effect(1) [OF own, of w]
    by (simp add: closed_engine_def)
qed

text \<open>An engine whose first callout could not be added.\<close>

definition failed_engine :: WFPEngine where
  "failed_engine = WFPEngine_default\<lparr>m_engineHandle := Some 0, m_outboundTCPCallout := Callout_default\<lparr>m_engine := Some 0\<rparr>\<rparr>"

definition failed_ctl :: ctl where
  "failed_ctl = \<lparr>blocks = [(7, 2)], ctl_log = [(FwpmEngineOpen0 0 0, answer 0 7)]\<rparr>"

lemma failed_owned: "owned (engine_refs failed_engine) failed_ctl"
proof -
  have "{i. i = 0 \<and> (0::nat) < 2} = {0}" by auto
  moreover have "live failed_ctl = {0}" by (auto simp: live_def failed_ctl_def)
  moreover have "engine_refs failed_engine = {#Some 0, Some 0, None, None, None#}"
    by (simp add: engine_refs_def failed_engine_def WFPEngine_default_def Callout_default_def add_mset_commute)
  ultimately show ?thesis
    by (simp add: owned_def sessions_def) (simp add: failed_ctl_def answer_def)
qed

theorem close_may_leave_the_session_witness:
  "7 \<in> fst (sessions (ctl_log (snd (Engine_Close (\<lambda>_ _. answer 0 0) (failed_engine, failed_ctl)))))"
  using close_may_leave_the_session [OF failed_owned, of 0 "\<lambda>_ _. answer 0 0"]
  by (simp add: engine_callouts_def failed_engine_def WFPEngine_default_def Callout_default_def sp_get_def failed_ctl_def)

text \<open>What \<^verbatim>\<open>AddContext\<close> asks, with the handle it has.\<close>

definition process_context :: "ctl_platform \<Rightarrow> DWORD \<Rightarrow> FWPM_PROVIDER_CONTEXT" where
  "process_context P pid =
     \<lparr>context_key = ProviderContextKey, context_name = wide ''TODO: find a better name for this context'',
      context_provider = ProviderKey, context_type = FWPM_GENERAL_CONTEXT P,
      context_dataBuffer = \<lparr>byte_size = sizeof_DWORD, byte_data = dword_bytes pid\<rparr>\<rparr>"

lemma AddContext_calls:
  "\<exists>r r' tr. ctl_log (snd (snd (AddContext P w es))) = ctl_log (snd es) @
     (GetCurrentProcessId, r) # (FwpmProviderContextAdd3 (engine_handle es) (process_context P (of_nat (ret_out r))), r') # tr"
proof -
  obtain e s where es: "es = (e, s)" by fastforce
  let ?r = "w (ctl_log s) GetCurrentProcessId"
  define s1 where "s1 = snd (ctl_ask w GetCurrentProcessId s)"
  have handle: "engine_handle (e, s1) = engine_handle es"
    by (simp add: es s1_def engine_handle_def ctl_ask_eq sp_get_def split: option.splits)
  define s2 where "s2 = snd (ctl_ask w (FwpmProviderContextAdd3 (engine_handle es) (process_context P (of_nat (ret_out ?r)))) s1)"
  have "only session_free s2 (snd (snd (AddContext P w es)))"
    using handle throw_wfp_only
    by (simp add: AddContext_def process_context_def es Let_def split_def s1_def [symmetric] s2_def only.ok_refl)
  then have "\<exists>tr. ctl_log (snd (snd (AddContext P w es))) = ctl_log s2 @ tr" by (auto simp: only_def)
  then show ?thesis by (auto simp: s2_def s1_def es ctl_ask_eq)
qed

text \<open>
  Without a session \<^verbatim>\<open>RegisterProvider\<close>, \<^verbatim>\<open>AddSublayer\<close>, \<^verbatim>\<open>AddCallouts\<close> and \<^verbatim>\<open>AddFilters\<close> throw and change
  nothing, while \<^verbatim>\<open>AddContext\<close>, which has no test, goes on to add a context with a null handle.
\<close>

theorem only_AddContext_goes_on:
  assumes "engine_handle es = NULL"
  shows "RegisterProvider P w es = (Some (no_engine P ''RegisterProvider''), es) \<and>
    AddSublayer P w es = (Some (no_engine P ''AddSublayer''), es) \<and>
    AddCallouts P w es = (Some (no_engine P ''AddCallouts''), es) \<and>
    AddFilters P w es = (Some (no_engine P ''AddFilters''), es) \<and>
    (\<exists>r r' c tr. ctl_log (snd (snd (AddContext P w es))) =
       ctl_log (snd es) @ (GetCurrentProcessId, r) # (FwpmProviderContextAdd3 NULL c, r') # tr)"
  using assms AddContext_calls [of P w es]
  by (auto simp: RegisterProvider_def AddSublayer_def AddCallouts_def AddFilters_def split: prod.splits)

theorem only_AddContext_goes_on_witness:
  "fst (RegisterProvider sample_ctl (\<lambda>_ _. answer 0 0) (WFPEngine_default, fresh_ctl)) = Some (no_engine sample_ctl ''RegisterProvider'')"
  using only_AddContext_goes_on [of "(WFPEngine_default, fresh_ctl)" sample_ctl "\<lambda>_ _. answer 0 0"]
  by (simp add: engine_handle_def WFPEngine_default_def sp_get_def)

end
