(* ===== verification/Controller_Main.thy ===== *)
theory Controller_Main imports Sockets Wfp_Session begin

text \<open>
  The console program \<^verbatim>\<open>src/WFPController/main.cpp\<close>: the commands, the loop that reads them, and what
  is undone on the way out. The words typed are a parameter. At the end of the input
  \<^verbatim>\<open>std::cin >> input\<close> leaves the word as it was, so the last command runs again and again; the loop
  is a partial function in which not returning is \<open>None\<close>.
\<close>

section \<open>Commands\<close>

definition google :: wstring where
  "google = wide ''142.250.70.164''"

definition connect_command :: "ctl_platform \<Rightarrow> ctl_world \<Rightarrow> ctl action" where
  "connect_command P w s =
     (let (x, socket, s) = Socket_Connect P w (Socket_to P google 80) s;
          (socket, s) = Socket_Close P w socket s
      in (x, s))"

text \<open>The destructor has run when the handler prints the message.\<close>

definition ttl_command :: "ctl_platform \<Rightarrow> ctl_world \<Rightarrow> ctl action" where
  "ttl_command P w s =
     (let (x, socket, s) = Socket_Connect P w (SetPreconnectTTL 1 (Socket_to P google 80)) s;
          (socket, s) = Socket_Close P w socket s
      in case x of
           Some (Thrown ex) \<Rightarrow> (None, ctl_do w (Cout (what ex @ [CHR 0x0A])) s)
         | _ \<Rightarrow> (x, s))"

definition on_ctl :: "ctl action \<Rightarrow> command" where
  "on_ctl a = (\<lambda>(engine, s). let (x, s) = a s in (x, engine, s))"

definition all_commands :: "ctl_platform \<Rightarrow> ctl_world \<Rightarrow> command" where
  "all_commands P w = in_order [OpenFilterEngine P w, RegisterProvider P w, AddContext P w, AddSublayer P w,
     AddCallouts P w, AddFilters P w]"

definition run_command :: "ctl_platform \<Rightarrow> ctl_world \<Rightarrow> string \<Rightarrow> command" where
  "run_command P w input es =
     (if input = ''open'' then OpenFilterEngine P w es
      else if input = ''close'' then (None, Engine_Close w es)
      else if input = ''register'' then RegisterProvider P w es
      else if input = ''context'' then AddContext P w es
      else if input = ''callouts'' then AddCallouts P w es
      else if input = ''sublayer'' then AddSublayer P w es
      else if input = ''filter'' then AddFilters P w es
      else if input = ''all'' then all_commands P w es
      else if input = ''connect'' then on_ctl (connect_command P w) es
      else if input = ''ttl'' then on_ctl (ttl_command P w) es
      else on_ctl (\<lambda>s. (None, ctl_do w (Cout (''Error: invalid input'' @ [CHR 0x0A])) s)) es)"

text \<open>What holds of each command holds of the one that is run.\<close>

lemma run_command_cases:
  assumes "Q (OpenFilterEngine P w es)" "Q (None, Engine_Close w es)" "Q (RegisterProvider P w es)"
    "Q (AddContext P w es)" "Q (AddCallouts P w es)" "Q (AddSublayer P w es)" "Q (AddFilters P w es)"
    "Q (all_commands P w es)" "Q (on_ctl (connect_command P w) es)" "Q (on_ctl (ttl_command P w) es)"
    "\<And>t. Q (on_ctl (\<lambda>s. (None, ctl_do w (Cout t) s)) es)"
  shows "Q (run_command P w input es)"
  unfolding run_command_def by (simp only: assms split: if_split) simp

section \<open>The loop and the program\<close>

definition prompt :: "ctl_world \<Rightarrow> WFPEngine \<times> ctl \<Rightarrow> WFPEngine \<times> ctl" where
  "prompt w = (\<lambda>(engine, s). (engine, ctl_do w (Cout (''Enter input...'' @ [CHR 0x0A])) s))"

definition read_word :: "string list \<Rightarrow> string \<Rightarrow> string \<times> string list" where
  "read_word ws input = (case ws of [] \<Rightarrow> (input, []) | x # rest \<Rightarrow> (x, rest))"

text \<open>The answer says whether the loop was left by an exception (\<open>Some\<close>) or by \<^verbatim>\<open>return 0\<close>.\<close>

partial_function (option) main_loop ::
  "ctl_platform \<Rightarrow> ctl_world \<Rightarrow> string list \<Rightarrow> string \<Rightarrow> WFPEngine \<times> ctl \<Rightarrow> (stop option \<times> WFPEngine \<times> ctl) option" where
  "main_loop P w ws input es =
     (case read_word ws input of (input, ws) \<Rightarrow>
        if input = ''exit'' then Some (None, prompt w es)
        else case run_command P w input (prompt w es) of
               (Some x, es) \<Rightarrow> Some (Some x, es)
             | (None, es) \<Rightarrow> main_loop P w ws input es)"

text \<open>
  Leaving the block destroys the WinSock object and then the engine. The handler prints the
  exception's text; what is undefined is not caught.
\<close>

definition catch_all :: "ctl_world \<Rightarrow> stop option \<Rightarrow> ctl \<Rightarrow> (stop + int) \<times> ctl" where
  "catch_all w x s = (case x of
       None \<Rightarrow> (Inr 0, s)
     | Some (Thrown ex) \<Rightarrow>
         (Inr 1, ctl_do w (Cout (''Bailing as an exception occurred: '' @ what ex @ [CHR 0x0A])) s)
     | Some (Undefined u) \<Rightarrow> (Inl (Undefined u), s))"

definition controller_main :: "ctl_platform \<Rightarrow> ctl_world \<Rightarrow> string list \<Rightarrow> ctl \<Rightarrow> ((stop + int) \<times> ctl) option" where
  "controller_main P w ws s =
     (case WinSockInit_default P w s of
        (Some x, s) \<Rightarrow> Some (catch_all w (Some x) (Engine_destructor w (WFPEngine_default, s)))
      | (None, s) \<Rightarrow>
          (case main_loop P w ws [] (WFPEngine_default, s) of
             None \<Rightarrow> None
           | Some (x, engine, s) \<Rightarrow>
               Some (catch_all w x (Engine_destructor w (engine, WinSockInit_destructor w s)))))"

section \<open>When the program ends\<close>

text \<open>An exception leaves the loop; so does the word \<^verbatim>\<open>exit\<close>, and nothing else.\<close>

lemma main_loop_returns: "''exit'' \<in> set ws \<Longrightarrow> \<exists>r. main_loop P w ws input es = Some r"
proof (induction ws arbitrary: input es)
  case (Cons x ws)
  then show ?case
    by (subst main_loop.simps) (auto simp: read_word_def split: prod.split option.split)
qed simp

lemma main_loop_induct:
  assumes run: "main_loop P w ws input es = Some r"
    and exit: "\<And>ws input ws' es. read_word ws input = (''exit'', ws') \<Longrightarrow> Q ws input es (None, prompt w es)"
    and raise: "\<And>ws input i ws' es x es'. read_word ws input = (i, ws') \<Longrightarrow> i \<noteq> ''exit'' \<Longrightarrow>
      run_command P w i (prompt w es) = (Some x, es') \<Longrightarrow> Q ws input es (Some x, es')"
    and turn: "\<And>ws input i ws' es es' r. read_word ws input = (i, ws') \<Longrightarrow> i \<noteq> ''exit'' \<Longrightarrow>
      run_command P w i (prompt w es) = (None, es') \<Longrightarrow> Q ws' i es' r \<Longrightarrow> Q ws input es r"
  shows "Q ws input es r"
proof -
  have "(\<lambda>((((P', w'), ws), input), es) r. P' = P \<longrightarrow> w' = w \<longrightarrow> Q ws input es r) ((((P, w), ws), input), es) r"
  proof (rule main_loop.raw_induct [OF _ run], goal_cases)
    case (1 loop P' w' ws input es r)
    have IH: "loop P w ws i es' = Some r' \<Longrightarrow> Q ws i es' r'" if "P' = P" "w' = w" for ws i es' r'
      using 1(1) [of P w ws i es' r'] that by simp
    obtain i ws' where i: "read_word ws input = (i, ws')" by fastforce
    obtain x es' where x: "run_command P w i (prompt w es) = (x, es')" by (meson surj_pair)
    show ?case
      using 1(2) i x IH [of ws' i es' r] exit [of ws input ws' es] raise [OF i, of es _ es'] turn [OF i, of es es' r]
      by (auto split: if_splits option.splits)
  qed
  then show ?thesis by simp
qed

lemma main_loop_exit:
  assumes "main_loop P w ws input es = Some r"
  shows "fst r = None \<longrightarrow> ''exit'' \<in> insert input (set ws)"
  by (rule main_loop_induct [OF assms]) (auto simp: read_word_def split: list.splits)

text \<open>What every command keeps, the loop keeps.\<close>

lemma main_loop_keeps:
  assumes run: "main_loop P w ws input es = Some r" and I: "I es"
    and step: "\<And>input es. I es \<Longrightarrow> I (snd (run_command P w input es))" "\<And>es. I es \<Longrightarrow> I (prompt w es)"
  shows "I (snd r)"
proof -
  have "I es \<longrightarrow> I (snd r)"
    by (rule main_loop_induct [OF run]) (use step in \<open>(metis snd_conv)+\<close>)
  then show ?thesis using I by simp
qed

section \<open>The calls the commands make\<close>

text \<open>The callouts of the controller, each with the layer it is for.\<close>

definition callout_layers :: "ctl_platform \<Rightarrow> (GUID \<times> GUID) list" where
  "callout_layers P = [(OutboundTCPCalloutKey, layer_key P OUTBOUND_TRANSPORT_V4),
     (OutboundIPv4CalloutKey, layer_key P OUTBOUND_IPPACKET_V4),
     (InboundICMPErrorCalloutKey, layer_key P INBOUND_ICMP_ERROR_V4),
     (OutboundICMPErrorCalloutKey, layer_key P OUTBOUND_ICMP_ERROR_V4)]"

text \<open>
  What a call of the engine may be: a dynamic session, and objects that name each other by the keys of
  \<^verbatim>\<open>wfpcontroller.identifiers\<close>.
\<close>

fun engine_call :: "ctl_platform \<Rightarrow> ctl_call \<Rightarrow> bool" where
  "engine_call P (FwpmEngineOpen0 a f) = (f = FWPM_SESSION_FLAG_DYNAMIC P)"
| "engine_call P (FwpmEngineClose0 h) = True"
| "engine_call P (FwpmProviderAdd0 h p) = (provider_key p = ProviderKey)"
| "engine_call P (FwpmProviderContextAdd3 h c) = (context_key c = ProviderContextKey \<and> context_provider c = ProviderKey)"
| "engine_call P (FwpmSubLayerAdd0 h l) = (sublayer_key l = SublayerKey \<and> sublayer_provider l = ProviderKey)"
| "engine_call P (FwpmCalloutAdd0 h c) =
     ((callout_key c, callout_layer c) \<in> set (callout_layers P) \<and> callout_provider c = ProviderKey)"
| "engine_call P (FwpmCalloutDeleteByKey0 h k) = True"
| "engine_call P (FwpmFilterAdd0 h f) =
     ((filter_callout f, filter_layer f) \<in> set (callout_layers P) \<and> filter_provider f = ProviderKey \<and>
      filter_sublayer f = SublayerKey \<and> filter_context f = ProviderContextKey)"
| "engine_call P GetCurrentProcessId = True"
| "engine_call P (Cout t) = True"
| "engine_call P (Cerr t) = True"
| "engine_call P c = translates c"

fun network_call :: "ctl_call \<Rightarrow> bool" where
  "network_call (GetAddrInfoW h p) = True"
| "network_call (FreeAddrInfoW a) = True"
| "network_call (Cout t) = True"
| "network_call c = socket_call c"

text \<open>The trace only grows, by calls of one kind. The control blocks may change.\<close>

definition adds :: "(ctl_call \<Rightarrow> bool) \<Rightarrow> ctl \<Rightarrow> ctl \<Rightarrow> bool" where
  "adds Q s s' \<longleftrightarrow> (\<exists>tr. ctl_log s' = ctl_log s @ tr \<and> list_all (Q \<circ> fst) tr)"

lemma adds_refl: "adds Q s s"
  by (simp add: adds_def)

lemma adds_trans: "adds Q s t \<Longrightarrow> adds Q t u \<Longrightarrow> adds Q s u"
  by (auto simp: adds_def)

interpretation adds: action_contract "adds Q" for Q
  by unfold_locales (auto intro: adds_refl adds_trans)

interpretation engine_adds: action_contract "\<lambda>es es'. adds Q (snd es) (snd es')" for Q
  by unfold_locales (auto intro: adds_refl adds_trans)

lemma adds_only: "adds Q s t \<Longrightarrow> only Q t u \<Longrightarrow> adds Q s u"
  by (auto simp: adds_def only_def)

lemma adds_mono: "adds Q s t \<Longrightarrow> (\<And>c. Q c \<Longrightarrow> Q' c) \<Longrightarrow> adds Q' s t"
  by (auto simp: adds_def list_all_iff)

lemma adds_then:
  assumes "adds Q s t"
  shows "Q c \<Longrightarrow> adds Q s (ctl_do w c t)" "Q c \<Longrightarrow> adds Q s (snd (ctl_ask w c t))"
    "adds Q s (t\<lparr>blocks := b\<rparr>)"
  using assms by (auto simp: adds_def ctl_simps)

lemma adds_shared:
  assumes "adds (engine_call P) s t"
  shows "adds (engine_call P) s (close_session w h t)" "adds (engine_call P) s (sp_release w p t)"
    "adds (engine_call P) s (sp_copy p t)" "adds (engine_call P) s (snd (sp_new h t))"
    "adds (engine_call P) s (snd (throw_wfp P w site m c t))"
proof -
  have close: "adds (engine_call P) s (close_session w h t)" if "adds (engine_call P) s t" for h t
    using that by (auto simp: close_session_def Let_def split_def intro!: adds_then)
  show "adds (engine_call P) s (close_session w h t)" by (rule close) (rule assms)
  show "adds (engine_call P) s (sp_release w p t)"
    using assms by (auto simp: sp_release_def split_def Let_def intro!: close adds_then split: option.split)
  show "adds (engine_call P) s (sp_copy p t)" "adds (engine_call P) s (snd (sp_new h t))"
    using assms by (auto simp: sp_copy_def sp_new_def intro!: adds_then split: option.split)
  have "translates c \<Longrightarrow> engine_call P c" for c by (cases c) simp_all
  then have "only (engine_call P) t (snd (throw_wfp P w site m c t))"
    unfolding throw_wfp_def split_def Let_def snd_conv
    by (intro only_mono [OF error_constructors_only(1)])
  then show "adds (engine_call P) s (snd (throw_wfp P w site m c t))" by (rule adds_only [OF assms])
qed

lemma adds_Remove: "adds (engine_call P) s t \<Longrightarrow> adds (engine_call P) s (snd (Callout_Remove w c t))"
  by (auto simp: Callout_Remove_def Let_def split_def intro!: adds_shared(2) adds_then)

lemma adds_destructor: "adds (engine_call P) s t \<Longrightarrow> adds (engine_call P) s (Callout_destructor w c t)"
  by (auto simp: Callout_destructor_def Let_def split_def intro!: adds_shared(2) adds_Remove)

lemma adds_Close:
  "adds (engine_call P) s t \<Longrightarrow> adds (engine_call P) s (snd (Engine_Close w (e, t)))"
  "adds (engine_call P) s t \<Longrightarrow> adds (engine_call P) s (Engine_destructor w (e, t))"
proof -
  have close: "adds (engine_call P) s t \<Longrightarrow> adds (engine_call P) s (snd (Engine_Close w (e, t)))" for e t
    by (auto simp: Engine_Close_def Let_def split_def intro!: adds_shared(2) adds_Remove)
  then show "adds (engine_call P) s t \<Longrightarrow> adds (engine_call P) s (snd (Engine_Close w (e, t)))" .
  show "adds (engine_call P) s t \<Longrightarrow> adds (engine_call P) s (Engine_destructor w (e, t))"
    by (auto simp: Engine_destructor_def Let_def split_def intro!: adds_shared(2) adds_destructor close)
qed

lemma adds_Callout_Add:
  assumes "(m_calloutKey c, m_applicableLayerKey c) \<in> set (callout_layers P)" "m_providerKey c = ProviderKey"
    "adds (engine_call P) s t"
  shows "adds (engine_call P) s (snd (snd (Callout_Add P w c t)))"
  using assms by (auto simp: Callout_Add_def Let_def split_def intro!: adds_shared(5) adds_then)

lemma adds_assign_and_add:
  assumes "(key, layer_key P layer) \<in> set (callout_layers P)" "adds (engine_call P) s t"
  shows "adds (engine_call P) s (snd (snd (assign_and_add P w key layer name p member t)))"
  using assms
  by (auto simp: assign_and_add_def Callout_construct_def Callout_Move_def Let_def split_def
      intro!: adds_Callout_Add adds_destructor adds_shared(2,3) adds_Remove)

lemma adds_AddFilter:
  assumes "(key, layer) \<in> set (callout_layers P)" "adds (engine_call P) s t"
  shows "adds (engine_call P) s (snd (snd (AddFilter P w p name layer SublayerKey key weight act conds i t)))"
  using assms by (auto simp: AddFilter_def Let_def split_def intro!: adds_shared(5) adds_then)

lemma adds_single:
  "adds (engine_call P) (snd es) (snd (snd (OpenFilterEngine P w es)))"
  "adds (engine_call P) (snd es) (snd (snd (RegisterProvider P w es)))"
  "adds (engine_call P) (snd es) (snd (snd (AddContext P w es)))"
  "adds (engine_call P) (snd es) (snd (snd (AddSublayer P w es)))"
  by (cases es, auto simp: OpenFilterEngine_def RegisterProvider_def AddContext_def AddSublayer_def Let_def split_def
      intro!: adds_shared(2,4,5) adds_then adds_refl)+

lemma adds_AddCallouts: "adds (engine_call P) (snd es) (snd (snd (AddCallouts P w es)))"
proof -
  have "adds (engine_call P) (snd es) (snd (snd (a es)))"
    if "a \<in> {AddOutboundTCPPacketCallout P w, AddOutboundIPv4PacketCallout P w, AddInboundICMPErrorCallout P w,
        AddOutboundICMPErrorCallout P w, AddInboundIPv4PacketCallout}" for a es
    using that
    by (cases es) (auto simp: AddOutboundTCPPacketCallout_def AddOutboundIPv4PacketCallout_def
        AddInboundICMPErrorCallout_def AddOutboundICMPErrorCallout_def AddInboundIPv4PacketCallout_def Let_def split_def
        callout_layers_def intro!: adds_assign_and_add adds_refl)
  then show ?thesis
    by (auto simp: AddCallouts_def simp del: in_order_simps intro!: engine_adds.in_order_ok adds_refl)
qed

lemma adds_AddFilters: "adds (engine_call P) (snd es) (snd (snd (AddFilters P w es)))"
proof -
  have "adds (engine_call P) (snd es) (snd (snd (a es)))"
    if "a \<in> {add_IPv4_filter P w, add_inbound_ICMP_filter P w, add_outbound_ICMP_filter P w, add_transport_filter P w}"
    for a es
    using that
    by (cases es) (auto simp: add_IPv4_filter_def add_inbound_ICMP_filter_def add_outbound_ICMP_filter_def
        add_transport_filter_def Let_def split_def callout_layers_def intro!: adds_AddFilter adds_refl)
  then show ?thesis
    by (auto simp: AddFilters_def simp del: in_order_simps intro!: engine_adds.in_order_ok adds_refl)
qed

lemma adds_all: "adds (engine_call P) (snd es) (snd (snd (all_commands P w es)))"
  unfolding all_commands_def
  by (rule engine_adds.in_order_ok) (auto intro: adds_single adds_AddCallouts adds_AddFilters)

text \<open>Connecting, closing and the two commands that do.\<close>

lemma Socket_Connect_only: "only network_call s (snd (snd (Socket_Connect P w this s)))"
proof -
  have sock: "socket_call c \<Longrightarrow> network_call c" for c by (cases c) simp_all
  have ask: "only network_call t u \<Longrightarrow> network_call c \<Longrightarrow> only network_call t (snd (ctl_ask w c u))"
    and doing: "only network_call t u \<Longrightarrow> network_call c \<Longrightarrow> only network_call t (ctl_do w c u)" for t u c
    by (auto intro: only.ok_trans only_ask only_do)
  have err: "only network_call t u \<Longrightarrow> only network_call t (snd (WinSockError P w site m c u))" for t u site m c
    by (erule only.ok_trans) (rule only_mono [OF error_socket_call sock])
  have loop: "only network_call t u \<Longrightarrow> only network_call t (snd (snd (connect_loop P w as h u)))" for t u as h
    by (erule only.ok_trans) (rule only_mono [OF connect_loop_socket_call sock])
  have conv: "only network_call t u \<Longrightarrow> only network_call t (snd (ConvertString_host P w n u))" for t u n
    by (erule only.ok_trans) (rule only_mono [OF convert_socket_call sock])
  have finish: "only network_call t (snd (connect_finish P w a e h u))" if "only network_call t u" for t u a e h
  proof -
    obtain r v where v: "ConvertString_host P w (m_host h) u = (r, v)" by fastforce
    then have "only network_call t v" using conv [OF that] by (metis snd_conv)
    then show ?thesis
      using that v by (auto simp: connect_finish_def Let_def split: sum.split intro!: doing)
  qed
  have "network_call (host_call this)" by (simp add: host_call_def)
  then show ?thesis
    unfolding Socket_Connect_eq Let_def split_def by (auto intro!: ask err finish loop only.ok_refl)
qed

lemma Socket_Close_only: "only network_call s (snd (Socket_Close P w this s))"
  by (auto simp: Socket_Close_def intro: only_do only.ok_refl)

lemma network_commands_only:
  "only network_call s (snd (connect_command P w s))" "only network_call s (snd (ttl_command P w s))"
proof -
  have c: "only network_call s (snd (Socket_Close P w h (snd (snd (Socket_Connect P w this s)))))" for h this
    by (rule only.ok_trans [OF Socket_Connect_only Socket_Close_only])
  show "only network_call s (snd (connect_command P w s))"
    by (simp add: connect_command_def Let_def split_def c)
  have "network_call (Cout t)" for t by simp
  note out = only.ok_trans [OF c only_do, OF this]
  show "only network_call s (snd (ttl_command P w s))"
    by (auto simp: ttl_command_def Let_def split_def c split: option.split stop.split intro: out)
qed

text \<open>The first two calls of the program and the last ones apart, these are all the calls it makes.\<close>

definition command_call :: "ctl_platform \<Rightarrow> ctl_call \<Rightarrow> bool" where
  "command_call P c \<longleftrightarrow> engine_call P c \<or> network_call c"

lemma run_command_adds: "adds (command_call P) (snd es) (snd (snd (run_command P w input es)))"
proof -
  have engine: "adds (command_call P) s t" if "adds (engine_call P) s t" for s t
    by (rule adds_mono [OF that]) (simp add: command_call_def)
  have network: "adds (command_call P) s t" if "only network_call s t" for s t
    using only_mono [OF that, of "command_call P"] adds_only [OF adds_refl] by (auto simp: command_call_def)
  have out: "adds (command_call P) s (ctl_do w (Cout t) s)" for s t
    by (rule adds_then(1) [OF adds_refl]) (simp add: command_call_def)
  have close: "adds (engine_call P) (snd es) (snd (Engine_Close w es))"
    using adds_Close(1) [OF adds_refl] by (cases es) simp
  show ?thesis
    by (rule run_command_cases) (simp_all add: on_ctl_def Let_def split_def out network network_commands_only engine
        close adds_single adds_AddCallouts adds_AddFilters adds_all)
qed

section \<open>What the program keeps open\<close>

lemma run_command_sessions:
  assumes "sessions_api w"
  shows "keeps_sessions es (snd (run_command P w input es))"
proof -
  have network: "keeps_sessions es (snd (on_ctl a es))" if "only session_free (snd es) (snd (a (snd es)))" for a
    using that owned_only by (cases es) (auto simp: on_ctl_def Let_def split_def keeps_sessions_def)
  have free: "only session_free s t" if "only network_call s t" for s t
  proof (rule only_mono [OF that])
    show "network_call c \<Longrightarrow> session_free c" for c by (cases c) simp_all
  qed
  have all: "keeps_sessions es (snd (all_commands P w es))"
    unfolding all_commands_def
    by (rule keeps.in_order_ok)
      (auto intro: keeps_OpenFilterEngine [OF assms] keeps_RegisterProvider keeps_AddContext keeps_AddSublayer
        keeps_AddCallouts keeps_AddFilters)
  show ?thesis
    by (rule run_command_cases) (auto intro!: network free network_commands_only all keeps_Close
        keeps_OpenFilterEngine [OF assms] keeps_RegisterProvider keeps_AddContext keeps_AddSublayer
        keeps_AddCallouts keeps_AddFilters only_do)
qed

text \<open>The sockets whose closing the system has refused at some time.\<close>

fun refused_close :: "ctl_platform \<Rightarrow> ctl_call \<times> ctl_ret \<Rightarrow> handle set" where
  "refused_close P (Closesocket h, r) = (if ret_status r = SOCKET_ERROR P then {h} else {})"
| "refused_close P _ = {}"

definition refused :: "ctl_platform \<Rightarrow> ctl_trace \<Rightarrow> handle set" where
  "refused P tr = (\<Union>e \<in> set tr. refused_close P e)"

lemma refused_append: "refused P tr \<subseteq> refused P (tr @ tr')"
  by (auto simp: refused_def)

lemma refused_monitor: "fst (snd (sockets P tr)) \<subseteq> refused P tr"
proof (induction tr rule: rev_induct)
  case (snoc e tr)
  obtain c r where e: "e = (c, r)" by fastforce
  obtain A R ok where m: "sockets P tr = (A, R, ok)" by (metis prod_cases3)
  have "fst (snd (socket_step P (A, R, ok) e)) \<subseteq> R \<union> refused_close P e"
    unfolding e by (cases c) auto
  then show ?case using snoc.IH by (auto simp: sockets.run_snoc m refused_def)
qed (simp add: sockets.run_Nil)

text \<open>
  No socket is open but those and one with the handle 0, which \<^verbatim>\<open>Close\<close> takes for none; and none was used
  that was not open.
\<close>

definition tidy :: "ctl_platform \<Rightarrow> ctl \<Rightarrow> bool" where
  "tidy P s \<longleftrightarrow> snd (snd (sockets P (ctl_log s))) \<and> fst (sockets P (ctl_log s)) \<subseteq> insert NULL (refused P (ctl_log s))"

lemma tidy_adds:
  assumes "tidy P s" "adds Q s s'" "\<And>m c r. Q c \<Longrightarrow> socket_step P m (c, r) = m"
  shows "tidy P s'"
proof -
  obtain tr where tr: "ctl_log s' = ctl_log s @ tr" "list_all (Q \<circ> fst) tr" using assms(2) by (auto simp: adds_def)
  have "foldl (socket_step P) m tr = m" for m using tr(2) assms(3) by (induction tr arbitrary: m) auto
  then have "sockets P (ctl_log s') = sockets P (ctl_log s)" by (simp add: sockets_def tr)
  then show ?thesis using assms(1) refused_append [of P "ctl_log s" tr] by (auto simp: tidy_def tr)
qed

lemma engine_call_sockets: "engine_call P c \<Longrightarrow> socket_step P m (c, r) = m"
  by (cases m; cases c) simp_all

lemma tidy_do: "tidy P s \<Longrightarrow> tidy P (ctl_do w (Cout t) s)"
  by (erule tidy_adds [where Q = "engine_call P"]) (auto intro: adds_then(1) adds_refl engine_call_sockets)

lemma tidy_connection:
  assumes api: "sockets_api P w" and tidy: "tidy P s" and new: "m_socket this = INVALID_SOCKET P"
    and c: "Socket_Connect P w this s = (x, h, s1)"
  shows "tidy P (snd (Socket_Close P w h s1))"
proof -
  obtain A R where A: "sockets P (ctl_log s) = (A, R, True)"
    using tidy unfolding tidy_def by (metis (full_types) prod.collapse)
  then have "A \<subseteq> insert NULL (refused P (ctl_log s))" using tidy by (simp add: tidy_def)
  moreover obtain h2 s2 where h2: "Socket_Close P w h s1 = (h2, s2)" by fastforce
  have "only network_call s s2"
    using Socket_Connect_only [of s P w this] Socket_Close_only [of s1 P w h] c h2 by (auto intro: only.ok_trans)
  then have grows: "refused P (ctl_log s) \<subseteq> refused P (ctl_log s2)"
    by (auto simp: only_def refused_def)
  have "owns_none P A h s1 \<or> owns_socket P A h s1"
    using connect_effect [OF api A c] new by (auto simp: owns_none_def unreachable_def split: if_splits)
  then have "\<exists>B R. sockets P (ctl_log s2) = (B, R, True) \<and> B \<subseteq> insert NULL (A \<union> R)"
    using Socket_Close_effect [OF h2, of A] by (auto simp: owns_none_def)
  then obtain B R' where B: "sockets P (ctl_log s2) = (B, R', True)" "B \<subseteq> insert NULL (A \<union> R')" by blast
  have "R' \<subseteq> refused P (ctl_log s2)" using refused_monitor [of P "ctl_log s2"] B(1) by simp
  then show ?thesis using B calculation grows by (auto simp: tidy_def h2)
qed

lemma run_command_tidy:
  assumes "sockets_api P w" "tidy P (snd es)"
  shows "tidy P (snd (snd (run_command P w input es)))"
proof -
  have engine: "tidy P s" if "adds (engine_call P) (snd es) s" for s
    by (rule tidy_adds [OF assms(2) that]) (rule engine_call_sockets)
  have new: "m_socket (Socket_to P host port) = INVALID_SOCKET P"
    "m_socket (SetPreconnectTTL n (Socket_to P host port)) = INVALID_SOCKET P" for host port n
    by (simp_all add: Socket_to_def Socket_default_def SetPreconnectTTL_def)
  have conn: "tidy P (snd (Socket_Close P w (fst (snd (Socket_Connect P w this (snd es))))
      (snd (snd (Socket_Connect P w this (snd es))))))" if "m_socket this = INVALID_SOCKET P" for this
    by (rule tidy_connection [OF assms that]) (simp add: prod_eq_iff)
  have close: "adds (engine_call P) (snd es) (snd (Engine_Close w es))"
    using adds_Close(1) [OF adds_refl] by (cases es) simp
  show ?thesis
    by (rule run_command_cases)
      (auto simp: on_ctl_def Let_def split_def connect_command_def ttl_command_def
        intro!: engine close adds_single adds_AddCallouts adds_AddFilters adds_all conn new tidy_do assms(2)
        split: option.split stop.split)
qed

section \<open>Every way out is an exception that can be caught\<close>

definition caught :: "stop option \<Rightarrow> bool" where
  "caught x \<longleftrightarrow> (\<forall>u. x \<noteq> Some (Undefined u))"

lemma caught_simps [simp]: "caught None" "caught (Some (Thrown ex))"
  by (simp_all add: caught_def)

lemma caught_throw [simp]: "caught (Some (fst (throw_wfp P w site m c s)))" "caught (Some (fst (throw_last P w site m s)))"
  "caught (Some (no_engine P f))"
  by (simp_all add: throw_wfp_def throw_last_def no_engine_def split_def Let_def)

lemma caught_in_order: "(\<And>a s. a \<in> set as \<Longrightarrow> caught (fst (a s))) \<Longrightarrow> caught (fst (in_order as s))"
proof (induction as arbitrary: s)
  case (Cons a as)
  have "caught (fst (a s))" using Cons.prems by simp
  moreover have "caught (fst (in_order as t))" for t using Cons by simp
  ultimately show ?case by (auto simp: and_then_def split: prod.split option.split)
qed simp

lemma caught_TTL: "caught (fst (SetSocketTTL P w ttl this s))"
  by (auto simp: SetSocketTTL_def Let_def split_def split: option.split)

lemma caught_attempt: "caught (fst (connect_attempt P w a this s))"
  using caught_TTL by (auto simp: connect_attempt_def Let_def split_def)

lemma caught_loop: "caught (fst (connect_loop P w as this s))"
proof (induction as arbitrary: this s)
  case (Cons a as)
  have "caught (fst (case r of (None, h, t) \<Rightarrow> connect_loop P w as h t | (Some e, h, t) \<Rightarrow> (Some e, h, t)))"
    if "caught (fst r)" for r
    using that Cons.IH by (auto split: prod.split option.split)
  from this [OF caught_attempt] show ?case by simp
qed simp

lemma caught_Connect: "caught (fst (Socket_Connect P w this s))"
proof -
  have conv: "caught (Some x)" if "fst (ConvertString_host P w h t) = Inl x" for x h t
    using that by (auto simp: ConvertString_host_def Let_def split_def split: sum.splits string_error.splits)
  have "caught (fst (connect_finish P w a e h t))" if "caught e" for a e h t
    using that conv [of "m_host h" t] by (auto simp: connect_finish_def Let_def split_def split: sum.split)
  then show ?thesis
    using caught_loop by (auto simp: Socket_Connect_eq Let_def split_def)
qed

lemma caught_engine:
  "caught (fst (OpenFilterEngine P w es))" "caught (fst (RegisterProvider P w es))" "caught (fst (AddContext P w es))"
  "caught (fst (AddSublayer P w es))" "caught (fst (AddCallouts P w es))" "caught (fst (AddFilters P w es))"
proof -
  show "caught (fst (OpenFilterEngine P w es))" "caught (fst (RegisterProvider P w es))" "caught (fst (AddContext P w es))"
    "caught (fst (AddSublayer P w es))"
    by (cases es, simp add: OpenFilterEngine_def RegisterProvider_def AddContext_def AddSublayer_def Let_def split_def)+
  have "caught (fst (Callout_Add P w c t))" for c t
    by (simp add: Callout_Add_def Let_def split_def)
  then have "caught (fst (assign_and_add P w key layer name p c t))" for key layer name p c t
    by (simp add: assign_and_add_def Callout_construct_def Let_def split_def)
  then have "caught (fst (a es))"
    if "a \<in> {AddOutboundTCPPacketCallout P w, AddOutboundIPv4PacketCallout P w, AddInboundICMPErrorCallout P w,
        AddOutboundICMPErrorCallout P w, AddInboundIPv4PacketCallout}" for a es
    using that by (cases es) (auto simp: AddOutboundTCPPacketCallout_def AddOutboundIPv4PacketCallout_def
        AddInboundICMPErrorCallout_def AddOutboundICMPErrorCallout_def AddInboundIPv4PacketCallout_def Let_def split_def)
  then show "caught (fst (AddCallouts P w es))"
    by (auto simp: AddCallouts_def simp del: in_order_simps intro!: caught_in_order)
  have "caught (fst (AddFilter P w p name layer sub key weight act conds i t))" for p name layer sub key weight act conds i t
    by (simp add: AddFilter_def Let_def split_def)
  then have "caught (fst (a es))"
    if "a \<in> {add_IPv4_filter P w, add_inbound_ICMP_filter P w, add_outbound_ICMP_filter P w, add_transport_filter P w}"
    for a es
    using that by (cases es) (auto simp: add_IPv4_filter_def add_inbound_ICMP_filter_def add_outbound_ICMP_filter_def
        add_transport_filter_def Let_def split_def)
  then show "caught (fst (AddFilters P w es))"
    by (auto simp: AddFilters_def simp del: in_order_simps intro!: caught_in_order)
qed

lemma caught_command: "caught (fst (run_command P w input es))"
proof -
  have "caught (fst (all_commands P w es))"
    unfolding all_commands_def by (rule caught_in_order) (auto intro: caught_engine)
  moreover have "caught (fst (connect_command P w s))" for s
    by (simp add: connect_command_def Let_def split_def caught_Connect)
  moreover have "caught (fst (ttl_command P w s))" for s
    using caught_Connect [of P w "SetPreconnectTTL 1 (Socket_to P google 80)" s]
    by (cases "fst (Socket_Connect P w (SetPreconnectTTL 1 (Socket_to P google 80)) s)")
      (auto simp: ttl_command_def Let_def split_def split: stop.split)
  ultimately show ?thesis
    by (intro run_command_cases [where Q = "\<lambda>r. caught (fst r)"]) (simp_all add: on_ctl_def Let_def split_def caught_engine)
qed

lemma caught_result: "run_command P w input es = (x, es') \<Longrightarrow> caught x"
  using caught_command [of P w input es] by simp

lemma caught_main_loop:
  assumes "main_loop P w ws input es = Some r"
  shows "caught (fst r)"
proof (rule main_loop_induct [OF assms], goal_cases)
  case (2 ws input i ws' es x es')
  show ?case unfolding fst_conv by (rule caught_result [OF 2(3)])
qed simp_all

section \<open>The whole run\<close>

definition wsa_started :: "ctl_call \<times> ctl_ret \<Rightarrow> bool" where
  "wsa_started e \<longleftrightarrow> (\<exists>v. fst e = WSAStartup v) \<and> ret_status (snd e) = 0"

definition wsa_cleaned :: "ctl_call \<times> ctl_ret \<Rightarrow> bool" where
  "wsa_cleaned e \<longleftrightarrow> fst e = WSACleanup"

definition program_call :: "ctl_platform \<Rightarrow> ctl_call \<Rightarrow> bool" where
  "program_call P c \<longleftrightarrow> command_call P c \<or> c = WSAStartup 0x202 \<or> c = WSACleanup"

lemma command_call_wsa: "list_all (command_call P \<circ> fst) tr \<Longrightarrow>
    occurrences wsa_started tr = 0 \<and> occurrences wsa_cleaned tr = 0"
proof (induction tr)
  case (Cons e tr)
  have "\<not> command_call P (WSAStartup v)" "\<not> command_call P WSACleanup" for v by (simp_all add: command_call_def)
  then have "\<not> wsa_started e \<and> \<not> wsa_cleaned e" using Cons.prems by (auto simp: wsa_started_def wsa_cleaned_def)
  then show ?case using Cons by simp
qed simp

text \<open>The state in which the loop runs, seen from the trace \<open>tr\<close> it started with.\<close>

definition running :: "ctl_platform \<Rightarrow> ctl \<Rightarrow> WFPEngine \<times> ctl \<Rightarrow> bool" where
  "running P s1 es \<longleftrightarrow> owned (engine_refs (fst es)) (snd es) \<and> tidy P (snd es) \<and> adds (command_call P) s1 (snd es)"

lemma running_command:
  assumes "sessions_api w" "sockets_api P w" "running P s1 es"
  shows "running P s1 (snd (run_command P w input es))"
  using assms run_command_sessions [OF assms(1), of es P input] run_command_tidy [OF assms(2), of es input]
    run_command_adds [of P es w input]
  by (auto simp: running_def keeps_sessions_def intro: adds_trans)

lemma running_prompt: "running P s1 es \<Longrightarrow> running P s1 (prompt w es)"
  by (cases es) (auto simp: running_def prompt_def command_call_def intro!: owned_do tidy_do adds_then)

lemma running_start:
  assumes "s1 = snd (ctl_ask w (WSAStartup 0x202) fresh_ctl)"
  shows "running P s1 (WFPEngine_default, s1)"
proof -
  have "owned (engine_refs WFPEngine_default) fresh_ctl" "tidy P fresh_ctl"
    by (auto simp: owned_def engine_refs_def WFPEngine_default_def Callout_default_def fresh_ctl_def live_def
        sessions_def tidy_def sockets_def)
  then show ?thesis
    unfolding assms running_def fst_conv snd_conv
    by (auto intro!: owned_ask adds_refl) (simp add: tidy_def ctl_ask_eq sockets_def fresh_ctl_def)
qed

lemma adds_engine_commands: "adds (engine_call P) s t \<Longrightarrow> adds (command_call P) s t"
  by (erule adds_mono) (simp add: command_call_def)

text \<open>
  Leaving: the engine is destroyed, so no session is left that was not handed back. The result comes from an exception that is
  caught or from \<^verbatim>\<open>return 0\<close>.
\<close>

lemma leaving:
  assumes "owned (engine_refs e) s" "tidy P s" "caught x"
    and "catch_all w x (Engine_destructor w (e, s)) = (r, s')"
  shows "r = (if x = None then Inr 0 else Inr 1) \<and> sessions (ctl_log s') = ({}, True) \<and> tidy P s' \<and>
    adds (command_call P) s s'"
proof -
  let ?s = "Engine_destructor w (e, s)"
  have d: "owned {#} ?s" "tidy P ?s" "adds (command_call P) s ?s"
  proof -
    show "owned {#} ?s" by (rule destructor_closes [OF assms(1)])
    have e: "adds (engine_call P) s ?s" by (rule adds_Close(2) [OF adds_refl])
    show "tidy P ?s" by (rule tidy_adds [OF assms(2) e]) (rule engine_call_sockets)
    show "adds (command_call P) s ?s" by (rule adds_engine_commands [OF e])
  qed
  have out: "owned {#} (ctl_do w (Cout t) ?s)" "tidy P (ctl_do w (Cout t) ?s)"
    "adds (command_call P) s (ctl_do w (Cout t) ?s)" for t
    using d by (auto intro: owned_do tidy_do adds_then simp: command_call_def)
  show ?thesis
    using assms(3,4) owned_nothing d out
    by (cases x) (auto simp: catch_all_def caught_def split: stop.splits)
qed

lemma leaving_unstarted:
  assumes start: "running P s1 (WFPEngine_default, s1)" and q: "only quiet s1 s2"
    and run: "catch_all w (Some (Thrown ex)) (Engine_destructor w (WFPEngine_default, s2)) = (r, s)"
  shows "r = Inr 1 \<and> sessions (ctl_log s) = ({}, True) \<and> tidy P s \<and> adds (command_call P) s1 s"
proof -
  have qc: "quiet c \<Longrightarrow> command_call P c \<and> session_free c" for c by (cases c) (simp_all add: command_call_def)
  have "owned (engine_refs WFPEngine_default) s2"
    using start owned_only [OF _ only_mono [OF q]] qc by (auto simp: running_def)
  moreover have "adds (command_call P) s1 s2"
    using adds_only [OF adds_refl only_mono [OF q]] qc by blast
  moreover have "tidy P s2"
  proof (rule tidy_adds [OF _ adds_only [OF adds_refl q]])
    show "tidy P s1" using start by (simp add: running_def)
    show "socket_step P m (c, r) = m" if "quiet c" for m c r using that by (cases m; cases c) simp_all
  qed
  ultimately show ?thesis
    using leaving [OF _ _ caught_simps(2)] run by (fastforce intro: adds_trans)
qed

lemma leaving_started:
  assumes api: "sessions_api w" "sockets_api P w" and start: "running P s1 (WFPEngine_default, s1)"
    and loop: "main_loop P w ws [] (WFPEngine_default, s1) = Some (x, e, s2)"
    and r: "catch_all w x (Engine_destructor w (e, WinSockInit_destructor w s2)) = (r, s)"
  shows "r = (if x = None then Inr 0 else Inr 1) \<and> sessions (ctl_log s) = ({}, True) \<and> tidy P s"
    and "x = None \<Longrightarrow> ''exit'' \<in> set ws"
    and "\<exists>t1 a t2. ctl_log s = ctl_log s1 @ t1 @ (WSACleanup, a) # t2 \<and>
      list_all (command_call P \<circ> fst) t1 \<and> list_all (command_call P \<circ> fst) t2"
proof -
  have "running P s1 (e, s2)"
    using main_loop_keeps [OF loop, of "running P s1"] start running_command [OF api] running_prompt by simp
  then have 2: "owned (engine_refs e) (ctl_do w WSACleanup s2)" "tidy P (ctl_do w WSACleanup s2)"
    "adds (command_call P) s1 s2"
    by (auto simp: running_def intro: owned_do)
      (auto simp: tidy_def ctl_do_eq sockets.run_snoc refused_def split: prod.splits)
  have "caught x" using caught_main_loop [OF loop] by simp
  note ended = leaving [OF 2(1,2) this r [unfolded WinSockInit_destructor_def]]
  then show "r = (if x = None then Inr 0 else Inr 1) \<and> sessions (ctl_log s) = ({}, True) \<and> tidy P s" by simp
  show "x = None \<Longrightarrow> ''exit'' \<in> set ws" using main_loop_exit [OF loop] by auto
  obtain t1 where t1: "ctl_log s2 = ctl_log s1 @ t1" "list_all (command_call P \<circ> fst) t1"
    using 2(3) by (auto simp: adds_def)
  obtain t2 where t2: "ctl_log s = ctl_log (ctl_do w WSACleanup s2) @ t2" "list_all (command_call P \<circ> fst) t2"
    using ended by (auto simp: adds_def)
  show "\<exists>t1 a t2. ctl_log s = ctl_log s1 @ t1 @ (WSACleanup, a) # t2 \<and>
      list_all (command_call P \<circ> fst) t1 \<and> list_all (command_call P \<circ> fst) t2"
    by (rule exI [of _ t1], rule exI [of _ "w (ctl_log s2) WSACleanup"], rule exI [of _ t2])
      (simp add: t1 t2 ctl_do_eq)
qed

lemma main_run:
  assumes api: "sessions_api w" "sockets_api P w" and run: "controller_main P w ws fresh_ctl = Some (r, s)"
  shows "r \<in> {Inr 0, Inr 1} \<and> (r = Inr 0 \<longrightarrow> ''exit'' \<in> set ws) \<and>
    sessions (ctl_log s) = ({}, True) \<and> tidy P s \<and>
    occurrences wsa_started (ctl_log s) = occurrences wsa_cleaned (ctl_log s) \<and>
    list_all (program_call P \<circ> fst) (ctl_log s)"
proof -
  let ?c = "WSAStartup 0x202" and ?m = "''Failed to initialise WinSock''"
  define s1 where "s1 = snd (ctl_ask w ?c fresh_ctl)"
  have log1: "ctl_log s1 = [(?c, w [] ?c)]" by (simp add: s1_def ctl_ask_eq fresh_ctl_def)
  have start: "running P s1 (WFPEngine_default, s1)" by (rule running_start) (simp add: s1_def)
  define err where "err = WinSockError P w ''Initialize'' ?m (ret_status (w [] ?c)) s1"
  have init: "WinSockInit_default P w fresh_ctl =
      (if ret_status (w [] ?c) \<noteq> 0 then (Some (Thrown (fst err)), snd err) else (None, s1))"
    by (simp add: WinSockInit_default_def WinSockInit_Initialize_def MAKEWORD_def s1_def err_def Let_def split_def)
      (simp add: fresh_ctl_def)
  show ?thesis
  proof (cases "ret_status (w [] ?c) = 0")
    case False
    have "only quiet s1 (snd err)" by (simp add: err_def error_quiet)
    moreover have "catch_all w (Some (Thrown (fst err))) (Engine_destructor w (WFPEngine_default, snd err)) = (r, s)"
      using run False init by (auto simp: controller_main_def)
    ultimately have ended: "r = Inr 1 \<and> sessions (ctl_log s) = ({}, True) \<and> tidy P s \<and> adds (command_call P) s1 s"
      by (rule leaving_unstarted [OF start])
    then obtain tr where "ctl_log s = (?c, w [] ?c) # tr" "list_all (command_call P \<circ> fst) tr"
      by (auto simp: adds_def log1)
    then show ?thesis
      using ended False command_call_wsa [of P tr]
      by (auto simp: wsa_started_def wsa_cleaned_def program_call_def list_all_iff)
  next
    case True
    obtain x e s2 where "main_loop P w ws [] (WFPEngine_default, s1) = Some (x, e, s2)"
      and "catch_all w x (Engine_destructor w (e, WinSockInit_destructor w s2)) = (r, s)"
      using run True init by (auto simp: controller_main_def split: option.splits)
    note ended = leaving_started [OF api start this]
    then obtain t1 t2 a where "ctl_log s = (?c, w [] ?c) # t1 @ (WSACleanup, a) # t2"
      "list_all (command_call P \<circ> fst) t1" "list_all (command_call P \<circ> fst) t2"
      by (auto simp: log1)
    then show ?thesis
      using ended(1,2) True command_call_wsa [of P t1] command_call_wsa [of P t2]
      by (auto simp: wsa_started_def wsa_cleaned_def program_call_def list_all_iff)
  qed
qed

section \<open>Properties\<close>

text \<open>
  A system that accepts everything: the network of two hosts, an engine whose handles are new, and no
  failing call.
\<close>

definition friendly :: ctl_world where
  "friendly tr c = (case c of FwpmEngineOpen0 a f \<Rightarrow> answer 0 (unused tr) | _ \<Rightarrow> two_hosts tr c)"

lemma friendly_sockets: "sockets_api sample_ctl friendly"
  using two_hosts_api by (simp add: sockets_api_def friendly_def)

lemma open_sessions_used: "h \<in> fst (sessions tr) \<Longrightarrow> h < unused tr"
proof (induction tr rule: rev_induct)
  case (snoc e tr)
  obtain c r where e: "e = (c, r)" by fastforce
  obtain S ok where m: "sessions tr = (S, ok)" by fastforce
  have "h \<in> S \<or> h \<le> handed_out e"
    using snoc.prems unfolding e by (cases c) (auto simp: sessions.run_snoc m split: if_splits)
  then show ?case using snoc.IH m by (auto simp: unused_def)
qed (simp add: sessions.run_Nil)

lemma friendly_sessions: "sessions_api friendly"
  using open_sessions_used by (force simp: sessions_api_def friendly_def answer_def Let_def unused_def)

text \<open>
  C12: However the program ends, with whatever words were typed and whatever calls failed, every session
  with the filter engine it opened has been handed to \<^verbatim>\<open>FwpmEngineClose0\<close>, every call on a session came
  after its opening and before that, every call on a socket was made while it was open, a socket still open
  is one whose closing the system refused or one with the handle 0, WinSock was cleaned
  up exactly if it was started, and the result is 0 or 1.
\<close>

theorem main_closes_everything:
  assumes "sessions_api w" "sockets_api P w" "controller_main P w ws fresh_ctl = Some (r, s)"
  shows "sessions (ctl_log s) = ({}, True) \<and> tidy P s \<and>
    occurrences wsa_started (ctl_log s) = occurrences wsa_cleaned (ctl_log s) \<and> r \<in> {Inr 0, Inr 1}"
  using main_run [OF assms] by blast

text \<open>Returning at all, and returning 0.\<close>

lemma main_returns:
  assumes "''exit'' \<in> set ws"
  shows "\<exists>r s'. controller_main P w ws s = Some (r, s')"
proof -
  obtain r where "main_loop P w ws [] (WFPEngine_default, snd (WinSockInit_default P w s)) = Some r"
    using main_loop_returns [OF assms] by blast
  then show ?thesis
    by (auto simp: controller_main_def catch_all_def split: prod.split option.split stop.split)
qed

lemma main_returns_0:
  assumes "controller_main P w ws s = Some (Inr 0, s')"
  shows "''exit'' \<in> set ws"
  using assms main_loop_exit
  by (fastforce simp: controller_main_def catch_all_def split: prod.splits option.splits stop.splits)

text \<open>The words that are commands, and a loop that is given none of them.\<close>

definition command_words :: "string list" where
  "command_words = [''exit'', ''open'', ''close'', ''register'', ''context'', ''callouts'', ''sublayer'', ''filter'',
     ''all'', ''connect'', ''ttl'']"

lemma run_unknown: "input \<notin> set command_words \<Longrightarrow> fst (run_command P w input es) = None"
  by (cases es) (simp add: run_command_def command_words_def on_ctl_def)

lemma unknown_words_loop:
  assumes "set ws \<inter> set command_words = {}" "input \<notin> set command_words"
  shows "main_loop P w ws input es = None"
proof (rule ccontr)
  assume "main_loop P w ws input es \<noteq> None"
  then obtain r where r: "main_loop P w ws input es = Some r" by blast
  have exit: "''exit'' \<in> set command_words" by (simp add: command_words_def)
  have known: "i \<notin> set command_words \<and> set ws' \<inter> set command_words = {}"
    if "read_word ws input = (i, ws')" "set ws \<inter> set command_words = {}" "input \<notin> set command_words" for ws input i ws'
    using that by (auto simp: read_word_def split: list.splits)
  have "\<not> (set ws \<inter> set command_words = {} \<and> input \<notin> set command_words)"
  proof (rule main_loop_induct [OF r], goal_cases)
    case (1 ws input ws' es)
    then show ?case using known [OF 1] exit by blast
  next
    case (2 ws input i ws' es x es')
    then show ?case using known [OF 2(1)] run_unknown [of i P w "prompt w es"] by auto
  next
    case (3 ws input i ws' es es' r)
    then show ?case using known [OF 3(1)] by blast
  qed
  then show False using assms by simp
qed

lemma unknown_words_never_end:
  assumes "set ws \<inter> set command_words = {}"
  shows "controller_main P w ws s = None \<longleftrightarrow> ret_status (w (ctl_log s) (WSAStartup 0x202)) = 0"
proof -
  have "[] \<notin> set command_words" by (simp add: command_words_def)
  then show ?thesis
    using unknown_words_loop [OF assms]
    by (simp add: controller_main_def WinSockInit_default_def WinSockInit_Initialize_def MAKEWORD_def Let_def split_def)
qed

text \<open>
  C16: The program ends whenever the word \<^verbatim>\<open>exit\<close> is among those typed, whatever the commands before it
  do; and it returns 0 only then. At the end of its input it does not stop: when no word
  typed is a command (none at all, say) it never returns if WinSock starts, because the last word is
  taken again for ever.
\<close>

theorem exit_ends_the_program:
  "(''exit'' \<in> set ws \<longrightarrow> (\<exists>r s'. controller_main P w ws s = Some (r, s'))) \<and>
   (\<forall>s'. controller_main P w ws s = Some (Inr 0, s') \<longrightarrow> ''exit'' \<in> set ws) \<and>
   (set ws \<inter> set command_words = {} \<longrightarrow>
      (controller_main P w ws s = None \<longleftrightarrow> ret_status (w (ctl_log s) (WSAStartup 0x202)) = 0))"
  using main_returns main_returns_0 unknown_words_never_end by blast

theorem main_closes_everything_witness:
  "\<exists>r s. controller_main sample_ctl friendly [''all'', ''connect'', ''exit''] fresh_ctl = Some (r, s) \<and>
     sessions (ctl_log s) = ({}, True)"
proof -
  have "''exit'' \<in> set [''all'', ''connect'', ''exit'']" by simp
  then obtain r s where "controller_main sample_ctl friendly [''all'', ''connect'', ''exit''] fresh_ctl = Some (r, s)"
    using main_returns by blast
  then show ?thesis using main_closes_everything [OF friendly_sessions friendly_sockets] by blast
qed

theorem exit_ends_the_program_witness:
  "(\<exists>r s'. controller_main sample_ctl friendly [''open'', ''exit''] fresh_ctl = Some (r, s')) \<and>
   controller_main sample_ctl friendly [''help''] fresh_ctl = None"
  using exit_ends_the_program [of "[''open'', ''exit'']" sample_ctl friendly fresh_ctl]
    exit_ends_the_program [of "[''help'']" sample_ctl friendly fresh_ctl]
  by (simp add: command_words_def friendly_def two_hosts_def answer_def)

end
