(* ===== verification/Controller_Types.thy ===== *)
theory Controller_Types imports Controller_Main begin

text \<open>
  What the objects of the controller look like in every state its commands lead to: each of the four callout
  members is the callout it is named for or an empty one, has an identifier only together with a
  handle, and every handle names a control block of an open session that counts it.
\<close>

section \<open>States the commands lead to\<close>

text \<open>
  The engine starts when WinSock does; then any words come in any order. The state after a command
  that throws is included: it is the one the destructors run in.
\<close>

inductive commanded :: "ctl_platform \<Rightarrow> ctl_world \<Rightarrow> WFPEngine \<times> ctl \<Rightarrow> bool" for P w where
  started: "WinSockInit_default P w fresh_ctl = (None, s) \<Longrightarrow> commanded P w (WFPEngine_default, s)"
| command: "commanded P w es \<Longrightarrow> run_command P w word (prompt w es) = (x, es') \<Longrightarrow> commanded P w es'"

section \<open>Typed members\<close>

definition callout_typed :: "ctl_platform \<Rightarrow> GUID \<Rightarrow> wfp_layer \<Rightarrow> CalloutObject \<Rightarrow> bool" where
  "callout_typed P key layer c \<longleftrightarrow>
     (m_calloutId c \<noteq> 0 \<longrightarrow> m_engine c \<noteq> None) \<and>
     (m_engine c \<noteq> None \<longrightarrow> m_calloutKey c = key \<and> m_providerKey c = ProviderKey \<and>
        m_applicableLayerKey c = layer_key P layer)"

definition members_typed :: "ctl_platform \<Rightarrow> WFPEngine \<Rightarrow> bool" where
  "members_typed P e \<longleftrightarrow>
     callout_typed P OutboundTCPCalloutKey OUTBOUND_TRANSPORT_V4 (m_outboundTCPCallout e) \<and>
     callout_typed P OutboundIPv4CalloutKey OUTBOUND_IPPACKET_V4 (m_outboundIPv4Callout e) \<and>
     callout_typed P InboundICMPErrorCalloutKey INBOUND_ICMP_ERROR_V4 (m_inboundICMPErrorCallout e) \<and>
     callout_typed P OutboundICMPErrorCalloutKey OUTBOUND_ICMP_ERROR_V4 (m_outboundICMPErrorCallout e)"

lemma typed_Remove: "callout_typed P key layer c \<Longrightarrow> callout_typed P key layer (fst (Callout_Remove w c s))"
  by (auto simp: callout_typed_def Callout_Remove_def Let_def split_def)

lemma typed_Add:
  assumes "m_engine c \<noteq> None" "callout_typed P key layer c"
  shows "callout_typed P key layer (fst (snd (Callout_Add P w c s)))"
  using assms by (auto simp: callout_typed_def Callout_Add_def Let_def split_def)

lemma typed_assign_and_add:
  assumes "callout_typed P key layer member"
  shows "callout_typed P key layer (fst (snd (assign_and_add P w key layer name p member s)))"
proof (cases "sp_get p (sp_copy p s) = NULL")
  case True
  then show ?thesis using assms by (simp add: assign_and_add_def Callout_construct_def Let_def)
next
  case False
  then have "p \<noteq> None" by (auto simp: sp_get_def split: option.splits)
  then show ?thesis
    using False
    by (auto simp: assign_and_add_def Callout_construct_def Callout_Move_def Let_def split_def
        intro!: typed_Add) (auto simp: callout_typed_def)
qed

text \<open>What a command does to the members is a contract that sequences of commands keep.\<close>

definition keeps_types :: "ctl_platform \<Rightarrow> WFPEngine \<times> ctl \<Rightarrow> WFPEngine \<times> ctl \<Rightarrow> bool" where
  "keeps_types P es es' \<longleftrightarrow> (members_typed P (fst es) \<longrightarrow> members_typed P (fst es'))"

interpretation types: action_contract "keeps_types P" for P
  by unfold_locales (auto simp: keeps_types_def)

text \<open>Most methods leave the callouts alone.\<close>

lemma types_same:
  assumes "engine_callouts (fst es') = engine_callouts (fst es)"
  shows "keeps_types P es es'"
  using assms by (simp add: keeps_types_def members_typed_def engine_callouts_def)

lemma types_methods:
  "keeps_types P es (snd (OpenFilterEngine P w es))" "keeps_types P es (snd (RegisterProvider P w es))"
  "keeps_types P es (snd (AddContext P w es))" "keeps_types P es (snd (AddSublayer P w es))"
  "keeps_types P es (snd (add_IPv4_filter P w es))" "keeps_types P es (snd (add_inbound_ICMP_filter P w es))"
  "keeps_types P es (snd (add_outbound_ICMP_filter P w es))" "keeps_types P es (snd (add_transport_filter P w es))"
  "keeps_types P es (snd (AddInboundIPv4PacketCallout es))" "keeps_types P es (prompt w es)"
  "keeps_types P es (snd (on_ctl a es))"
  by (rule types_same; simp add: engine_callouts_def OpenFilterEngine_def RegisterProvider_def AddContext_def
      AddSublayer_def add_IPv4_filter_def add_inbound_ICMP_filter_def add_outbound_ICMP_filter_def
      add_transport_filter_def AddInboundIPv4PacketCallout_def prompt_def on_ctl_def Let_def split_def)+

lemma types_add_callouts:
  "keeps_types P es (snd (AddOutboundTCPPacketCallout P w es))"
  "keeps_types P es (snd (AddOutboundIPv4PacketCallout P w es))"
  "keeps_types P es (snd (AddInboundICMPErrorCallout P w es))"
  "keeps_types P es (snd (AddOutboundICMPErrorCallout P w es))"
  by (auto simp: keeps_types_def members_typed_def AddOutboundTCPPacketCallout_def AddOutboundIPv4PacketCallout_def
      AddInboundICMPErrorCallout_def AddOutboundICMPErrorCallout_def Let_def split_def intro!: typed_assign_and_add)

lemma types_Close: "keeps_types P es (Engine_Close w es)"
  by (cases es) (auto simp: keeps_types_def members_typed_def Engine_Close_def Let_def split_def intro!: typed_Remove)

lemma types_guarded:
  assumes "\<And>a s. a \<in> set as \<Longrightarrow> keeps_types P s (snd (a s))"
  shows "keeps_types P es (snd (if b then (x, es) else in_order as es))"
  using assms by (cases b) (simp_all only: if_True if_False snd_conv types.in_order_ok types.ok_refl)

lemma types_groups:
  "keeps_types P es (snd (AddCallouts P w es))" "keeps_types P es (snd (AddFilters P w es))"
  unfolding AddCallouts_def AddFilters_def
  by (rule types_guarded; auto intro: types_methods types_add_callouts)+

lemma types_command: "keeps_types P es (snd (run_command P w input es))"
proof -
  have "keeps_types P es (snd (all_commands P w es))"
    unfolding all_commands_def by (rule types.in_order_ok) (auto intro: types_methods types_groups)
  then show ?thesis
    by (intro run_command_cases [where Q = "\<lambda>r. keeps_types P es (snd r)"])
      (simp_all add: types_methods types_groups types_Close)
qed

section \<open>Properties\<close>

text \<open>Whatever is typed, the state stays one in which the program runs, and its members stay typed.\<close>

lemma commanded_running:
  assumes api: "sessions_api w" "sockets_api P w" and "commanded P w es"
  shows "running P (snd (ctl_ask w (WSAStartup 0x202) fresh_ctl)) es \<and> members_typed P (fst es)"
  using assms(3)
proof induction
  case (started s)
  then have "s = snd (ctl_ask w (WSAStartup 0x202) fresh_ctl)"
    by (auto simp: WinSockInit_default_def WinSockInit_Initialize_def MAKEWORD_def Let_def split_def split: if_splits)
  then show ?case
    using running_start
    by (simp add: members_typed_def callout_typed_def WFPEngine_default_def Callout_default_def)
next
  case (command es word x es')
  then have "es' = snd (run_command P w word (prompt w es))" by simp
  then show ?case
    using running_command [OF api running_prompt] command.IH
      types.ok_trans [OF types_methods(10) types_command, of P es w word]
    by (auto simp: keeps_types_def)
qed

text \<open>
  C18: In every state the commands lead to, whatever was typed and whatever failed, the objects are well
  typed. Each callout member is empty or has the key, the provider and the layer it is named for, and
  an identifier only together with a handle; every pointer of the engine and its members names a
  control block that has exactly as many owners as there are such pointers, a session is open exactly
  when its block has an owner, and no call was made on a session that was not open.
\<close>

theorem commands_keep_types:
  assumes "sessions_api w" "sockets_api P w" "commanded P w (e, s)"
  shows "members_typed P e \<and> owned (engine_refs e) s"
  using commanded_running [OF assms] by (simp add: running_def)

theorem commands_keep_types_witness:
  "\<exists>e s. commanded sample_ctl friendly (e, s) \<and> m_engineHandle e = Some 0 \<and> owned (engine_refs e) s"
proof -
  let ?s = "snd (WinSockInit_default sample_ctl friendly fresh_ctl)"
  let ?r = "run_command sample_ctl friendly ''open'' (prompt friendly (WFPEngine_default, ?s))"
  have "WinSockInit_default sample_ctl friendly fresh_ctl = (None, ?s)"
    by (simp add: WinSockInit_default_def WinSockInit_Initialize_def Let_def split_def friendly_def two_hosts_def answer_def)
  then have "commanded sample_ctl friendly (WFPEngine_default, ?s)" by (rule started)
  then have c: "commanded sample_ctl friendly (snd ?r)" by (rule command) (rule surjective_pairing)
  moreover have "m_engineHandle (fst (snd ?r)) = Some 0"
    by (simp add: run_command_def prompt_def OpenFilterEngine_def Let_def split_def friendly_def answer_def
        sp_new_def ctl_simps WinSockInit_default_def WinSockInit_Initialize_def two_hosts_def fresh_ctl_def)
  ultimately show ?thesis
    using commands_keep_types [OF friendly_sessions friendly_sockets, of "fst (snd ?r)" "snd (snd ?r)"]
    by (metis prod.collapse)
qed

end
