(* ===== verification/Controller_Setup.thy ===== *)
theory Controller_Setup imports Controller_Main begin

text \<open>
  What the command \<^verbatim>\<open>all\<close> of the controller sets up in the filter engine when nothing fails, and how that
  fits the driver.
\<close>

section \<open>Setting everything up\<close>

text \<open>
  What an action does from an engine with the open handle \<open>h\<close>: it succeeds, makes the calls \<open>cs\<close> in their
  order and keeps the handle; \<open>Q\<close> and \<open>R\<close> are what it needs of the engine and leaves.
\<close>

definition performs ::
  "handle \<Rightarrow> (WFPEngine \<Rightarrow> bool) \<Rightarrow> command \<Rightarrow> ctl_call list \<Rightarrow> (WFPEngine \<Rightarrow> bool) \<Rightarrow> bool" where
  "performs h Q a cs R \<longleftrightarrow> (\<forall>e s. Q e \<longrightarrow> engine_handle (e, s) = h \<longrightarrow>
     (\<exists>e' s'. a (e, s) = (None, e', s') \<and> map fst (ctl_log s') = map fst (ctl_log s) @ cs \<and>
        engine_handle (e', s') = h \<and> R e'))"

lemma performsI:
  assumes "\<And>e s. Q e \<Longrightarrow> engine_handle (e, s) = h \<Longrightarrow> fst (a (e, s)) = None \<and>
      map fst (ctl_log (snd (snd (a (e, s))))) = map fst (ctl_log s) @ cs \<and>
      engine_handle (snd (a (e, s))) = h \<and> R (fst (snd (a (e, s))))"
  shows "performs h Q a cs R"
  unfolding performs_def using assms by (metis prod.collapse)

lemma performs_nothing: "performs h Q (Pair None) [] Q"
  by (simp add: performs_def)

lemma performs_and_then:
  assumes "performs h Q a cs R" "performs h R b ds T"
  shows "performs h Q (and_then a b) (cs @ ds) T"
  unfolding performs_def
proof (intro allI impI)
  fix e s assume "Q e" "engine_handle (e, s) = h"
  then obtain e1 s1 where 1: "a (e, s) = (None, e1, s1)" "map fst (ctl_log s1) = map fst (ctl_log s) @ cs"
    "engine_handle (e1, s1) = h" "R e1" using assms(1) unfolding performs_def by blast
  then obtain e2 s2 where "b (e1, s1) = (None, e2, s2)" "map fst (ctl_log s2) = map fst (ctl_log s1) @ ds"
    "engine_handle (e2, s2) = h" "T e2" using assms(2) unfolding performs_def by blast
  then show "\<exists>e' s'. and_then a b (e, s) = (None, e', s') \<and>
      map fst (ctl_log s') = map fst (ctl_log s) @ cs @ ds \<and> engine_handle (e', s') = h \<and> T e'"
    using 1 by (simp add: and_then_def)
qed

lemma performs_Cons: "performs h Q a [c] R \<Longrightarrow> performs h R (in_order as) cs T \<Longrightarrow> performs h Q (in_order (a # as)) (c # cs) T"
  using performs_and_then [of h Q a "[c]" R "in_order as" cs T] by simp

text \<open>The names are those of a new engine, and the callouts from the \<open>n\<close>-th on are not set.\<close>

definition untouched :: "nat \<Rightarrow> WFPEngine \<Rightarrow> bool" where
  "untouched n e \<longleftrightarrow>
     m_sublayerName e = m_sublayerName WFPEngine_default \<and>
     m_sublayerDescription e = m_sublayerDescription WFPEngine_default \<and>
     m_outboundIPv4FilterName e = m_outboundIPv4FilterName WFPEngine_default \<and>
     m_inboundICMPErrorFilterName e = m_inboundICMPErrorFilterName WFPEngine_default \<and>
     m_outboundICMPErrorFilterName e = m_outboundICMPErrorFilterName WFPEngine_default \<and>
     m_outboundTransportFilterName e = m_outboundTransportFilterName WFPEngine_default \<and>
     (n < 1 \<longrightarrow> m_engine (m_outboundTCPCallout e) = None) \<and>
     (n < 2 \<longrightarrow> m_engine (m_outboundIPv4Callout e) = None) \<and>
     (n < 3 \<longrightarrow> m_engine (m_inboundICMPErrorCallout e) = None) \<and>
     (n < 4 \<longrightarrow> m_engine (m_outboundICMPErrorCallout e) = None)"

definition all_succeed :: "ctl_world \<Rightarrow> bool" where
  "all_succeed w \<longleftrightarrow> (\<forall>tr c. ret_status (w tr c) = 0)"

text \<open>The calls of one callout and of one filter.\<close>

definition callout_added :: "ctl_platform \<Rightarrow> handle \<Rightarrow> GUID \<Rightarrow> wfp_layer \<Rightarrow> string \<Rightarrow> ctl_call" where
  "callout_added P h key layer name = FwpmCalloutAdd0 h
     \<lparr>callout_key = key, callout_name = wide name, callout_flags = FWPM_CALLOUT_FLAG_USES_PROVIDER_CONTEXT P,
      callout_provider = ProviderKey, callout_layer = layer_key P layer\<rparr>"

definition filter_added ::
  "ctl_platform \<Rightarrow> handle \<Rightarrow> wstring \<Rightarrow> wfp_layer \<Rightarrow> GUID \<Rightarrow> FWPM_CONDITION list \<Rightarrow> ctl_call" where
  "filter_added P h name layer key conditions = FwpmFilterAdd0 h
     \<lparr>filter_name = name, filter_flags = FWPM_FILTER_FLAG_HAS_PROVIDER_CONTEXT P, filter_provider = ProviderKey,
      filter_layer = layer_key P layer, filter_sublayer = SublayerKey, filter_weight = FWP_EMPTY P,
      filter_conditions = conditions, filter_action = FWP_ACTION_CALLOUT_INSPECTION P,
      filter_callout = key, filter_context = ProviderContextKey\<rparr>"

lemma sp_get_copy [simp]: "sp_get q (sp_copy p s) = sp_get q s"
  by (cases p; cases q) (auto simp: sp_get_def sp_copy_def nth_list_update_eq list_update_beyond,
    metis fst_conv list_update_beyond not_le_imp_less nth_list_update)

lemma sp_get_ask [simp]: "sp_get q (snd (ctl_ask w c s)) = sp_get q s"
  by (cases q) (simp_all add: sp_get_def ctl_ask_eq)

lemma copy_log [simp]: "ctl_log (sp_copy p s) = ctl_log s"
  by (cases p) (simp_all add: sp_copy_def)

lemma assign_new:
  assumes "all_succeed w" "m_engine member = None" "sp_get p s = h" "h \<noteq> NULL"
    and a: "assign_and_add P w key layer name p member s = (x, member', s')"
  shows "x = None \<and> m_engine member' = p \<and> map fst (ctl_log s') = map fst (ctl_log s) @ [callout_added P h key layer name] \<and>
    sp_get q s' = sp_get q s"
proof -
  let ?tmp = "\<lparr>m_displayName = wide name, m_calloutKey = key, m_providerKey = ProviderKey,
       m_applicableLayerKey = layer_key P layer, m_engine = p, m_calloutId = 0,
       m_flags = FWPM_CALLOUT_FLAG_USES_PROVIDER_CONTEXT P\<rparr>"
  have old: "Callout_Remove w member t = (member, t)" for t using assms(2) by (simp add: Callout_Remove_def sp_get_def)
  have gone: "Callout_destructor w (?tmp\<lparr>m_displayName := [], m_engine := None, m_calloutId := 0\<rparr>) t = t" for t
    by (simp add: Callout_destructor_def Callout_Remove_def sp_release_def)
  let ?new = "member\<lparr>m_displayName := wide name, m_calloutKey := key, m_providerKey := ProviderKey,
       m_applicableLayerKey := layer_key P layer, m_engine := p, m_calloutId := 0,
       m_flags := FWPM_CALLOUT_FLAG_USES_PROVIDER_CONTEXT P\<rparr>"
  have "assign_and_add P w key layer name p member s = Callout_Add P w ?new (sp_copy p s)"
    using assms(2-4) old gone
    by (simp add: assign_and_add_def Callout_construct_def Callout_Move_def sp_release_def)
  then show ?thesis
    using assms by (auto simp: Callout_Add_def all_succeed_def callout_added_def Let_def split_def) (simp_all add: ctl_ask_eq)
qed

lemma performs_member:
  assumes a: "a = (\<lambda>(e, s). let (x, c, s) = assign_and_add P w key layer name (m_engineHandle e) (member e) s in (x, upd e c, s))"
    and ok: "all_succeed w" "h \<noteq> NULL" and none: "\<And>e. Q e \<Longrightarrow> m_engine (member e) = None"
    and upd: "\<And>e c. m_engineHandle (upd e c) = m_engineHandle e" "\<And>e c. Q e \<Longrightarrow> R (upd e c)"
  shows "performs h Q a [callout_added P h key layer name] R"
proof (rule performsI)
  fix e s assume Q: "Q e" "engine_handle (e, s) = h"
  obtain x c s' where 1: "assign_and_add P w key layer name (m_engineHandle e) (member e) s = (x, c, s')"
    by (metis prod_cases3)
  have "sp_get (m_engineHandle e) s = h" using Q(2) by (simp add: engine_handle_def)
  from assign_new [OF ok(1) none [OF Q(1)] this ok(2) 1]
  show "fst (a (e, s)) = None \<and>
      map fst (ctl_log (snd (snd (a (e, s))))) = map fst (ctl_log s) @ [callout_added P h key layer name] \<and>
      engine_handle (snd (a (e, s))) = h \<and> R (fst (snd (a (e, s))))"
    using Q upd by (simp add: a 1 engine_handle_def)
qed

lemma performs_callouts:
  assumes "all_succeed w" "h \<noteq> NULL"
  shows
    "performs h (untouched 0) (AddOutboundTCPPacketCallout P w)
      [callout_added P h OutboundTCPCalloutKey OUTBOUND_TRANSPORT_V4 ''Outbound TCP Callout''] (untouched 1)"
    "performs h (untouched 1) (AddOutboundIPv4PacketCallout P w)
      [callout_added P h OutboundIPv4CalloutKey OUTBOUND_IPPACKET_V4 ''Outbound IPv4 Callout''] (untouched 2)"
    "performs h (untouched 2) (AddInboundICMPErrorCallout P w)
      [callout_added P h InboundICMPErrorCalloutKey INBOUND_ICMP_ERROR_V4 ''Inbound ICMP Error Callout''] (untouched 3)"
    "performs h (untouched 3) (AddOutboundICMPErrorCallout P w)
      [callout_added P h OutboundICMPErrorCalloutKey OUTBOUND_ICMP_ERROR_V4 ''Outbound ICMP Error Callout''] (untouched 4)"
  by (rule performs_member [OF AddOutboundTCPPacketCallout_def assms]
      performs_member [OF AddOutboundIPv4PacketCallout_def assms]
      performs_member [OF AddInboundICMPErrorCallout_def assms]
      performs_member [OF AddOutboundICMPErrorCallout_def assms]; simp add: untouched_def)+

lemma performs_filter:
  assumes a: "a = (\<lambda>(e, s). let (x, i, s) = AddFilter P w (m_engineHandle e) (name e) (layer_key P layer) SublayerKey key
        (FWP_EMPTY P) (FWP_ACTION_CALLOUT_INSPECTION P) conds (ident e) s in (x, upd e i, s))"
    and ok: "all_succeed w" "h \<noteq> NULL" and name: "\<And>e. Q e \<Longrightarrow> name e = n"
    and upd: "\<And>e c. m_engineHandle (upd e c) = m_engineHandle e" "\<And>e c. Q e \<Longrightarrow> Q (upd e c)"
  shows "performs h Q a [filter_added P h n layer key conds] Q"
proof (rule performsI)
  fix e s assume Q: "Q e" "engine_handle (e, s) = h"
  then show "fst (a (e, s)) = None \<and>
      map fst (ctl_log (snd (snd (a (e, s))))) = map fst (ctl_log s) @ [filter_added P h n layer key conds] \<and>
      engine_handle (snd (a (e, s))) = h \<and> Q (fst (snd (a (e, s))))"
    using ok upd name [OF Q(1)]
    by (simp add: a AddFilter_def filter_added_def engine_handle_def all_succeed_def Let_def split_def) (simp add: ctl_ask_eq)
qed

definition tcp_only :: "ctl_platform \<Rightarrow> FWPM_CONDITION list" where
  "tcp_only P = [\<lparr>fieldKey = FWPM_CONDITION_IP_PROTOCOL P, matchType = FWP_MATCH_EQUAL P, conditionType = FWP_UINT8 P,
     conditionUint8 = 6\<rparr>]"

lemma performs_filters:
  assumes "all_succeed w" "h \<noteq> NULL"
  shows
    "performs h (untouched 4) (add_IPv4_filter P w) [filter_added P h (m_outboundIPv4FilterName WFPEngine_default)
      OUTBOUND_IPPACKET_V4 OutboundIPv4CalloutKey []] (untouched 4)"
    "performs h (untouched 4) (add_inbound_ICMP_filter P w) [filter_added P h (m_inboundICMPErrorFilterName WFPEngine_default)
      INBOUND_ICMP_ERROR_V4 InboundICMPErrorCalloutKey []] (untouched 4)"
    "performs h (untouched 4) (add_outbound_ICMP_filter P w) [filter_added P h (m_outboundICMPErrorFilterName WFPEngine_default)
      OUTBOUND_ICMP_ERROR_V4 OutboundICMPErrorCalloutKey []] (untouched 4)"
    "performs h (untouched 4) (add_transport_filter P w) [filter_added P h (m_outboundTransportFilterName WFPEngine_default)
      OUTBOUND_TRANSPORT_V4 OutboundTCPCalloutKey (tcp_only P)] (untouched 4)"
proof -
  have transport: "add_transport_filter P w = (\<lambda>(e, s).
     let (x, i, s) = AddFilter P w (m_engineHandle e) (m_outboundTransportFilterName e) (layer_key P OUTBOUND_TRANSPORT_V4)
           SublayerKey OutboundTCPCalloutKey (FWP_EMPTY P) (FWP_ACTION_CALLOUT_INSPECTION P) (tcp_only P)
           (m_outboundTransportFilterID e) s
     in (x, e\<lparr>m_outboundTransportFilterID := i\<rparr>, s))"
    unfolding add_transport_filter_def tcp_only_def Let_def ..
  note defs = add_IPv4_filter_def add_inbound_ICMP_filter_def add_outbound_ICMP_filter_def transport
  show "performs h (untouched 4) (add_IPv4_filter P w) [filter_added P h (m_outboundIPv4FilterName WFPEngine_default)
      OUTBOUND_IPPACKET_V4 OutboundIPv4CalloutKey []] (untouched 4)"
    by (rule performs_filter [OF defs(1) assms]; simp add: untouched_def)
  show "performs h (untouched 4) (add_inbound_ICMP_filter P w) [filter_added P h (m_inboundICMPErrorFilterName WFPEngine_default)
      INBOUND_ICMP_ERROR_V4 InboundICMPErrorCalloutKey []] (untouched 4)"
    by (rule performs_filter [OF defs(2) assms]; simp add: untouched_def)
  show "performs h (untouched 4) (add_outbound_ICMP_filter P w) [filter_added P h (m_outboundICMPErrorFilterName WFPEngine_default)
      OUTBOUND_ICMP_ERROR_V4 OutboundICMPErrorCalloutKey []] (untouched 4)"
    by (rule performs_filter [OF defs(3) assms]; simp add: untouched_def)
  show "performs h (untouched 4) (add_transport_filter P w) [filter_added P h (m_outboundTransportFilterName WFPEngine_default)
      OUTBOUND_TRANSPORT_V4 OutboundTCPCalloutKey (tcp_only P)] (untouched 4)"
    by (rule performs_filter [OF defs(4) assms]; simp add: untouched_def)
qed

text \<open>The twelve calls that set everything up, after the session with the handle \<open>h\<close> is open.\<close>

definition callout_calls :: "ctl_platform \<Rightarrow> handle \<Rightarrow> ctl_call list" where
  "callout_calls P h =
     [callout_added P h OutboundTCPCalloutKey OUTBOUND_TRANSPORT_V4 ''Outbound TCP Callout'',
      callout_added P h OutboundIPv4CalloutKey OUTBOUND_IPPACKET_V4 ''Outbound IPv4 Callout'',
      callout_added P h InboundICMPErrorCalloutKey INBOUND_ICMP_ERROR_V4 ''Inbound ICMP Error Callout'',
      callout_added P h OutboundICMPErrorCalloutKey OUTBOUND_ICMP_ERROR_V4 ''Outbound ICMP Error Callout'']"

definition filter_calls :: "ctl_platform \<Rightarrow> handle \<Rightarrow> ctl_call list" where
  "filter_calls P h =
     [filter_added P h (m_outboundIPv4FilterName WFPEngine_default) OUTBOUND_IPPACKET_V4 OutboundIPv4CalloutKey [],
      filter_added P h (m_inboundICMPErrorFilterName WFPEngine_default) INBOUND_ICMP_ERROR_V4 InboundICMPErrorCalloutKey [],
      filter_added P h (m_outboundICMPErrorFilterName WFPEngine_default) OUTBOUND_ICMP_ERROR_V4 OutboundICMPErrorCalloutKey [],
      filter_added P h (m_outboundTransportFilterName WFPEngine_default) OUTBOUND_TRANSPORT_V4 OutboundTCPCalloutKey (tcp_only P)]"

definition setup_calls :: "ctl_platform \<Rightarrow> handle \<Rightarrow> DWORD \<Rightarrow> ctl_call list" where
  "setup_calls P h pid =
     [FwpmProviderAdd0 h \<lparr>provider_key = ProviderKey, provider_name = wide ''provider name'', 
        provider_data = \<lparr>byte_size = sizeof_DWORD, byte_data = dword_bytes 321\<rparr>\<rparr>,
      GetCurrentProcessId,
      FwpmProviderContextAdd3 h
        \<lparr>context_key = ProviderContextKey, context_name = wide ''TODO: find a better name for this context'',
         context_provider = ProviderKey, context_type = FWPM_GENERAL_CONTEXT P,
         context_dataBuffer = \<lparr>byte_size = sizeof_DWORD, byte_data = dword_bytes pid\<rparr>\<rparr>,
      FwpmSubLayerAdd0 h \<lparr>sublayer_key = SublayerKey, sublayer_name = m_sublayerName WFPEngine_default,
         sublayer_description = m_sublayerDescription WFPEngine_default, sublayer_flags = 0,
         sublayer_provider = ProviderKey, sublayer_weight = FWP_EMPTY P\<rparr>]
     @ callout_calls P h @ filter_calls P h"

lemma performs_guarded:
  assumes "performs h Q (in_order as) cs R" "h \<noteq> NULL"
  shows "performs h Q (\<lambda>es. if engine_handle es = NULL then b es else in_order as es) cs R"
  using assms by (simp add: performs_def)

lemma performs_AddCallouts:
  assumes "all_succeed w" "h \<noteq> NULL"
  shows "performs h (untouched 0) (AddCallouts P w) (callout_calls P h) (untouched 4)"
proof -
  note c = performs_callouts [OF assms]
  have "performs h (untouched 4) (in_order [AddInboundIPv4PacketCallout]) [] (untouched 4)"
    by (simp add: performs_def and_then_def AddInboundIPv4PacketCallout_def)
  from performs_guarded [OF performs_Cons [OF c(1) performs_Cons [OF c(2) performs_Cons [OF c(3)
        performs_Cons [OF c(4) this]]]] assms(2)]
  show ?thesis unfolding AddCallouts_def callout_calls_def .
qed

lemma performs_AddFilters:
  assumes "all_succeed w" "h \<noteq> NULL"
  shows "performs h (untouched 4) (AddFilters P w) (filter_calls P h) (untouched 4)"
proof -
  note f = performs_filters [OF assms]
  have "performs h (untouched 4) (in_order []) [] (untouched 4)" by (simp add: performs_def)
  from performs_guarded [OF performs_Cons [OF f(1) performs_Cons [OF f(2) performs_Cons [OF f(3)
        performs_Cons [OF f(4) this]]]] assms(2)]
  show ?thesis unfolding AddFilters_def filter_calls_def .
qed

lemma performs_single:
  assumes "all_succeed w" "h \<noteq> NULL" and pid: "\<And>tr. ret_out (w tr GetCurrentProcessId) = pid"
  shows
    "performs h (untouched 0) (RegisterProvider P w) [setup_calls P h (of_nat pid) ! 0] (untouched 0)"
    "performs h (untouched 0) (AddContext P w) [setup_calls P h (of_nat pid) ! 1, setup_calls P h (of_nat pid) ! 2] (untouched 0)"
    "performs h (untouched 0) (AddSublayer P w) [setup_calls P h (of_nat pid) ! 3] (untouched 0)"
proof -
  have kept: "untouched n e \<Longrightarrow> untouched n (e\<lparr>m_addedProvider := True\<rparr>)" "untouched n e \<Longrightarrow> untouched n (e\<lparr>m_contextId := i\<rparr>)"
    "untouched n e \<Longrightarrow> untouched n (e\<lparr>m_addedSublayer := True\<rparr>)" for n e i by (simp_all add: untouched_def)
  have handle: "engine_handle (e, snd (ctl_ask w c s)) = engine_handle (e, s)"
    "engine_handle (e\<lparr>m_addedProvider := True\<rparr>, s) = engine_handle (e, s)"
    "engine_handle (e\<lparr>m_contextId := i\<rparr>, s) = engine_handle (e, s)"
    "engine_handle (e\<lparr>m_addedSublayer := True\<rparr>, s) = engine_handle (e, s)" for e c s i
    by (simp_all add: engine_handle_def)
  have log: "map fst (ctl_log (snd (ctl_ask w c s))) = map fst (ctl_log s) @ [c]" for c s by (simp add: ctl_ask_eq)
  have ok: "ret_status (w tr c) = 0" for tr c using assms(1) by (simp add: all_succeed_def)
  have names: "untouched n e \<Longrightarrow> m_sublayerName e = m_sublayerName WFPEngine_default \<and>
      m_sublayerDescription e = m_sublayerDescription WFPEngine_default" for n e by (simp add: untouched_def)
  show "performs h (untouched 0) (RegisterProvider P w) [setup_calls P h (of_nat pid) ! 0] (untouched 0)"
    by (rule performsI) (simp add: RegisterProvider_def setup_calls_def Let_def split_def ok kept handle log assms(2))
  show "performs h (untouched 0) (AddContext P w) [setup_calls P h (of_nat pid) ! 1, setup_calls P h (of_nat pid) ! 2] (untouched 0)"
    by (rule performsI) (simp add: AddContext_def setup_calls_def Let_def split_def ok kept handle log pid)
  show "performs h (untouched 0) (AddSublayer P w) [setup_calls P h (of_nat pid) ! 3] (untouched 0)"
    by (rule performsI) (simp add: AddSublayer_def setup_calls_def Let_def split_def ok kept handle log assms(2) names)
qed

lemma setup_calls_split:
  "setup_calls P h pid = [setup_calls P h pid ! 0] @ [setup_calls P h pid ! 1, setup_calls P h pid ! 2] @
     [setup_calls P h pid ! 3] @ callout_calls P h @ filter_calls P h"
  by (simp add: setup_calls_def)

lemma performs_setup:
  assumes "all_succeed w" "h \<noteq> NULL" "\<And>tr. ret_out (w tr GetCurrentProcessId) = pid"
  shows "performs h (untouched 0) (in_order [RegisterProvider P w, AddContext P w, AddSublayer P w, AddCallouts P w,
     AddFilters P w]) (setup_calls P h (of_nat pid)) (untouched 4)"
proof -
  note one = performs_single [OF assms]
  have last: "performs h (untouched 4) (in_order []) [] (untouched 4)" by (simp add: performs_def)
  from performs_and_then [OF one(1) performs_and_then [OF one(2) performs_and_then [OF one(3)
        performs_and_then [OF performs_AddCallouts [OF assms(1,2)]
          performs_and_then [OF performs_AddFilters [OF assms(1,2)] last]]]]]
  show ?thesis by (subst setup_calls_split) simp
qed

section \<open>Properties\<close>

text \<open>
  C15: When no call fails and the session's handle is not null, the command \<^verbatim>\<open>all\<close> on a new engine opens a
  dynamic session and then adds, each once and in this order, the provider, the context with the
  identifier of the running process, the sublayer, the four callouts and the four filters that
  refer to them, all in that session.
\<close>

theorem all_sets_up_the_filters:
  assumes "all_succeed w" and pid: "\<And>tr. ret_out (w tr GetCurrentProcessId) = pid"
    and h: "h = ret_out (w (ctl_log s) (FwpmEngineOpen0 (RPC_C_AUTHN_DEFAULT P) (FWPM_SESSION_FLAG_DYNAMIC P)))" "h \<noteq> NULL"
  shows "fst (all_commands P w (WFPEngine_default, s)) = None \<and>
    map fst (ctl_log (snd (snd (all_commands P w (WFPEngine_default, s))))) = map fst (ctl_log s) @
      FwpmEngineOpen0 (RPC_C_AUTHN_DEFAULT P) (FWPM_SESSION_FLAG_DYNAMIC P) # setup_calls P h (of_nat pid)"
proof -
  let ?c = "FwpmEngineOpen0 (RPC_C_AUTHN_DEFAULT P) (FWPM_SESSION_FLAG_DYNAMIC P)"
  let ?e = "WFPEngine_default\<lparr>m_engineHandle := Some (length (blocks s))\<rparr>"
  obtain s1 where s1: "s1 = s\<lparr>ctl_log := ctl_log s @ [(?c, w (ctl_log s) ?c)], blocks := blocks s @ [(h, 1)]\<rparr>" by simp
  have open1: "OpenFilterEngine P w (WFPEngine_default, s) = (None, ?e, s1)"
    using assms(1) by (simp add: OpenFilterEngine_def all_succeed_def ctl_ask_eq sp_new_def s1 h(1) Let_def sp_release_def
        WFPEngine_default_def)
  have "untouched 0 ?e" by (simp add: untouched_def WFPEngine_default_def Callout_default_def)
  moreover have "engine_handle (?e, s1) = h" by (simp add: engine_handle_def sp_get_def s1)
  ultimately obtain e' s' where "in_order [RegisterProvider P w, AddContext P w, AddSublayer P w, AddCallouts P w,
      AddFilters P w] (?e, s1) = (None, e', s')" "map fst (ctl_log s') = map fst (ctl_log s1) @ setup_calls P h (of_nat pid)"
    using performs_setup [OF assms(1) h(2) pid] unfolding performs_def by blast
  then show ?thesis
    by (simp add: all_commands_def and_then_def [of "OpenFilterEngine P w"] open1) (simp add: s1)
qed

theorem all_sets_up_the_filters_witness:
  "map fst (ctl_log (snd (snd (all_commands sample_ctl (\<lambda>_ _. answer 0 7) (WFPEngine_default, fresh_ctl))))) =
     FwpmEngineOpen0 0xFFFFFFFF 1 # setup_calls sample_ctl 7 7"
  using all_sets_up_the_filters [of "\<lambda>_ _. answer 0 7" 7 7 fresh_ctl sample_ctl]
  by (simp add: all_succeed_def answer_def fresh_ctl_def sample_ctl_def)

end
