(* ===== verification/Spec2Isabelle.thy ===== *)
theory Spec2Isabelle
  imports Kmdf_Drivers Filter_Driver2 Prelude Wide_Strings List_Entry Filter_Progress Int_Forest
    Priority_Booster Callout_Races Controller_Calls Error_Text Sockets Wfp_Session Controller_Types
    Controller_Setup
begin

text \<open>
  A verification development for a collection of small Windows drivers and the two console
  programs that go with them. Paths below are relative to \<^verbatim>\<open>src/src\<close>.

  \<^bold>\<open>The program.\<close> The repository has independent kernel drivers and two console programs:

  \<^item> \<^verbatim>\<open>FilterDriver\<close>: an NDIS lightweight filter. NDIS calls its handlers to attach, restart, pause
    and detach filter modules and to pass chains of net buffer lists through each module; the driver
    keeps its modules on a kernel list under a spin lock and counts the net buffer lists that are out.
  \<^item> \<^verbatim>\<open>SampleWdmDriver\<close>: a WDM driver that keeps a list of integers, each with a list of its own.
  \<^item> \<^verbatim>\<open>PriorityBooster\<close> and \<^verbatim>\<open>PriorityBoosterClient\<close>: a driver that sets the priority of a thread on a
    control request, and the console program that sends it.
  \<^item> \<^verbatim>\<open>WPFCalloutDriver\<close> and \<^verbatim>\<open>WFPController\<close>: callouts of the Windows Filtering Platform that watch
    the packets of one process, and the program that sets up the filtering session for them. The two
    meet in the keys of the callouts and in the process identifier that a provider context carries.
  \<^item> \<^verbatim>\<open>EmptyKMDFDriver\<close>, \<^verbatim>\<open>KmdfHelloWorld\<close>, \<^verbatim>\<open>WDFTestDriver\<close>: small drivers on the kernel-mode driver
    framework, each an entry routine and the callbacks it hands over.
  \<^item> \<^verbatim>\<open>NetworkFilterDriver2\<close>: the NDIS filter cut down to its load, its control device and its unload.

  \<^bold>\<open>The model of the outside.\<close> The kernel, NDIS, the filtering platform, Win32 and the C runtime are
  not in the repository. Each component has a datatype of the calls it makes out; a call is appended
  with its answer to a trace in the component's state, and the answer comes from a \<^emph>\<open>world\<close>, an
  arbitrary function of the trace so far and the call (theory \<open>Prelude\<close>). Theorems hold for every
  world unless they name a hypothesis on it. Monitors (locale \<open>trace_monitor\<close>, interpreted once for
  each) read resources, locks, broken assertions and registered callouts off a trace. Constants,
  structure sizes and pure macros of the Windows headers are fields of a platform record.

  \<^bold>\<open>The theories.\<close>

  \<^item> \<open>Prelude\<close>: scalar types at their width, status codes, worlds, traces and monitors.
  \<^item> \<open>List_Entry\<close>: the \<^verbatim>\<open>LIST_ENTRY\<close> routines of the kernel as an interface. The record of routines is
    a parameter of the drivers; locale \<open>kernel_lists\<close> has the documented laws in terms of the ring a
    head anchors, and \<open>wdm_lists\<close> interprets it.
  \<^item> \<open>Nfd_Core\<close>: \<^verbatim>\<open>FilterDriver/NfdCore.hpp\<close>, the structures, globals, lock and allocation macros and
    assertions of the NDIS filter.
  \<^item> \<open>Filter_Driver\<close>: \<^verbatim>\<open>FilterDriver/main.cpp\<close>, one definition per handler in the order of the file.
  \<^item> \<open>Filter_Contract\<close>: the monitors and \<open>ndis_step\<close>, the relation that says when NDIS calls which
    handler, with handlers interleaved where one waits inside a call to NDIS (a load waits in its registration,
    where NDIS may call \<^verbatim>\<open>FilterRegisterOptions\<close>); \<open>reachable\<close> is its closure.
  \<^item> \<open>Filter_Lifecycle\<close>: the effect of every handler on modules, list, resources and locks, and the
    invariant that every reachable configuration has.
  \<^item> \<open>Filter_Properties\<close>: the properties of the NDIS filter: the list, the allocated contexts and what
    NDIS regards as attached are the same modules; counters are the number of net buffer lists out,
    modulo the width of the counter; no assertion fires; locks are taken and released properly; a
    failed or finished load holds nothing; what each handler does with its chain.
  \<^item> \<open>Filter_Progress\<close>: from every state of the loaded driver NDIS can go on until it is unloaded.
  \<^item> \<open>Int_List\<close>: \<^verbatim>\<open>SampleWdmDriver\<close>, with C++ undefined behaviour and bug checks as outcomes. The
    properties say when its loops return, which is where the class does not do what it means to.
  \<^item> \<open>Int_Forest\<close>: the class of \<open>Int_List\<close> as a data type: \<open>represents\<close> relates the memory to a list of values with
    their branches, \<open>list_spec\<close> is what each method does to it, and the methods are shown to refine that.
  \<^item> \<open>Priority_Booster\<close>: both sides of the control request. The request's memory stays the caller's,
    so each read through the pointer is a call; the properties say that a request is completed once,
    what it does over unchanging memory, and what changing memory allows.
  \<^item> \<open>Callout_Driver\<close>: \<^verbatim>\<open>WPFCalloutDriver\<close> and \<^verbatim>\<open>WFPController/wfpcontroller.identifiers.ixx\<close>: entry,
    unload, registration and classification, with the callouts registered after each path and the
    reports of matched ports over any sequence of classifications.
  \<^item> \<open>Callout_Races\<close>: the transport callouts on several processors, one access to the remembered port at a
    time (\<open>race_step\<close>): whole classifications are runs of it, and what still holds of every interleaving.
  \<^item> \<open>Wide_Strings\<close>: \<^verbatim>\<open>WFPController/Strings\<close>, the tokeniser and its users, matching and the
    conversions between narrow and wide strings.
  \<^item> \<open>Controller_Calls\<close>: what the parts of \<^verbatim>\<open>WFPController\<close> share: its calls, its state (the trace and the
    control blocks of shared pointers), exceptions and undefined behaviour as ways to end, sequencing,
    and locale \<open>action_contract\<close> for relations that every part of a sequence keeps.
  \<^item> \<open>Error_Text\<close>: \<^verbatim>\<open>WFPController/Error\<close> and the exception classes: the translation of a code, with the
    library and the buffer it takes and frees, and the text that is built from it.
  \<^item> \<open>Sockets\<close>: \<^verbatim>\<open>WFPController/WinSock\<close>: the socket object, connecting over the addresses of a host, sending,
    receiving and closing, with the open sockets read off the trace; how a \<^verbatim>\<open>Connect\<close> ends and for which cause, and
    why the message for a host that refuses is not the one meant.
  \<^item> \<open>Wfp_Session\<close>: \<^verbatim>\<open>WFPController/WindowsFilteringPlatform\<close>: the shared handle of the session, the callout
    objects and the engine; \<open>owned\<close> says that the counts in the control blocks are those of the pointers
    and that exactly the sessions with an owner are open (locale \<open>shared_handles\<close>).
  \<^item> \<open>Controller_Main\<close>: \<^verbatim>\<open>WFPController/main.cpp\<close>: the commands, the loop over the words typed, the handlers and
    the destructors; what holds of the whole run and of every state the commands lead to.
  \<^item> \<open>Controller_Types\<close>: the states that commands in any order lead to (\<open>commanded\<close>), and what the objects of the
    engine look like in all of them.
  \<^item> \<open>Controller_Setup\<close>: the exact calls of the command \<^verbatim>\<open>all\<close> when nothing fails.
  \<^item> \<open>Kmdf_Drivers\<close>: \<^verbatim>\<open>EmptyKMDFDriver\<close>, \<^verbatim>\<open>KmdfHelloWorld\<close> and \<^verbatim>\<open>WDFTestDriver\<close>: entry, the objects handed to the
    framework, and the queue callbacks with the requests they complete.
  \<^item> \<open>Filter_Driver2\<close>: \<^verbatim>\<open>NetworkFilterDriver2\<close> over the structures of \<open>Nfd_Core\<close> and the monitors of
    \<open>Filter_Contract\<close>.
  \<^item> This theory: the controller with the callout driver it talks to: the keys the one adds are those the other
    registers, and the process the driver watches is the controller's.

  \<^bold>\<open>Termination and bounds.\<close> No fuel is used. A loop of the source that always ends is a recursive
  function; one that may not is a \<open>partial_function (option)\<close>, in which not returning is \<open>None\<close>, and the
  properties state when it returns. The loop of the controller takes the words typed as a list; at the
  end of the input the stream leaves the word as it was, so the last command runs again and again and
  the loop may not return. Machine integers have their width and wrap. Addresses are natural
  numbers, 0 for NULL, and pointers never leave one allocation, so they do not wrap.

  \<^bold>\<open>Hypotheses.\<close> \<open>kernel_lists\<close> (list routines), \<open>ndis_answers\<close> (NDIS hands out fresh memory and fresh
  handles), \<open>steady_memory\<close> (the caller of the priority booster leaves its buffer alone),
  \<open>code_page_api\<close> and \<open>converts_as_documented\<close> (the Win32 conversions, with the flags they allow for UTF-8), \<open>wfp_documented\<close>, \<open>kmdf_documented\<close> and
  \<open>unregistration_succeeds\<close> (status codes, and unregistration of the filtering platform),
  \<open>sockets_api\<close> and \<open>sessions_api\<close> (a new socket or session has a handle that is not in use; a session also
  one that is not null, while a socket may have the handle 0, which the class then never closes),
  \<open>pool_answers\<close> (the pool hands out memory outside the list, or none), \<open>all_succeed\<close> (no call
  fails), \<open>delivers\<close> (a filter carries the size and the bytes of the context it was added with),
  \<open>documented_events\<close> (the device events NDIS is documented to report). Every property
  under hypotheses has a witness that meets them on concrete functions.

  \<^bold>\<open>Not modelled.\<close> The texts of \<^verbatim>\<open>KdPrint\<close> and console output where nothing depends on them;
  the older engine that is commented out in \<^verbatim>\<open>wfpcontroller.wfp.filter.cpp\<close>; the accessor of the
  WinSock data; tracing code that the preprocessor of the toolkit generates; prototypes, include
  files without definitions of their own, build and setup files.
\<close>

section \<open>The controller and its driver\<close>

lemma controller_keys: "(key, layer) \<in> set (callout_layers P) \<Longrightarrow> key \<in> set all_keys"
  by (auto simp: callout_layers_def all_keys_def key_defs controller_key_defs)

text \<open>
  C13: Whatever is typed and whatever fails, every callout the controller adds to the filter engine, and
  every callout its filters refer to, is one that the driver has registered when its load, with none registered
  before, succeeded and found the device object, and both a callout and a filter are added at the layer for which the
  callout of that key is.
\<close>

theorem controller_uses_registered_callouts:
  assumes load: "DriverEntry_callout Pd wd 0 D R sd = (st, sd')" "registered Pd (wfp_log sd) = {}" "wfp_documented Pd"
      "\<not> NT_ERROR Pd st" "DriverDeviceObject sd' \<noteq> NULL"
    and run: "sessions_api w" "sockets_api P w" "controller_main P w ws fresh_ctl = Some (r, s)"
  shows "(\<forall>h c a. (FwpmCalloutAdd0 h c, a) \<in> set (ctl_log s) \<longrightarrow> callout_key c \<in> registered Pd (wfp_log sd') \<and>
       (callout_key c, callout_layer c) \<in> set (callout_layers P)) \<and>
    (\<forall>h f a. (FwpmFilterAdd0 h f, a) \<in> set (ctl_log s) \<longrightarrow> filter_callout f \<in> registered Pd (wfp_log sd') \<and>
       (filter_callout f, filter_layer f) \<in> set (callout_layers P))"
proof -
  have reg: "registered Pd (wfp_log sd') = set all_keys"
    using DriverEntry_callout_effect [OF load(1-3)] load(4,5) by simp
  have "program_call P c" if "(c, a) \<in> set (ctl_log s)" for c a
    using main_run [OF run] that by (auto simp: list_all_iff)
  then have "engine_call P (FwpmCalloutAdd0 h c)" if "(FwpmCalloutAdd0 h c, a) \<in> set (ctl_log s)" for h c a
    using that by (fastforce simp: program_call_def command_call_def)
  moreover have "engine_call P (FwpmFilterAdd0 h f)" if "(FwpmFilterAdd0 h f, a) \<in> set (ctl_log s)" for h f a
    using that \<open>\<And>c a. (c, a) \<in> set (ctl_log s) \<Longrightarrow> program_call P c\<close>
    by (fastforce simp: program_call_def command_call_def)
  ultimately show ?thesis using controller_keys unfolding reg by (metis engine_call.simps(6,8))
qed

theorem controller_uses_registered_callouts_witness:
  "\<exists>r s. controller_main sample_ctl friendly [''all'', ''exit''] fresh_ctl = Some (r, s) \<and>
     (\<forall>h c a. (FwpmCalloutAdd0 h c, a) \<in> set (ctl_log s) \<longrightarrow>
       callout_key c \<in> registered sample_wfp (wfp_log (snd (DriverEntry_callout sample_wfp willing 0 1 2 fresh_wfp))) \<and>
       (callout_key c, callout_layer c) \<in> set (callout_layers sample_ctl))"
proof -
  let ?e = "DriverEntry_callout sample_wfp willing 0 1 2 fresh_wfp"
  have e: "fst ?e = 0" "DriverDeviceObject (snd ?e) = 7"
    by (simp_all add: DriverEntry_callout_def RegisterAllCallouts_def RegisterCallout_def sample_wfp_def
        fresh_wfp_def willing_def wfp_simps)
  have pair: "?e = (fst ?e, snd ?e)" by simp
  have load: "registered sample_wfp (wfp_log fresh_wfp) = {}"
    "\<not> NT_ERROR sample_wfp (fst ?e)" "DriverDeviceObject (snd ?e) \<noteq> NULL"
    unfolding e by (simp_all add: fresh_wfp_def registered.run_Nil sample_wfp_def)
  have "''exit'' \<in> set [''all'', ''exit'']" by simp
  then obtain r s where run: "controller_main sample_ctl friendly [''all'', ''exit''] fresh_ctl = Some (r, s)"
    using main_returns by blast
  from controller_uses_registered_callouts [OF pair load(1) sample_documented load(2,3) friendly_sessions friendly_sockets run]
  show ?thesis using run by blast
qed

text \<open>
  The platform keeps a context as it was added and hands it to the driver in a filter: a filter delivers a
  context when its provider context has the size of the blob that was added, whatever it is, and as many
  of its bytes.
\<close>

definition delivers :: "FWPS_FILTER \<Rightarrow> FWPM_PROVIDER_CONTEXT \<Rightarrow> bool" where
  "delivers f c \<longleftrightarrow> providerContext f = Some (Some
     \<lparr>blob_size = byte_size (context_dataBuffer c),
      blob_data = Some (take (unat (byte_size (context_dataBuffer c))) (byte_data (context_dataBuffer c)))\<rparr>)"

lemma read_dword_bytes: "read_dword (dword_bytes d) = d"
proof -
  have byte: "ucast (ucast x :: 8 word) = take_bit 8 x" for x :: DWORD
    by (rule bit_word_eqI) (auto simp: bit_simps)
  have digit: "take_bit 8 (drop_bit n d) + push_bit 8 (drop_bit (n + 8) d) = drop_bit n d" for n
    using bits_ident [of 8 "drop_bit n d"] by (simp add: add.commute)
  have push: "push_bit n x = 2 ^ n * x" for n and x :: DWORD by (simp add: push_bit_eq_mult)
  have "drop_bit 32 d = 0" by (rule bit_word_eqI) (simp add: bit_simps)
  then have "drop_bit 24 d = take_bit 8 (drop_bit 24 d)" using digit [of 24] by simp
  moreover have "drop_bit 16 d = take_bit 8 (drop_bit 16 d) + 256 * drop_bit 24 d"
    "drop_bit 8 d = take_bit 8 (drop_bit 8 d) + 256 * drop_bit 16 d" "d = take_bit 8 d + 256 * drop_bit 8 d"
    using digit [of 16] digit [of 8] digit [of 0] by (simp_all add: push)
  moreover have "read_dword (dword_bytes d) =
      take_bit 8 d + 256 * (take_bit 8 (drop_bit 8 d) + 256 * (take_bit 8 (drop_bit 16 d) + 256 * take_bit 8 (drop_bit 24 d)))"
    by (simp add: read_dword_def dword_bytes_def byte algebra_simps)
  ultimately show ?thesis by metis
qed

text \<open>
  C22: The context the controller adds names its own process to the driver: in a filter that delivers the
  context with the size and the bytes that were added, the process identifier that the driver compares with the running
  one is the one \<^verbatim>\<open>GetCurrentProcessId\<close> gave the controller, so the outbound TCP callout notes a port
  exactly when it runs in that process.
\<close>

theorem driver_watches_the_controller:
  "\<exists>r r' c tr. ctl_log (snd (snd (AddContext P w es))) =
       ctl_log (snd es) @ (GetCurrentProcessId, r) # (FwpmProviderContextAdd3 (engine_handle es) c, r') # tr \<and>
     (\<forall>f k sd. delivers f c \<and> cl_filter k = Some f \<and> cl_fns k = Outbound_TCP \<longrightarrow>
       (\<exists>out sd'. classify Pd wd k sd = Some (out, sd') \<and>
          matchedPort sd' = (if runs_in wd (of_nat (ret_out r)) sd
            then uint16 (cl_values k (OUTBOUND_TRANSPORT_V4_IP_LOCAL_PORT Pd)) else matchedPort sd)))"
proof -
  obtain r r' tr where log: "ctl_log (snd (snd (AddContext P w es))) = ctl_log (snd es) @ (GetCurrentProcessId, r) #
      (FwpmProviderContextAdd3 (engine_handle es) (process_context P (of_nat (ret_out r))), r') # tr"
    using AddContext_calls by blast
  have "\<exists>out sd'. classify Pd wd k sd = Some (out, sd') \<and>
      matchedPort sd' = (if runs_in wd (of_nat (ret_out r)) sd
        then uint16 (cl_values k (OUTBOUND_TRANSPORT_V4_IP_LOCAL_PORT Pd)) else matchedPort sd)"
    if "delivers f (process_context P (of_nat (ret_out r)))" "cl_filter k = Some f" "cl_fns k = Outbound_TCP" for f k sd
  proof -
    have "named_process (Some f) = of_nat (ret_out r)" "\<not> dangling_blob (Some f)"
      using that(1) read_dword_bytes
      by (simp_all add: delivers_def process_context_def named_process_def dangling_blob_def sizeof_DWORD_def dword_bytes_def)
    then show ?thesis using classify_effect [of Pd wd k sd] that(2,3) by auto
  qed
  then show ?thesis using log by blast
qed

theorem driver_watches_the_controller_witness:
  "\<exists>out sd'. classify sample_wfp willing from_7 fresh_wfp = Some (out, sd') \<and> matchedPort sd' = 80"
proof -
  let ?w = "\<lambda>_ _. answer 0 7" and ?es = "(WFPEngine_default, fresh_ctl)"
  obtain r r' c tr where log: "ctl_log (snd (snd (AddContext sample_ctl ?w ?es))) = ctl_log (snd ?es) @
      (GetCurrentProcessId, r) # (FwpmProviderContextAdd3 (engine_handle ?es) c, r') # tr"
    and p: "\<forall>f k sd. delivers f c \<and> cl_filter k = Some f \<and> cl_fns k = Outbound_TCP \<longrightarrow>
       (\<exists>out sd'. classify sample_wfp willing k sd = Some (out, sd') \<and>
          matchedPort sd' = (if runs_in willing (of_nat (ret_out r)) sd
            then uint16 (cl_values k (OUTBOUND_TRANSPORT_V4_IP_LOCAL_PORT sample_wfp)) else matchedPort sd))"
    using driver_watches_the_controller [of sample_ctl ?w ?es sample_wfp willing] by blast
  have "r = answer 0 7 \<and> context_dataBuffer c = \<lparr>byte_size = 4, byte_data = dword_bytes 7\<rparr>"
    using log by (simp add: AddContext_def Let_def split_def ctl_ask_eq fresh_ctl_def) (auto simp: answer_def sizeof_DWORD_def)
  then show ?thesis
    using p [rule_format, of "the (cl_filter from_7)" from_7 fresh_wfp]
    by (simp add: delivers_def dword_bytes_def runs_in_def answer_def willing_def uint16_def from_7_def)
qed

end
